(* ===== verification/Prelude.thy ===== *)
theory Prelude
  imports Main "HOL-Library.Word"
begin

text \<open>
  Shared vocabulary of the development: the machine integers of the C sources, the errno values
  they return, C strings as bytes, the early-return idiom \<open>if (r < 0) return r;\<close>, a theorem
  collection for evaluating witnesses, and a few generic lemmas on lists and words.
\<close>

unbundle bit_operations_syntax

type_synonym u8 = "8 word"
type_synonym u16 = "16 word"
type_synonym u32 = "32 word"

named_theorems ref_eval \<open>evaluation of the concrete library instances in witnesses\<close>

subsection \<open>errno values (the C library's errno.h)\<close>

definition ENOENT :: int where "ENOENT = 2"
definition EIO :: int where "EIO = 5"
definition ENODEV :: int where "ENODEV = 19"
definition EINVAL :: int where "EINVAL = 22"
definition EBADMSG :: int where "EBADMSG = 77"
definition EADDRNOTAVAIL :: int where "EADDRNOTAVAIL = 125"
definition ENOTCONN :: int where "ENOTCONN = 128"

lemmas errno_defs = ENOENT_def EIO_def ENODEV_def EINVAL_def EBADMSG_def EADDRNOTAVAIL_def
  ENOTCONN_def

subsection \<open>C strings and buffers\<close>

text \<open>The bytes of an ASCII string, without the terminating NUL.\<close>

definition bytes :: "string \<Rightarrow> u8 list" where
  "bytes s = map (\<lambda>c. of_nat (of_char c)) s"

text \<open>
  \<open>strncmp\<close> of the C library on two byte buffers. A buffer that ends early reads as a NUL
  there; the callers of the sources compare only bytes they have checked to be present.
\<close>

fun strncmp :: "u8 list \<Rightarrow> u8 list \<Rightarrow> nat \<Rightarrow> int" where
  "strncmp a b 0 = 0"
| "strncmp a b (Suc n) =
     (let x = (case a of [] \<Rightarrow> 0 | c # _ \<Rightarrow> c); y = (case b of [] \<Rightarrow> 0 | c # _ \<Rightarrow> c)
      in if x < y then -1 else if y < x then 1 else if x = 0 then 0
         else strncmp (tl a) (tl b) n)"

text \<open>The idiom \<open>r = f(); if (r < 0) return r;\<close> over an operation that also yields a packet.\<close>

definition chk :: "int \<times> 'p \<Rightarrow> ('p \<Rightarrow> int \<times> 'p) \<Rightarrow> int \<times> 'p" where
  "chk x f = (if fst x < 0 then x else f (snd x))"

text \<open>The idiom \<open>ret = f(); if (ret != SUCCESS) return ret;\<close> over a state.\<close>

definition seq_ok :: "int \<Rightarrow> int \<times> 's \<Rightarrow> ('s \<Rightarrow> int \<times> 's) \<Rightarrow> int \<times> 's" where
  "seq_ok success x f = (if fst x \<noteq> success then x else f (snd x))"

lemma seq_ok_success:
  "fst (seq_ok v x f) = v \<longleftrightarrow> fst x = v \<and> fst (f (snd x)) = v"
  by (simp add: seq_ok_def)

lemma seq_ok_step: "fst x = v \<Longrightarrow> seq_ok v x f = f (snd x)"
  by (simp add: seq_ok_def)

lemma bytes_Nil [simp]: "bytes [] = []"
  by (simp add: bytes_def)

lemma bytes_Cons [simp]: "bytes (c # s) = of_nat (of_char c) # bytes s"
  by (simp add: bytes_def)

lemma length_bytes [simp]: "length (bytes s) = length s"
  by (simp add: bytes_def)

lemma chk_ok: "chk x f = (r, p) \<Longrightarrow> 0 \<le> r \<Longrightarrow> 0 \<le> fst x \<and> f (snd x) = (r, p)"
  by (auto simp: chk_def split: if_splits)

lemma chk_err: "fst x < 0 \<Longrightarrow> chk x f = x"
  by (simp add: chk_def)

lemma chk_step: "0 \<le> fst x \<Longrightarrow> chk x f = f (snd x)"
  by (simp add: chk_def)

text \<open>
  Comparing a non-NUL prefix with \<open>strncmp\<close> is list-prefix equality, when the buffer is long
  enough.
\<close>

lemma strncmp_eq_take:
  "\<lbrakk> n \<le> length a; n \<le> length b; 0 \<notin> set (take n b) \<rbrakk>
   \<Longrightarrow> strncmp a b n = 0 \<longleftrightarrow> take n a = take n b"
proof (induction n arbitrary: a b)
  case 0
  then show ?case by simp
next
  case (Suc n)
  then obtain x a' y b' where ab: "a = x # a'" "b = y # b'"
    by (cases a; cases b) auto
  with Suc.prems have "n \<le> length a'" "n \<le> length b'" "0 \<notin> set (take n b')" "y \<noteq> 0"
    by auto
  with Suc.IH [of a' b'] ab show ?case
    by (auto simp: Let_def)
qed

lemma take_eq_single: "take 1 xs = [x] \<longleftrightarrow> xs \<noteq> [] \<and> xs ! 0 = x"
  by (cases xs) auto

lemma unat_of_nat_u16: "n < 65536 \<Longrightarrow> unat (of_nat n :: u16) = n"
  by (simp add: unat_of_nat)

lemma unat_u8_lt: "unat (n :: u8) < 256"
  using unsigned_less [of n] by simp

lemma unat_u16_lt: "unat (n :: u16) < 65536"
  using unsigned_less [of n] by simp

lemma unat_add_u16: "unat a + unat b \<le> unat (c :: u16) \<Longrightarrow> unat (a + b :: u16) = unat a + unat b"
  using unat_u16_lt [of c] by (simp add: unat_word_ariths)

lemma take_min_length_eq:
  "length ys < n \<Longrightarrow> take n xs = ys \<longleftrightarrow> xs = ys"
  by (metis length_take min_less_iff_disj nat_neq_iff take_all linorder_not_le min_def)

subsection \<open>Runs of a deterministic machine\<close>

text \<open>An operation that keeps an invariant keeps it over every sequence of operations.\<close>

fun run :: "('s \<Rightarrow> 'e \<Rightarrow> 's) \<Rightarrow> 's \<Rightarrow> 'e list \<Rightarrow> 's" where
  "run step s [] = s"
| "run step s (e # es) = run step (step s e) es"

fun trace :: "('s \<Rightarrow> 'e \<Rightarrow> 's) \<Rightarrow> ('s \<Rightarrow> 'e \<Rightarrow> 'f) \<Rightarrow> 's \<Rightarrow> 'e list \<Rightarrow> 'f list" where
  "trace step evt s [] = []"
| "trace step evt s (e # es) = evt s e # trace step evt (step s e) es"

lemma run_append: "run step s (xs @ ys) = run step (run step s xs) ys"
  by (induction xs arbitrary: s) auto

locale invariant_step =
  fixes step :: "'s \<Rightarrow> 'e \<Rightarrow> 's" and inv :: "'s \<Rightarrow> bool"
  assumes step_inv: "inv s \<Longrightarrow> inv (step s e)"
begin

lemma run_inv: "inv s \<Longrightarrow> inv (run step s es)"
  by (induction es arbitrary: s) (auto intro: step_inv)

end

text \<open>
  Simulation of one machine by another, lifted to runs. \<open>evt\<close> says which abstract event a concrete
  one is.
\<close>

locale simulation_step =
  fixes step :: "'s \<Rightarrow> 'e \<Rightarrow> 's" and astep :: "'t \<Rightarrow> 'f \<Rightarrow> 't" and rel :: "'s \<Rightarrow> 't \<Rightarrow> bool"
    and evt :: "'s \<Rightarrow> 'e \<Rightarrow> 'f"
  assumes step_simulates: "rel s t \<Longrightarrow> rel (step s e) (astep t (evt s e))"
begin

lemma run_simulates: "rel s t \<Longrightarrow> rel (run step s es) (run astep t (trace step evt s es))"
  by (induction es arbitrary: s t) (auto intro: step_simulates)

end

text \<open>Functional refinement under an invariant is the simulation along a function.\<close>

locale refinement_step = invariant_step step inv
  for step :: "'s \<Rightarrow> 'e \<Rightarrow> 's" and inv :: "'s \<Rightarrow> bool" +
  fixes astep :: "'t \<Rightarrow> 'f \<Rightarrow> 't" and abst :: "'s \<Rightarrow> 't" and evt :: "'s \<Rightarrow> 'e \<Rightarrow> 'f"
  assumes step_refines: "inv s \<Longrightarrow> abst (step s e) = astep (abst s) (evt s e)"

sublocale refinement_step \<subseteq> simulation_step step astep "\<lambda>s t. inv s \<and> t = abst s" evt
  by unfold_locales (simp add: step_inv step_refines)

context refinement_step
begin

lemma run_refines: "inv s \<Longrightarrow> abst (run step s es) = run astep (abst s) (trace step evt s es)"
  using run_simulates [of s "abst s" es] by simp

end

end
