(* ===== verification/Coap_Lib.thy ===== *)
theory Coap_Lib
  imports Prelude
begin

text \<open>
  The CoAP library of Zephyr as the sources see it. Its code is not part of the repository, so
  every function of it that the sources call is a field of the record \<open>coap_lib\<close>, an argument
  of the definitions that use it. The members of \<open>struct coap_packet\<close> that the sources touch
  (\<open>data\<close>, \<open>offset\<close>, \<open>max_len\<close>) are a record; the library's own members are its extension.

  What the sources rely on is stated as laws relative to two readings: \<open>V\<close> gives the CoAP
  message (RFC 7252) a packet carries, \<open>W\<close> the text of an option. Theory \<open>Coap_Ref\<close> shows that
  the laws can hold, with a byte-level packet layout.
\<close>

subsection \<open>Packets, the library's functions and the protocol constants\<close>

record coap_packet =
  data :: "u8 list"
  offset :: u16
  max_len :: u16

record ('m, 'o) coap_lib =
  coap_packet_init :: "u16 \<Rightarrow> u8 \<Rightarrow> u8 \<Rightarrow> u8 \<Rightarrow> u8 list \<Rightarrow> u8 \<Rightarrow> u16 \<Rightarrow> int \<times> 'm coap_packet_scheme"
  coap_packet_append_payload_marker :: "'m coap_packet_scheme \<Rightarrow> int \<times> 'm coap_packet_scheme"
  coap_packet_append_payload :: "'m coap_packet_scheme \<Rightarrow> u8 list \<Rightarrow> u16 \<Rightarrow> int \<times> 'm coap_packet_scheme"
  coap_packet_get_payload :: "'m coap_packet_scheme \<Rightarrow> u8 list option \<times> u16"
  coap_packet_parse :: "u8 list \<Rightarrow> u16 \<Rightarrow> int \<times> 'm coap_packet_scheme"
  coap_header_get_id :: "'m coap_packet_scheme \<Rightarrow> u16"
  coap_header_get_code :: "'m coap_packet_scheme \<Rightarrow> u8"
  coap_header_get_token :: "'m coap_packet_scheme \<Rightarrow> u8 \<times> u8 list"
  coap_find_options :: "'m coap_packet_scheme \<Rightarrow> u16 \<Rightarrow> nat \<Rightarrow> int \<times> 'o list"
  coap_uri_path_match :: "string list \<Rightarrow> 'o list \<Rightarrow> int \<Rightarrow> bool"
  packet_rest0 :: 'm \<comment> \<open>the library's members of a packet, zero-initialised\<close>

definition COAP_VERSION_1 :: u8 where "COAP_VERSION_1 = 1"
definition COAP_TYPE_ACK :: u8 where "COAP_TYPE_ACK = 2"
definition COAP_METHOD_GET :: u8 where "COAP_METHOD_GET = 1"
definition COAP_METHOD_POST :: u8 where "COAP_METHOD_POST = 2"
definition COAP_METHOD_PUT :: u8 where "COAP_METHOD_PUT = 3"
definition COAP_RESPONSE_CODE_CHANGED :: u8 where "COAP_RESPONSE_CODE_CHANGED = 0x44"
definition COAP_RESPONSE_CODE_CONTENT :: u8 where "COAP_RESPONSE_CODE_CONTENT = 0x45"
definition COAP_RESPONSE_CODE_BAD_REQUEST :: u8 where "COAP_RESPONSE_CODE_BAD_REQUEST = 0x80"
definition COAP_RESPONSE_CODE_NOT_FOUND :: u8 where "COAP_RESPONSE_CODE_NOT_FOUND = 0x84"
definition COAP_OPTION_URI_PATH :: u16 where "COAP_OPTION_URI_PATH = 11"
definition COAP_TOKEN_MAX_LEN :: nat where "COAP_TOKEN_MAX_LEN = 8"

lemmas coap_consts = COAP_VERSION_1_def COAP_TYPE_ACK_def COAP_METHOD_GET_def COAP_METHOD_POST_def
  COAP_METHOD_PUT_def COAP_RESPONSE_CODE_CHANGED_def COAP_RESPONSE_CODE_CONTENT_def
  COAP_RESPONSE_CODE_BAD_REQUEST_def COAP_RESPONSE_CODE_NOT_FOUND_def COAP_OPTION_URI_PATH_def
  COAP_TOKEN_MAX_LEN_def

text \<open>
  The message a packet carries. A payload of \<open>None\<close> has no payload marker, \<open>Some []\<close> a marker
  with nothing after it yet.
\<close>

record coap_msg =
  m_type :: u8
  m_code :: u8
  m_id :: u16
  m_token :: "u8 list"
  m_path :: "string list"
  m_payload :: "u8 list option"

text \<open>The answer to a request: an ACK that echoes its message ID and token.\<close>

definition ack :: "coap_msg \<Rightarrow> u8 \<Rightarrow> u8 list option \<Rightarrow> coap_msg" where
  "ack q code pl = \<lparr>m_type = COAP_TYPE_ACK, m_code = code, m_id = m_id q, m_token = m_token q,
                   m_path = [], m_payload = pl\<rparr>"

subsection \<open>The documented laws\<close>

definition law_init :: "('m, 'o) coap_lib \<Rightarrow> ('m coap_packet_scheme \<Rightarrow> coap_msg) \<Rightarrow> bool" where
  "law_init C V \<longleftrightarrow> (\<forall>cap tkl tok code mid r p.
     coap_packet_init C cap COAP_VERSION_1 COAP_TYPE_ACK tkl tok code mid = (r, p) \<longrightarrow> 0 \<le> r \<longrightarrow>
     unat tkl \<le> COAP_TOKEN_MAX_LEN \<longrightarrow> unat tkl \<le> length tok \<longrightarrow>
     V p = \<lparr>m_type = COAP_TYPE_ACK, m_code = code, m_id = mid, m_token = take (unat tkl) tok,
            m_path = [], m_payload = None\<rparr>)"

definition law_append :: "('m, 'o) coap_lib \<Rightarrow> ('m coap_packet_scheme \<Rightarrow> coap_msg) \<Rightarrow> bool" where
  "law_append C V \<longleftrightarrow>
     (\<forall>p r p'. coap_packet_append_payload_marker C p = (r, p') \<longrightarrow> 0 \<le> r \<longrightarrow>
        m_payload (V p) = None \<longrightarrow> V p' = (V p)\<lparr>m_payload := Some []\<rparr>) \<and>
     (\<forall>p bs n r p' q. coap_packet_append_payload C p bs n = (r, p') \<longrightarrow> 0 \<le> r \<longrightarrow>
        unat n \<le> length bs \<longrightarrow> m_payload (V p) = Some q \<longrightarrow> length q + unat n < 65536 \<longrightarrow>
        V p' = (V p)\<lparr>m_payload := Some (q @ take (unat n) bs)\<rparr>)"

definition law_header :: "('m, 'o) coap_lib \<Rightarrow> ('m coap_packet_scheme \<Rightarrow> coap_msg) \<Rightarrow> bool" where
  "law_header C V \<longleftrightarrow> (\<forall>p.
     coap_header_get_id C p = m_id (V p) \<and> coap_header_get_code C p = m_code (V p) \<and>
     (\<forall>tkl tok. coap_header_get_token C p = (tkl, tok) \<longrightarrow>
        unat tkl \<le> COAP_TOKEN_MAX_LEN \<and> length tok = COAP_TOKEN_MAX_LEN \<and>
        take (unat tkl) tok = m_token (V p)))"

definition law_payload :: "('m, 'o) coap_lib \<Rightarrow> ('m coap_packet_scheme \<Rightarrow> coap_msg) \<Rightarrow> bool" where
  "law_payload C V \<longleftrightarrow> (\<forall>p.
     (case m_payload (V p) of
        None \<Rightarrow> coap_packet_get_payload C p = (None, 0)
      | Some bs \<Rightarrow> length bs < 65536 \<and>
          coap_packet_get_payload C p =
            (if bs = [] then (None, 0) else (Some bs, of_nat (length bs)))))"

text \<open>
  \<open>coap_find_options\<close> fills at most the given number of options and returns how many, or a
  negative error; \<open>coap_uri_path_match\<close> compares the whole path for a path without the wildcard
  characters.
\<close>

definition plain_path :: "string list \<Rightarrow> bool" where
  "plain_path path \<longleftrightarrow> (\<forall>seg \<in> set path. CHR ''+'' \<notin> set seg \<and> CHR ''#'' \<notin> set seg)"

definition law_path :: "('m, 'o) coap_lib \<Rightarrow> ('m coap_packet_scheme \<Rightarrow> coap_msg) \<Rightarrow> ('o \<Rightarrow> string) \<Rightarrow> bool" where
  "law_path C V W \<longleftrightarrow>
     (\<forall>p n k os. coap_find_options C p COAP_OPTION_URI_PATH n = (k, os) \<longrightarrow> 0 \<le> k \<longrightarrow>
        k = int (min n (length (m_path (V p)))) \<and> nat k \<le> length os \<and>
        map W (take (nat k) os) = take n (m_path (V p))) \<and>
     (\<forall>path os k. plain_path path \<longrightarrow> 0 \<le> k \<longrightarrow> nat k \<le> length os \<longrightarrow>
        (coap_uri_path_match C path os k \<longleftrightarrow> map W (take (nat k) os) = path))"

definition coap_laws :: "('m, 'o) coap_lib \<Rightarrow> ('m coap_packet_scheme \<Rightarrow> coap_msg) \<Rightarrow> ('o \<Rightarrow> string) \<Rightarrow> bool" where
  "coap_laws C V W \<longleftrightarrow>
     law_init C V \<and> law_append C V \<and> law_header C V \<and> law_payload C V \<and> law_path C V W"

text \<open>
  Space: a packet starts with the four header bytes and the token, a payload marker and payload
  bytes are added to its length, and an operation fails only when the buffer is too small.
\<close>

definition space_laws :: "('m, 'o) coap_lib \<Rightarrow> bool" where
  "space_laws C \<longleftrightarrow>
     (\<forall>cap tkl tok code mid r p. unat tkl \<le> COAP_TOKEN_MAX_LEN \<longrightarrow>
        coap_packet_init C cap COAP_VERSION_1 COAP_TYPE_ACK tkl tok code mid = (r, p) \<longrightarrow>
        (r < 0 \<longleftrightarrow> unat cap < 4 + unat tkl) \<and>
        (0 \<le> r \<longrightarrow> unat (offset p) = 4 + unat tkl \<and> max_len p = cap)) \<and>
     (\<forall>p r p'. coap_packet_append_payload_marker C p = (r, p') \<longrightarrow>
        (r < 0 \<longleftrightarrow> unat (max_len p) < unat (offset p) + 1) \<and>
        (0 \<le> r \<longrightarrow> unat (offset p') = unat (offset p) + 1 \<and> max_len p' = max_len p)) \<and>
     (\<forall>p bs n r p'. coap_packet_append_payload C p bs n = (r, p') \<longrightarrow>
        (r < 0 \<longleftrightarrow> unat (max_len p) < unat (offset p) + unat n) \<and>
        (0 \<le> r \<longrightarrow> unat (offset p') = unat (offset p) + unat n \<and> max_len p' = max_len p))"

subsection \<open>Using the laws\<close>

lemma coap_laws_init:
  "coap_laws C V W \<Longrightarrow>
   coap_packet_init C cap COAP_VERSION_1 COAP_TYPE_ACK tkl tok code mid = (r, p) \<Longrightarrow> 0 \<le> r \<Longrightarrow>
   unat tkl \<le> COAP_TOKEN_MAX_LEN \<Longrightarrow> unat tkl \<le> length tok \<Longrightarrow>
   V p = \<lparr>m_type = COAP_TYPE_ACK, m_code = code, m_id = mid, m_token = take (unat tkl) tok,
          m_path = [], m_payload = None\<rparr>"
  unfolding coap_laws_def law_init_def by blast

lemma coap_laws_marker:
  "coap_laws C V W \<Longrightarrow> coap_packet_append_payload_marker C p = (r, p') \<Longrightarrow> 0 \<le> r \<Longrightarrow>
   m_payload (V p) = None \<Longrightarrow> V p' = (V p)\<lparr>m_payload := Some []\<rparr>"
  unfolding coap_laws_def law_append_def by blast

lemma coap_laws_append:
  "coap_laws C V W \<Longrightarrow> coap_packet_append_payload C p bs n = (r, p') \<Longrightarrow> 0 \<le> r \<Longrightarrow>
   unat n \<le> length bs \<Longrightarrow> m_payload (V p) = Some q \<Longrightarrow> length q + unat n < 65536 \<Longrightarrow>
   V p' = (V p)\<lparr>m_payload := Some (q @ take (unat n) bs)\<rparr>"
  unfolding coap_laws_def law_append_def by blast

lemma coap_laws_header:
  assumes "coap_laws C V W"
  shows "coap_header_get_id C p = m_id (V p)" and "coap_header_get_code C p = m_code (V p)"
  using assms by (auto simp: coap_laws_def law_header_def)

lemma coap_laws_token:
  assumes "coap_laws C V W" and "coap_header_get_token C p = (tkl, tok)"
  shows "unat tkl \<le> COAP_TOKEN_MAX_LEN" and "unat tkl \<le> length tok"
    and "take (unat tkl) tok = m_token (V p)"
  using assms by (auto simp: coap_laws_def law_header_def)

lemma coap_laws_payload:
  assumes "coap_laws C V W"
  shows "coap_packet_get_payload C p =
    (case m_payload (V p) of
       None \<Rightarrow> (None, 0)
     | Some bs \<Rightarrow> if bs = [] then (None, 0) else (Some bs, of_nat (length bs)))"
    and "m_payload (V p) = Some bs \<Longrightarrow> length bs < 65536"
proof -
  from assms have "case m_payload (V p) of
      None \<Rightarrow> coap_packet_get_payload C p = (None, 0)
    | Some bs \<Rightarrow> length bs < 65536 \<and> coap_packet_get_payload C p =
        (if bs = [] then (None, 0) else (Some bs, of_nat (length bs)))"
    by (simp add: coap_laws_def law_payload_def)
  then show "coap_packet_get_payload C p =
    (case m_payload (V p) of
       None \<Rightarrow> (None, 0)
     | Some bs \<Rightarrow> if bs = [] then (None, 0) else (Some bs, of_nat (length bs)))"
    and "m_payload (V p) = Some bs \<Longrightarrow> length bs < 65536"
    by (auto split: option.splits)
qed

text \<open>
  Reading one option more than the longest path one wants to match is enough to match the whole
  path: a longer request path yields a longer list of options, which does not match.
\<close>

lemma path_match_whole:
  assumes "coap_laws C V W" and "coap_find_options C p COAP_OPTION_URI_PATH n = (k, os)"
    and "plain_path path" and "length path < n"
  shows "coap_uri_path_match C path os (if k < 0 then 0 else k) \<longleftrightarrow>
         (if k < 0 then path = [] else m_path (V p) = path)"
proof (cases "k < 0")
  case True
  with assms show ?thesis by (auto simp: coap_laws_def law_path_def)
next
  case False
  with assms have "nat k \<le> length os" "map W (take (nat k) os) = take n (m_path (V p))"
    by (auto simp: coap_laws_def law_path_def)
  moreover from assms False calculation
  have "coap_uri_path_match C path os k \<longleftrightarrow> map W (take (nat k) os) = path"
    by (simp add: coap_laws_def law_path_def)
  ultimately show ?thesis
    using False assms(4) by (simp add: take_min_length_eq)
qed

lemma space_init:
  assumes "space_laws C" and "unat tkl \<le> COAP_TOKEN_MAX_LEN"
    and "coap_packet_init C cap COAP_VERSION_1 COAP_TYPE_ACK tkl tok code mid = (r, p)"
  shows "r < 0 \<longleftrightarrow> unat cap < 4 + unat tkl"
    and "0 \<le> r \<Longrightarrow> unat (offset p) = 4 + unat tkl \<and> max_len p = cap"
  using assms unfolding space_laws_def by blast+

lemma space_marker:
  assumes "space_laws C" and "coap_packet_append_payload_marker C p = (r, p')"
  shows "r < 0 \<longleftrightarrow> unat (max_len p) < unat (offset p) + 1"
    and "0 \<le> r \<Longrightarrow> unat (offset p') = unat (offset p) + 1 \<and> max_len p' = max_len p"
  using assms unfolding space_laws_def by blast+

lemma space_append:
  assumes "space_laws C" and "coap_packet_append_payload C p bs n = (r, p')"
  shows "r < 0 \<longleftrightarrow> unat (max_len p) < unat (offset p) + unat n"
    and "0 \<le> r \<Longrightarrow> unat (offset p') = unat (offset p) + unat n \<and> max_len p' = max_len p"
  using assms unfolding space_laws_def by blast+

end
