(* ===== verification/Coap_Ref.thy ===== *)
theory Coap_Ref
  imports Coap_Lib
begin

text \<open>
  A concrete CoAP library that satisfies the laws of \<open>Coap_Lib\<close>, for the witnesses: packets are
  laid out as RFC 7252 says (header, token, options, 0xff, payload) and carry the decoded message
  as the library's own members. It is not a model of Zephyr's code, which is not in the
  repository; it shows that the laws the theorems assume can hold, and it runs.
\<close>

text \<open>Options with deltas and lengths below 13, up to the payload marker.\<close>

fun ref_options :: "nat \<Rightarrow> u8 list \<Rightarrow> string list \<times> u8 list option" where
  "ref_options d [] = ([], None)"
| "ref_options d (b # bs) =
     (if b = 0xff then ([], Some bs)
      else let d' = d + unat (drop_bit 4 b); n = unat (b AND 15);
               (os, pl) = ref_options d' (drop n bs)
           in (if d' = 11 then map (\<lambda>x. char_of (unat x)) (take n bs) # os else os, pl))"

definition ref_decode :: "u8 list \<Rightarrow> coap_msg" where
  "ref_decode bs =
     (let tkl = unat (bs ! 0 AND 15); (os, pl) = ref_options 0 (drop (4 + tkl) bs)
      in \<lparr>m_type = drop_bit 4 (bs ! 0) AND 3, m_code = bs ! 1,
          m_id = push_bit 8 (ucast (bs ! 2)) OR ucast (bs ! 3),
          m_token = take tkl (drop 4 bs), m_path = os, m_payload = pl\<rparr>)"

definition ref_view :: "coap_msg coap_packet_scheme \<Rightarrow> coap_msg" where
  "ref_view p = (coap_packet.more p)\<lparr>m_token := take 8 (m_token (coap_packet.more p)),
     m_payload := map_option (take 65535) (m_payload (coap_packet.more p))\<rparr>"

definition ref_head :: "u8 \<Rightarrow> u8 \<Rightarrow> u8 \<Rightarrow> u8 list \<Rightarrow> u8 \<Rightarrow> u16 \<Rightarrow> u8 list" where
  "ref_head ver typ tkl tok code mid =
     [push_bit 6 ver OR push_bit 4 typ OR tkl, code, ucast (drop_bit 8 mid), ucast mid] @
     take (unat tkl) (tok @ replicate 8 0)"

definition ref_init ::
  "u16 \<Rightarrow> u8 \<Rightarrow> u8 \<Rightarrow> u8 \<Rightarrow> u8 list \<Rightarrow> u8 \<Rightarrow> u16 \<Rightarrow> int \<times> coap_msg coap_packet_scheme" where
  "ref_init cap ver typ tkl tok code mid =
     (let bs = ref_head ver typ tkl tok code mid
      in (if unat cap < length bs then - EINVAL else 0,
          \<lparr>data = bs, offset = of_nat (length bs), max_len = cap,
           \<dots> = \<lparr>m_type = typ, m_code = code, m_id = mid, m_token = take (unat tkl) tok,
                m_path = [], m_payload = None\<rparr>\<rparr>))"

definition ref_marker :: "coap_msg coap_packet_scheme \<Rightarrow> int \<times> coap_msg coap_packet_scheme" where
  "ref_marker p =
     (if unat (max_len p) < unat (offset p) + 1 then (- EINVAL, p)
      else (0, p\<lparr>data := data p @ [0xff], offset := offset p + 1,
                coap_packet.more := (coap_packet.more p)\<lparr>m_payload := Some []\<rparr>\<rparr>))"

definition ref_append ::
  "coap_msg coap_packet_scheme \<Rightarrow> u8 list \<Rightarrow> u16 \<Rightarrow> int \<times> coap_msg coap_packet_scheme" where
  "ref_append p bs n =
     (if unat (max_len p) < unat (offset p) + unat n then (- EINVAL, p)
      else (0, p\<lparr>data := data p @ take (unat n) bs, offset := offset p + n,
                coap_packet.more := (coap_packet.more p)\<lparr>m_payload :=
                  map_option (\<lambda>q. take 65535 q @ take (unat n) bs) (m_payload (coap_packet.more p))\<rparr>\<rparr>))"

definition ref_get_payload :: "coap_msg coap_packet_scheme \<Rightarrow> u8 list option \<times> u16" where
  "ref_get_payload p =
     (case m_payload (ref_view p) of
        None \<Rightarrow> (None, 0)
      | Some bs \<Rightarrow> if bs = [] then (None, 0) else (Some bs, of_nat (length bs)))"

definition ref_parse :: "u8 list \<Rightarrow> u16 \<Rightarrow> int \<times> coap_msg coap_packet_scheme" where
  "ref_parse bs n =
     (if unat n < 4 then - EINVAL else 0,
      \<lparr>data = take (unat n) bs, offset = n, max_len = n, \<dots> = ref_decode (take (unat n) bs)\<rparr>)"

definition ref_token :: "coap_msg coap_packet_scheme \<Rightarrow> u8 \<times> u8 list" where
  "ref_token p = (let tok = m_token (ref_view p)
     in (of_nat (length tok), take 8 (tok @ replicate 8 0)))"

definition ref_request :: "u8 list \<Rightarrow> coap_msg coap_packet_scheme" where
  "ref_request bs = snd (ref_parse bs (of_nat (length bs)))"

definition ref_lib :: "(coap_msg, string) coap_lib" where
  "ref_lib = \<lparr>coap_packet_init = ref_init,
     coap_packet_append_payload_marker = ref_marker,
     coap_packet_append_payload = ref_append,
     coap_packet_get_payload = ref_get_payload,
     coap_packet_parse = ref_parse,
     coap_header_get_id = (\<lambda>p. m_id (ref_view p)),
     coap_header_get_code = (\<lambda>p. m_code (ref_view p)),
     coap_header_get_token = ref_token,
     coap_find_options = (\<lambda>p opt n. let os = take n (m_path (ref_view p)) in (int (length os), os)),
     coap_uri_path_match = (\<lambda>path os k. take (nat k) os = path),
     packet_rest0 = \<lparr>m_type = 0, m_code = 0, m_id = 0, m_token = [], m_path = [], m_payload = None\<rparr>\<rparr>"

lemmas ref_packet_eval [ref_eval] = ref_request_def ref_parse_def ref_view_def ref_decode_def Let_def
  char_of_def bit_0 ref_token_def ref_get_payload_def ref_lib_def ref_init_def ref_marker_def
  ref_append_def ref_head_def

lemma ref_init_law: "law_init ref_lib ref_view"
  by (auto simp: law_init_def ref_lib_def ref_init_def ref_view_def Let_def COAP_TOKEN_MAX_LEN_def
      min_def split: if_splits)

lemma ref_append_law: "law_append ref_lib ref_view"
  by (auto simp: law_append_def ref_lib_def ref_marker_def ref_append_def ref_view_def EINVAL_def
      split: if_splits)

lemma take_min_length: "take (min (length xs) n) xs = take n xs"
  by (simp add: min_def)

lemma ref_header_law: "law_header ref_lib ref_view"
  by (auto simp: law_header_def ref_lib_def ref_token_def Let_def ref_view_def COAP_TOKEN_MAX_LEN_def
      unat_of_nat take_min_length)

lemma ref_payload_law: "law_payload ref_lib ref_view"
  by (auto simp: law_payload_def ref_lib_def ref_get_payload_def ref_view_def split: option.splits)

lemma ref_path_law: "law_path ref_lib ref_view id"
  by (auto simp: law_path_def ref_lib_def Let_def min_def)

lemma ref_coap_laws: "coap_laws ref_lib ref_view id"
  by (simp add: coap_laws_def ref_init_law ref_append_law ref_header_law ref_payload_law ref_path_law)

lemma length_ref_head:
  "unat tkl \<le> COAP_TOKEN_MAX_LEN \<Longrightarrow> length (ref_head ver typ tkl tok code mid) = 4 + unat tkl"
  by (auto simp: ref_head_def COAP_TOKEN_MAX_LEN_def)

lemma ref_init_space:
  assumes "unat tkl \<le> COAP_TOKEN_MAX_LEN" and "ref_init cap ver typ tkl tok code mid = (r, p)"
  shows "(r < 0 \<longleftrightarrow> unat cap < 4 + unat tkl) \<and>
         (0 \<le> r \<longrightarrow> unat (offset p) = 4 + unat tkl \<and> max_len p = cap)"
proof -
  have "unat (of_nat (4 + unat tkl) :: u16) = 4 + unat tkl"
    using assms(1) by (intro unat_of_nat_u16) (simp add: COAP_TOKEN_MAX_LEN_def)
  with assms show ?thesis
    by (auto simp: ref_init_def Let_def EINVAL_def length_ref_head split: if_splits)
qed

lemma ref_marker_space:
  assumes "ref_marker p = (r, p')"
  shows "(r < 0 \<longleftrightarrow> unat (max_len p) < unat (offset p) + 1) \<and>
         (0 \<le> r \<longrightarrow> unat (offset p') = unat (offset p) + 1 \<and> max_len p' = max_len p)"
  using assms unat_add_u16 [of "offset p" 1 "max_len p"]
  by (auto simp: ref_marker_def EINVAL_def split: if_splits)

lemma ref_append_space:
  assumes "ref_append p bs n = (r, p')"
  shows "(r < 0 \<longleftrightarrow> unat (max_len p) < unat (offset p) + unat n) \<and>
         (0 \<le> r \<longrightarrow> unat (offset p') = unat (offset p) + unat n \<and> max_len p' = max_len p)"
  using assms unat_add_u16 [of "offset p" n "max_len p"]
  by (auto simp: ref_append_def EINVAL_def split: if_splits)

lemma ref_space_laws: "space_laws ref_lib"
proof -
  have f: "coap_packet_init ref_lib = ref_init" "coap_packet_append_payload_marker ref_lib = ref_marker"
    "coap_packet_append_payload ref_lib = ref_append"
    by (simp_all add: ref_lib_def)
  show ?thesis
    unfolding space_laws_def f using ref_init_space ref_marker_space ref_append_space by blast
qed

end
