(* ===== verification/Coap_Server.thy ===== *)
theory Coap_Server
  imports Coap_Ref "HOL-Library.Sublist"
begin

text \<open>
  src/coap_server.c: the response builders of the \<open>hello\<close> and \<open>led\<close> resources, the shared
  dispatcher \<open>coap_server_dispatch_inner\<close>, the plaintext handler \<open>app_request\<close>, the resource
  table and \<open>coap_server_start\<close>. The state is the file's one static variable \<open>led_state\<close>, the
  outside world (GPIO, sockets, TLS credentials; opaque) and the packets handed to
  \<open>coap_resource_send\<close> so far. The other source files extend this state record.
\<close>

subsection \<open>State, platform calls and resources\<close>

record ('w, 'm, 'a) server_state =
  led_state :: bool
  world :: 'w
  sent :: "('m coap_packet_scheme \<times> 'a) list"

datatype gpio_flags = GPIO_OUTPUT_INACTIVE
datatype tls_credential_type = TLS_CREDENTIAL_PSK | TLS_CREDENTIAL_PSK_ID
datatype coap_handler = App_request | Edhoc_post | Oscore_post

record coap_resource =
  get_method :: "coap_handler option"
  put_method :: "coap_handler option"
  post_method :: "coap_handler option"
  path :: "string list"

record ('w, 'm, 'a) platform =
  gpio_is_ready_dt :: "'w \<Rightarrow> bool"
  gpio_pin_configure_dt :: "'w \<Rightarrow> gpio_flags \<Rightarrow> int \<times> 'w"
  gpio_pin_set_dt :: "'w \<Rightarrow> int \<Rightarrow> int \<times> 'w"
  coap_resource_send :: "'w \<Rightarrow> coap_resource \<Rightarrow> 'm coap_packet_scheme \<Rightarrow> 'a \<Rightarrow> int \<times> 'w"
  tls_credential_add :: "'w \<Rightarrow> nat \<Rightarrow> tls_credential_type \<Rightarrow> u8 list \<Rightarrow> int \<times> 'w"
  coap_service_start :: "'w \<Rightarrow> int \<times> 'w"

text \<open>A call of \<open>coap_resource_send\<close>: the world answers, and the packet is recorded.\<close>

definition resource_send ::
  "('w, 'm, 'a) platform \<Rightarrow> ('w, 'm, 'a, 'z) server_state_scheme \<Rightarrow> coap_resource \<Rightarrow>
   'm coap_packet_scheme \<Rightarrow> 'a \<Rightarrow> int \<times> ('w, 'm, 'a, 'z) server_state_scheme" where
  "resource_send P s res pkt addr =
     (let (r, w') = coap_resource_send P (world s) res pkt addr
      in (r, s\<lparr>world := w', sent := sent s @ [(pkt, addr)]\<rparr>))"

definition coap_port :: "bool \<Rightarrow> u16" where
  "coap_port dtls = (if dtls then 5684 else 5683)"

subsection \<open>Response builders\<close>

definition hello_payload :: "u8 list" where
  "hello_payload = bytes ''Hello from ZBook over USB-NCM'' @ [10]"

definition build_hello ::
  "('m, 'o) coap_lib \<Rightarrow> u16 \<Rightarrow> u8 \<Rightarrow> u8 list \<Rightarrow> u16 \<Rightarrow> int \<times> 'm coap_packet_scheme" where
  "build_hello C buf_len tkl token mid =
     chk (coap_packet_init C buf_len COAP_VERSION_1 COAP_TYPE_ACK tkl token
            COAP_RESPONSE_CODE_CONTENT mid) (\<lambda>p.
     chk (coap_packet_append_payload_marker C p) (\<lambda>p.
     coap_packet_append_payload C p hello_payload (of_nat (length hello_payload))))"

definition led_init ::
  "('w, 'm, 'a) platform \<Rightarrow> ('w, 'm, 'a, 'z) server_state_scheme \<Rightarrow>
   int \<times> ('w, 'm, 'a, 'z) server_state_scheme" where
  "led_init P s =
     (if \<not> gpio_is_ready_dt P (world s) then (- ENODEV, s)
      else let (r, w') = gpio_pin_configure_dt P (world s) GPIO_OUTPUT_INACTIVE
           in (r, s\<lparr>world := w'\<rparr>))"

definition parse_onoff :: "u8 list \<Rightarrow> u16 \<Rightarrow> int" where
  "parse_onoff payload len =
     (if 1 \<le> len \<and> payload ! 0 = 0x31 then 1
      else if 1 \<le> len \<and> payload ! 0 = 0x30 then 0
      else if 2 \<le> len \<and> strncmp payload (bytes ''on'' @ [0]) 2 = 0 then 1
      else if 3 \<le> len \<and> strncmp payload (bytes ''off'' @ [0]) 3 = 0 then 0
      else -1)"

definition build_led_get ::
  "('m, 'o) coap_lib \<Rightarrow> bool \<Rightarrow> u16 \<Rightarrow> u8 \<Rightarrow> u8 list \<Rightarrow> u16 \<Rightarrow> int \<times> 'm coap_packet_scheme" where
  "build_led_get C led buf_len tkl token mid =
     (let val = (if led then 0x31 else 0x30)
      in chk (coap_packet_init C buf_len COAP_VERSION_1 COAP_TYPE_ACK tkl token
                COAP_RESPONSE_CODE_CONTENT mid) (\<lambda>p.
         chk (coap_packet_append_payload_marker C p) (\<lambda>p.
         coap_packet_append_payload C p [val] 1)))"

text \<open>\<open>(payload != NULL) ? parse_onoff(payload, payload_len) : -1\<close> on the request's payload.\<close>

definition led_put_value :: "('m, 'o) coap_lib \<Rightarrow> 'm coap_packet_scheme \<Rightarrow> int" where
  "led_put_value C request =
     (let (payload, payload_len) = coap_packet_get_payload C request
      in case payload of None \<Rightarrow> -1 | Some bs \<Rightarrow> parse_onoff bs payload_len)"

definition build_led_put ::
  "('m, 'o) coap_lib \<Rightarrow> ('w, 'm, 'a) platform \<Rightarrow> ('w, 'm, 'a, 'z) server_state_scheme \<Rightarrow>
   'm coap_packet_scheme \<Rightarrow> u16 \<Rightarrow> u8 \<Rightarrow> u8 list \<Rightarrow> u16 \<Rightarrow>
   int \<times> 'm coap_packet_scheme \<times> ('w, 'm, 'a, 'z) server_state_scheme" where
  "build_led_put C P s request buf_len tkl token mid =
     (let val = led_put_value C request;
          (code, s') =
            (if val < 0 then (COAP_RESPONSE_CODE_BAD_REQUEST, s)
             else (COAP_RESPONSE_CODE_CHANGED,
                   s\<lparr>world := snd (gpio_pin_set_dt P (world s) val), led_state := (val \<noteq> 0)\<rparr>));
          (r, p) = coap_packet_init C buf_len COAP_VERSION_1 COAP_TYPE_ACK tkl token code mid
      in (r, p, s'))"

definition hello_path :: "string list" where "hello_path = [''hello'']"
definition led_path :: "string list" where "led_path = [''led'']"

subsection \<open>Dispatch, the plaintext handler and the resources\<close>

definition coap_server_dispatch_inner ::
  "('m, 'o) coap_lib \<Rightarrow> ('w, 'm, 'a) platform \<Rightarrow> ('w, 'm, 'a, 'z) server_state_scheme \<Rightarrow>
   'm coap_packet_scheme \<Rightarrow> u16 \<Rightarrow>
   int \<times> 'm coap_packet_scheme \<times> ('w, 'm, 'a, 'z) server_state_scheme" where
  "coap_server_dispatch_inner C P s request buf_len =
     (let mid = coap_header_get_id C request;
          (tkl, token) = coap_header_get_token C request;
          code = coap_header_get_code C request;
          (opt_num, options) = coap_find_options C request COAP_OPTION_URI_PATH 2;
          opt_num = (if opt_num < 0 then 0 else opt_num)
      in if code = COAP_METHOD_GET \<and> coap_uri_path_match C hello_path options opt_num
         then (let (r, p) = build_hello C buf_len tkl token mid in (r, p, s))
         else if coap_uri_path_match C led_path options opt_num \<and> code = COAP_METHOD_GET
         then (let (r, p) = build_led_get C (led_state s) buf_len tkl token mid in (r, p, s))
         else if coap_uri_path_match C led_path options opt_num \<and> code = COAP_METHOD_PUT
         then build_led_put C P s request buf_len tkl token mid
         else (let (r, p) = coap_packet_init C buf_len COAP_VERSION_1 COAP_TYPE_ACK tkl token
                              COAP_RESPONSE_CODE_NOT_FOUND mid
               in (r, p, s)))"

text \<open>\<open>msg_size\<close> is CONFIG_COAP_SERVER_MESSAGE_SIZE: 64 in the base build, 256 with oscore.conf.\<close>

definition app_request ::
  "('m, 'o) coap_lib \<Rightarrow> ('w, 'm, 'a) platform \<Rightarrow> u16 \<Rightarrow> ('w, 'm, 'a, 'z) server_state_scheme \<Rightarrow>
   coap_resource \<Rightarrow> 'm coap_packet_scheme \<Rightarrow> 'a \<Rightarrow> int \<times> ('w, 'm, 'a, 'z) server_state_scheme" where
  "app_request C P msg_size s resource request addr =
     (let (r, response, s') = coap_server_dispatch_inner C P s request msg_size
      in if r < 0 then (r, s') else resource_send P s' resource response addr)"

definition hello_resource :: coap_resource where
  "hello_resource = \<lparr>get_method = Some App_request, put_method = None, post_method = None,
                     path = hello_path\<rparr>"

definition led_resource :: coap_resource where
  "led_resource = \<lparr>get_method = Some App_request, put_method = Some App_request,
                   post_method = None, path = led_path\<rparr>"

subsection \<open>Start-up\<close>

definition PSK_TAG :: nat where "PSK_TAG = 1"
definition psk_key :: "u8 list" where "psk_key = bytes ''zbook-dtls-psk!!''"
definition psk_id :: "u8 list" where "psk_id = bytes ''zbook'' @ [0]"

text \<open>The service: its host, its port, whether it is autostarted, and its security tags.\<close>

record coap_service =
  svc_host :: string
  svc_port :: u16
  svc_autostart :: bool
  svc_sec_tags :: "nat list"

definition coap_server :: "bool \<Rightarrow> coap_service" where
  "coap_server dtls = \<lparr>svc_host = ''0.0.0.0'', svc_port = coap_port dtls, svc_autostart = (\<not> dtls),
     svc_sec_tags = (if dtls then [PSK_TAG] else [])\<rparr>"

definition coap_server_start :: "bool \<Rightarrow> ('w, 'm, 'a) platform \<Rightarrow> 'w \<Rightarrow> int \<times> 'w" where
  "coap_server_start dtls P w =
     (if \<not> dtls then (0, w)
      else let (err, w1) = tls_credential_add P w PSK_TAG TLS_CREDENTIAL_PSK psk_key
           in if err \<noteq> 0 then (err, w1)
              else let (err, w2) = tls_credential_add P w1 PSK_TAG TLS_CREDENTIAL_PSK_ID
                                     (take (length psk_id - 1) psk_id)
                   in if err \<noteq> 0 then (err, w2) else coap_service_start P w2)"

subsection \<open>Abstract specification\<close>

text \<open>
  What the server promises, over messages: \<open>hello\<close> answers GET, \<open>led\<close> answers GET with the LED
  state and PUT by setting it, everything else is 4.04. A PUT payload is read by its prefix.
\<close>

definition onoff_spec :: "u8 list \<Rightarrow> bool option" where
  "onoff_spec bs =
     (if prefix (bytes ''1'') bs \<or> prefix (bytes ''on'') bs then Some True
      else if prefix (bytes ''0'') bs \<or> prefix (bytes ''off'') bs then Some False
      else None)"

definition led_text :: "bool \<Rightarrow> u8 list" where
  "led_text b = bytes (if b then ''1'' else ''0'')"

definition server_spec :: "bool \<Rightarrow> coap_msg \<Rightarrow> coap_msg \<times> bool" where
  "server_spec led q =
     (if m_path q = [''hello''] \<and> m_code q = COAP_METHOD_GET
      then (ack q COAP_RESPONSE_CODE_CONTENT (Some hello_payload), led)
      else if m_path q = [''led''] \<and> m_code q = COAP_METHOD_GET
      then (ack q COAP_RESPONSE_CODE_CONTENT (Some (led_text led)), led)
      else if m_path q = [''led''] \<and> m_code q = COAP_METHOD_PUT
      then (case Option.bind (m_payload q) onoff_spec of
              None \<Rightarrow> (ack q COAP_RESPONSE_CODE_BAD_REQUEST None, led)
            | Some b \<Rightarrow> (ack q COAP_RESPONSE_CODE_CHANGED None, b))
      else (ack q COAP_RESPONSE_CODE_NOT_FOUND None, led))"

text \<open>
  The specification for any request. A request whose Uri-Path options cannot be read names no
  resource: it is answered 4.04 and the LED stays as it is.
\<close>

definition server_answer :: "bool \<Rightarrow> bool \<Rightarrow> coap_msg \<Rightarrow> coap_msg \<times> bool" where
  "server_answer readable led q =
     (if readable then server_spec led q else (ack q COAP_RESPONSE_CODE_NOT_FOUND None, led))"

subsection \<open>The on/off parser\<close>

lemma prefix_iff_take: "prefix xs ys \<longleftrightarrow> length xs \<le> length ys \<and> take (length xs) ys = xs"
  by (metis append_take_drop_id prefix_def prefix_length_le append_eq_conv_conj)

lemma strncmp_literal:
  "\<lbrakk> 0 \<notin> set xs; n = length xs \<rbrakk> \<Longrightarrow>
   n \<le> length bs \<and> strncmp bs (xs @ [0]) n = 0 \<longleftrightarrow> prefix xs bs"
  using strncmp_eq_take [of n bs "xs @ [0]"] by (auto simp: prefix_iff_take)

lemma word_le_of_nat_u16:
  "\<lbrakk> n < 65536; m < 65536 \<rbrakk> \<Longrightarrow> (of_nat n :: u16) \<le> of_nat m \<longleftrightarrow> n \<le> m"
  by (simp add: word_le_nat_alt unat_of_nat)

lemma parse_onoff_onoff:
  assumes "length bs < 65536"
  shows "parse_onoff bs (of_nat (length bs)) =
         (case onoff_spec bs of None \<Rightarrow> -1 | Some True \<Rightarrow> 1 | Some False \<Rightarrow> 0)"
proof -
  have len: "(1::u16) \<le> of_nat (length bs) \<longleftrightarrow> 1 \<le> length bs"
    "(2::u16) \<le> of_nat (length bs) \<longleftrightarrow> 2 \<le> length bs"
    "(3::u16) \<le> of_nat (length bs) \<longleftrightarrow> 3 \<le> length bs"
    using word_le_of_nat_u16 [of 1 "length bs"] word_le_of_nat_u16 [of 2 "length bs"]
      word_le_of_nat_u16 [of 3 "length bs"] assms by simp_all
  have on: "2 \<le> length bs \<and> strncmp bs (bytes ''on'' @ [0]) 2 = 0 \<longleftrightarrow> prefix (bytes ''on'') bs"
    by (rule strncmp_literal) auto
  have off: "3 \<le> length bs \<and> strncmp bs (bytes ''off'' @ [0]) 3 = 0 \<longleftrightarrow> prefix (bytes ''off'') bs"
    by (rule strncmp_literal) auto
  have one: "1 \<le> length bs \<and> bs ! 0 = 0x31 \<longleftrightarrow> prefix (bytes ''1'') bs"
    and zero: "1 \<le> length bs \<and> bs ! 0 = 0x30 \<longleftrightarrow> prefix (bytes ''0'') bs"
    by (cases bs; auto)+
  have "\<not> (prefix (bytes ''0'') bs \<and> prefix (bytes ''on'') bs)"
    by (cases bs) auto
  then show ?thesis
    unfolding parse_onoff_def len on off one zero onoff_spec_def by auto
qed

subsection \<open>Response builders meet their contract\<close>

text \<open>
  The contract of a response builder, as coap_server.c states it ("fills response without
  transmitting it"): a successful result is an ACK with the given ID and token and one of the
  builder's codes, nothing is transmitted, and the builder fails only for lack of space.
\<close>

definition reply_to :: "coap_msg \<Rightarrow> u8 \<Rightarrow> u8 list \<Rightarrow> u16 \<Rightarrow> bool" where
  "reply_to m tkl tok mid \<longleftrightarrow>
     m_type m = COAP_TYPE_ACK \<and> m_id m = mid \<and> m_token m = take (unat tkl) tok"

definition token_ok :: "u8 \<Rightarrow> u8 list \<Rightarrow> bool" where
  "token_ok tkl tok \<longleftrightarrow> unat tkl \<le> COAP_TOKEN_MAX_LEN \<and> unat tkl \<le> length tok"

text \<open>A packet in a buffer of \<open>cap\<close> bytes: it knows the buffer's size and its end is not past it.\<close>

definition within :: "u16 \<Rightarrow> 'm coap_packet_scheme \<Rightarrow> bool" where
  "within cap p \<longleftrightarrow> max_len p = cap \<and> unat (offset p) \<le> unat cap"

locale response_builder =
  fixes build :: "('m, 'o) coap_lib \<Rightarrow> ('w, 'm, 'a, 'z) server_state_scheme \<Rightarrow>
      'm coap_packet_scheme \<Rightarrow> u16 \<Rightarrow> u8 \<Rightarrow> u8 list \<Rightarrow> u16 \<Rightarrow>
      int \<times> 'm coap_packet_scheme \<times> ('w, 'm, 'a, 'z) server_state_scheme"
    and codes :: "u8 set"
    and body_max :: nat
  assumes replies: "coap_laws C V W \<Longrightarrow> token_ok tkl tok \<Longrightarrow>
      build C s req n tkl tok mid = (r, p, s') \<Longrightarrow> 0 \<le> r \<Longrightarrow>
      reply_to (V p) tkl tok mid \<and> m_code (V p) \<in> codes"
    and silent: "build C s req n tkl tok mid = (r, p, s') \<Longrightarrow> sent s' = sent s"
    and fits: "space_laws C \<Longrightarrow> token_ok tkl tok \<Longrightarrow> 12 + body_max \<le> unat n \<Longrightarrow>
      build C s req n tkl tok mid = (r, p, s') \<Longrightarrow> 0 \<le> r"
    and in_buffer: "space_laws C \<Longrightarrow> token_ok tkl tok \<Longrightarrow>
      build C s req n tkl tok mid = (r, p, s') \<Longrightarrow> 0 \<le> r \<Longrightarrow> within n p"

text \<open>
  Building a packet with a payload, the part the two GET builders and the EDHOC reply share: the
  first \<open>k\<close> bytes of a buffer, or all of a literal.
\<close>

definition build_part ::
  "('m, 'o) coap_lib \<Rightarrow> u8 \<Rightarrow> u8 list \<Rightarrow> u16 \<Rightarrow> u16 \<Rightarrow> u8 \<Rightarrow> u8 list \<Rightarrow> u16 \<Rightarrow> int \<times> 'm coap_packet_scheme" where
  "build_part C code body k buf_len tkl token mid =
     chk (coap_packet_init C buf_len COAP_VERSION_1 COAP_TYPE_ACK tkl token code mid) (\<lambda>p.
     chk (coap_packet_append_payload_marker C p) (\<lambda>p.
     coap_packet_append_payload C p body k))"

abbreviation build_body ::
  "('m, 'o) coap_lib \<Rightarrow> u8 \<Rightarrow> u8 list \<Rightarrow> u16 \<Rightarrow> u8 \<Rightarrow> u8 list \<Rightarrow> u16 \<Rightarrow> int \<times> 'm coap_packet_scheme" where
  "build_body C code body \<equiv> build_part C code body (of_nat (length body))"

lemma build_hello_body: "build_hello C = build_body C COAP_RESPONSE_CODE_CONTENT hello_payload"
  by (intro ext) (simp add: build_hello_def build_part_def)

lemma build_led_get_body:
  "build_led_get C led = build_body C COAP_RESPONSE_CODE_CONTENT (led_text led)"
  by (intro ext) (simp add: build_led_get_def build_part_def led_text_def)

lemma build_part_view:
  assumes "coap_laws C V W" and "token_ok tkl tok" and "unat k \<le> length body"
    and "build_part C code body k n tkl tok mid = (r, p)" and "0 \<le> r"
  shows "V p = \<lparr>m_type = COAP_TYPE_ACK, m_code = code, m_id = mid, m_token = take (unat tkl) tok,
                m_path = [], m_payload = Some (take (unat k) body)\<rparr>"
proof -
  obtain r1 p1 where 1: "coap_packet_init C n COAP_VERSION_1 COAP_TYPE_ACK tkl tok code mid = (r1, p1)"
    by fastforce
  obtain r2 p2 where 2: "coap_packet_append_payload_marker C p1 = (r2, p2)"
    by fastforce
  from assms(4,5) 1 2 have ok: "0 \<le> r1" "0 \<le> r2"
    and 3: "coap_packet_append_payload C p2 body k = (r, p)"
    by (auto simp: build_part_def chk_def split: if_splits)
  from coap_laws_init [OF assms(1) 1 ok(1)] assms(2)
  have v1: "V p1 = \<lparr>m_type = COAP_TYPE_ACK, m_code = code, m_id = mid, m_token = take (unat tkl) tok,
                    m_path = [], m_payload = None\<rparr>"
    by (simp add: token_ok_def)
  with coap_laws_marker [OF assms(1) 2 ok(2)] have v2: "V p2 = (V p1)\<lparr>m_payload := Some []\<rparr>"
    by simp
  with coap_laws_append [OF assms(1) 3 assms(5,3)] unat_u16_lt [of k] v1 show ?thesis
    by simp
qed

lemma build_part_fits_iff:
  assumes "space_laws C" and "token_ok tkl tok" and "build_part C code body k n tkl tok mid = (r, p)"
  shows "0 \<le> r \<longleftrightarrow> 5 + unat tkl + unat k \<le> unat n"
proof -
  obtain r1 p1 where 1: "coap_packet_init C n COAP_VERSION_1 COAP_TYPE_ACK tkl tok code mid = (r1, p1)"
    by fastforce
  obtain r2 p2 where 2: "coap_packet_append_payload_marker C p1 = (r2, p2)"
    by fastforce
  obtain r3 p3 where 3: "coap_packet_append_payload C p2 body k = (r3, p3)"
    by fastforce
  have tkl: "unat tkl \<le> COAP_TOKEN_MAX_LEN" using assms(2) by (simp add: token_ok_def)
  note s1 = space_init [OF assms(1) tkl 1]
  note s2 = space_marker [OF assms(1) 2]
  note s3 = space_append [OF assms(1) 3]
  have eq: "r = (if r1 < 0 then r1 else if r2 < 0 then r2 else r3)"
    using assms(3) 1 2 3 by (simp add: build_part_def chk_def split: if_splits)
  show ?thesis
    using s1 s2 s3 unfolding eq by (auto simp: not_less)
qed

lemma build_body_view:
  assumes "coap_laws C V W" and "token_ok tkl tok" and "length body < 65536"
    and "build_body C code body n tkl tok mid = (r, p)" and "0 \<le> r"
  shows "V p = \<lparr>m_type = COAP_TYPE_ACK, m_code = code, m_id = mid, m_token = take (unat tkl) tok,
                m_path = [], m_payload = Some body\<rparr>"
  using build_part_view [OF assms(1,2) _ assms(4,5)] assms(3) by (simp add: unat_of_nat_u16)

lemma build_body_fits_iff:
  assumes "space_laws C" and "token_ok tkl tok" and "length body < 65536"
    and "build_body C code body n tkl tok mid = (r, p)"
  shows "0 \<le> r \<longleftrightarrow> 5 + unat tkl + length body \<le> unat n"
  using build_part_fits_iff [OF assms(1,2,4)] assms(3) by (simp add: unat_of_nat_u16)

lemma init_fits:
  assumes "space_laws C" and "token_ok tkl tok"
    and "coap_packet_init C n COAP_VERSION_1 COAP_TYPE_ACK tkl tok code mid = (r, p)"
  shows "0 \<le> r \<longleftrightarrow> 4 + unat tkl \<le> unat n"
  using space_init(1) [OF assms(1) _ assms(3)] assms(2) by (auto simp: token_ok_def)

text \<open>Each packet operation that succeeds stays within the buffer.\<close>

lemma init_within:
  "\<lbrakk> space_laws C; token_ok tkl tok;
     coap_packet_init C n COAP_VERSION_1 COAP_TYPE_ACK tkl tok code mid = (r, p); 0 \<le> r \<rbrakk> \<Longrightarrow> within n p"
  using space_init [of C tkl n tok code mid r p] by (auto simp: within_def token_ok_def)

lemma marker_within:
  "\<lbrakk> space_laws C; within n p; coap_packet_append_payload_marker C p = (r, p'); 0 \<le> r \<rbrakk> \<Longrightarrow> within n p'"
  using space_marker [of C p r p'] by (auto simp: within_def)

lemma append_within:
  "\<lbrakk> space_laws C; within n p; coap_packet_append_payload C p bs k = (r, p'); 0 \<le> r \<rbrakk> \<Longrightarrow> within n p'"
  using space_append [of C p bs k r p'] by (auto simp: within_def)

lemma build_part_within:
  assumes "space_laws C" and "token_ok tkl tok" and "build_part C code body k n tkl tok mid = (r, p)" and "0 \<le> r"
  shows "within n p"
proof -
  obtain r1 p1 where 1: "coap_packet_init C n COAP_VERSION_1 COAP_TYPE_ACK tkl tok code mid = (r1, p1)"
    by fastforce
  obtain r2 p2 where 2: "coap_packet_append_payload_marker C p1 = (r2, p2)" by fastforce
  from assms(3,4) 1 2 have "0 \<le> r1" "0 \<le> r2" and 3: "coap_packet_append_payload C p2 body k = (r, p)"
    by (auto simp: build_part_def chk_def split: if_splits)
  then have "within n p2" using init_within [OF assms(1,2) 1] marker_within [OF assms(1) _ 2] by blast
  from append_within [OF assms(1) this 3 assms(4)] show ?thesis .
qed

lemma length_hello [simp]: "length hello_payload = 30"
  by (simp add: hello_payload_def)

lemma length_led_text [simp]: "length (led_text b) = 1"
  by (simp add: led_text_def)

lemma token_okD: "token_ok tkl tok \<Longrightarrow> unat tkl \<le> 8"
  by (simp add: token_ok_def COAP_TOKEN_MAX_LEN_def)

lemma led_put_value_range: "led_put_value C req = -1 \<or> led_put_value C req = 0 \<or> led_put_value C req = 1"
  by (auto simp: led_put_value_def parse_onoff_def split: prod.splits option.splits)

definition set_led ::
  "('w, 'm, 'a) platform \<Rightarrow> bool \<Rightarrow> ('w, 'm, 'a, 'z) server_state_scheme \<Rightarrow>
   ('w, 'm, 'a, 'z) server_state_scheme" where
  "set_led P b s = s\<lparr>world := snd (gpio_pin_set_dt P (world s) (of_bool b)), led_state := b\<rparr>"

lemma build_led_putD:
  assumes "build_led_put C P s req n tkl tok mid = (r, p, s')"
  shows "if led_put_value C req < 0
         then coap_packet_init C n COAP_VERSION_1 COAP_TYPE_ACK tkl tok
                COAP_RESPONSE_CODE_BAD_REQUEST mid = (r, p) \<and> s' = s
         else coap_packet_init C n COAP_VERSION_1 COAP_TYPE_ACK tkl tok
                COAP_RESPONSE_CODE_CHANGED mid = (r, p) \<and> s' = set_led P (led_put_value C req \<noteq> 0) s"
  using assms led_put_value_range [of C req]
  by (auto simp: build_led_put_def set_led_def split: prod.splits)

interpretation hello_b: response_builder
  "\<lambda>C s req n tkl tok mid. let (r, p) = build_hello C n tkl tok mid in (r, p, s)"
  "{COAP_RESPONSE_CODE_CONTENT}" 31
proof (unfold_locales, goal_cases)
  case (1 C V W tkl tok s req n mid r p s')
  then have "build_body C COAP_RESPONSE_CODE_CONTENT hello_payload n tkl tok mid = (r, p)"
    by (simp add: build_hello_body split: prod.splits)
  from build_body_view [OF 1(1,2) _ this 1(4)] show ?case
    by (simp add: reply_to_def)
next
  case (3 C tkl tok n s req mid r p s')
  then have "build_body C COAP_RESPONSE_CODE_CONTENT hello_payload n tkl tok mid = (r, p)"
    by (simp add: build_hello_body split: prod.splits)
  with 3 token_okD show ?case
    using build_body_fits_iff [of C tkl tok hello_payload] by fastforce
next
  case (4 C tkl tok s req n mid r p s')
  then show ?case by (auto simp: build_hello_body intro: build_part_within split: prod.splits)
qed (auto split: prod.splits)

interpretation led_get_b: response_builder
  "\<lambda>C s req n tkl tok mid. let (r, p) = build_led_get C (led_state s) n tkl tok mid in (r, p, s)"
  "{COAP_RESPONSE_CODE_CONTENT}" 2
proof (unfold_locales, goal_cases)
  case (1 C V W tkl tok s req n mid r p s')
  then have "build_body C COAP_RESPONSE_CODE_CONTENT (led_text (led_state s)) n tkl tok mid = (r, p)"
    by (simp add: build_led_get_body split: prod.splits)
  from build_body_view [OF 1(1,2) _ this 1(4)] show ?case
    by (simp add: reply_to_def)
next
  case (3 C tkl tok n s req mid r p s')
  then have "build_body C COAP_RESPONSE_CODE_CONTENT (led_text (led_state s)) n tkl tok mid = (r, p)"
    by (simp add: build_led_get_body split: prod.splits)
  with 3 token_okD show ?case
    using build_body_fits_iff [of C tkl tok "led_text (led_state s)"] by fastforce
next
  case (4 C tkl tok s req n mid r p s')
  then show ?case by (auto simp: build_led_get_body intro: build_part_within split: prod.splits)
qed (auto split: prod.splits)

interpretation led_put_b: response_builder
  "\<lambda>C. build_led_put C P" "{COAP_RESPONSE_CODE_CHANGED, COAP_RESPONSE_CODE_BAD_REQUEST}" 0 for P
proof (unfold_locales, goal_cases)
  case (1 C V W tkl tok s req n mid r p s')
  from build_led_putD [OF 1(3)] 1 show ?case
    by (auto simp: reply_to_def token_ok_def dest: coap_laws_init split: if_splits)
next
  case (2 C s req n tkl tok mid r p s')
  from build_led_putD [OF 2] show ?case
    by (auto simp: set_led_def split: if_splits)
next
  case (3 C tkl tok n s req mid r p s')
  from 3(2) have "unat tkl \<le> 8" by (rule token_okD)
  with build_led_putD [OF 3(4)] 3 show ?case
    by (auto simp: init_fits split: if_splits)
next
  case (4 C tkl tok s req n mid r p s')
  from build_led_putD [OF 4(3)] 4 show ?case by (auto intro: init_within split: if_splits)
qed

interpretation not_found_b: response_builder
  "\<lambda>C s req n tkl tok mid. let (r, p) = coap_packet_init C n COAP_VERSION_1 COAP_TYPE_ACK tkl tok
     COAP_RESPONSE_CODE_NOT_FOUND mid in (r, p, s)"
  "{COAP_RESPONSE_CODE_NOT_FOUND}" 0
proof (unfold_locales, goal_cases)
  case (1 C V W tkl tok s req n mid r p s')
  then show ?case
    by (auto simp: reply_to_def token_ok_def dest: coap_laws_init split: prod.splits)
next
  case (3 C tkl tok n s req mid r p s')
  from 3(2) have "unat tkl \<le> 8" by (rule token_okD)
  with 3 show ?case by (auto simp: init_fits split: prod.splits)
next
  case (4 C tkl tok s req n mid r p s')
  then show ?case by (auto intro: init_within split: prod.splits)
qed (auto split: prod.splits)

subsection \<open>Dispatch implements the specification\<close>

definition uri_ok :: "('m, 'o) coap_lib \<Rightarrow> 'm coap_packet_scheme \<Rightarrow> bool" where
  "uri_ok C req \<longleftrightarrow> 0 \<le> fst (coap_find_options C req COAP_OPTION_URI_PATH 2)"

lemma plain_paths [simp]: "plain_path hello_path" "plain_path led_path"
  by (auto simp: plain_path_def hello_path_def led_path_def)

lemma length_paths [simp]: "length hello_path = 1" "length led_path = 1"
  by (simp_all add: hello_path_def led_path_def)

text \<open>
  With two options read, the tests of the dispatcher compare the request's whole path. If the
  options cannot be parsed, no resource matches.
\<close>

lemma dispatch_branches:
  assumes "coap_laws C V W" and tok: "coap_header_get_token C req = (tkl, tok)"
  shows "coap_server_dispatch_inner C P s req n =
    (if uri_ok C req \<and> m_path (V req) = [''hello''] \<and> m_code (V req) = COAP_METHOD_GET
     then (let (r, p) = build_hello C n tkl tok (m_id (V req)) in (r, p, s))
     else if uri_ok C req \<and> m_path (V req) = [''led''] \<and> m_code (V req) = COAP_METHOD_GET
     then (let (r, p) = build_led_get C (led_state s) n tkl tok (m_id (V req)) in (r, p, s))
     else if uri_ok C req \<and> m_path (V req) = [''led''] \<and> m_code (V req) = COAP_METHOD_PUT
     then build_led_put C P s req n tkl tok (m_id (V req))
     else (let (r, p) = coap_packet_init C n COAP_VERSION_1 COAP_TYPE_ACK tkl tok
                          COAP_RESPONSE_CODE_NOT_FOUND (m_id (V req)) in (r, p, s)))"
proof -
  obtain k os where k: "coap_find_options C req COAP_OPTION_URI_PATH 2 = (k, os)"
    by fastforce
  note match = path_match_whole [OF assms(1) k]
  define k0 where "k0 = (if k < 0 then 0 else k)"
  have m: "coap_uri_path_match C hello_path os k0 \<longleftrightarrow> uri_ok C req \<and> m_path (V req) = [''hello'']"
    "coap_uri_path_match C led_path os k0 \<longleftrightarrow> uri_ok C req \<and> m_path (V req) = [''led'']"
    using match [OF plain_paths(1)] match [OF plain_paths(2)] k
    by (simp_all add: uri_ok_def k0_def) (simp_all add: hello_path_def led_path_def)
  show ?thesis
    by (simp add: coap_server_dispatch_inner_def coap_laws_header [OF assms(1)] k tok Let_def
        k0_def [symmetric] m conj_ac cong: if_cong split del: if_split)
qed

lemma led_put_value_spec:
  assumes "coap_laws C V W"
  shows "led_put_value C req =
    (case Option.bind (m_payload (V req)) onoff_spec of None \<Rightarrow> -1 | Some True \<Rightarrow> 1 | Some False \<Rightarrow> 0)"
proof (cases "m_payload (V req)")
  case None
  then show ?thesis by (simp add: led_put_value_def coap_laws_payload [OF assms])
next
  case (Some bs)
  moreover have "onoff_spec [] = None" by (simp add: onoff_spec_def)
  moreover have "length bs < 65536" using coap_laws_payload(2) [OF assms Some] .
  ultimately show ?thesis
    by (simp add: led_put_value_def coap_laws_payload [OF assms] parse_onoff_onoff)
qed

lemma dispatch_spec:
  assumes "coap_laws C V W" and "uri_ok C req"
    and "coap_server_dispatch_inner C P s req n = (r, p, s')" and "0 \<le> r"
  shows "(V p, led_state s') = server_spec (led_state s) (V req)"
proof -
  obtain tkl tok where tok: "coap_header_get_token C req = (tkl, tok)" by fastforce
  note t = coap_laws_token [OF assms(1) tok]
  then have tk: "token_ok tkl tok" by (simp add: token_ok_def)
  note init = coap_laws_init [OF assms(1) _ assms(4) t(1,2)]
  note body = build_body_view [OF assms(1) tk _ _ assms(4)]
  note d = dispatch_branches [OF assms(1) tok, of P s n] assms(2,3)
  consider
      (hello) "m_path (V req) = [''hello'']" "m_code (V req) = COAP_METHOD_GET"
    | (get) "m_path (V req) = [''led'']" "m_code (V req) = COAP_METHOD_GET"
    | (put) "m_path (V req) = [''led'']" "m_code (V req) = COAP_METHOD_PUT"
    | (none) "\<not> (m_path (V req) = [''hello''] \<and> m_code (V req) = COAP_METHOD_GET)"
        "\<not> (m_path (V req) = [''led''] \<and> m_code (V req) = COAP_METHOD_GET)"
        "\<not> (m_path (V req) = [''led''] \<and> m_code (V req) = COAP_METHOD_PUT)"
    by blast
  then show ?thesis
  proof cases
    case hello
    with d have b: "build_body C COAP_RESPONSE_CODE_CONTENT hello_payload n tkl tok (m_id (V req)) = (r, p)"
        and "s' = s"
      by (simp_all add: build_hello_body split: prod.splits)
    with hello body [OF _ b] t show ?thesis
      by (simp add: server_spec_def ack_def)
  next
    case get
    with d have b: "build_body C COAP_RESPONSE_CODE_CONTENT (led_text (led_state s)) n tkl tok
        (m_id (V req)) = (r, p)" and "s' = s"
      by (simp_all add: build_led_get_body split: prod.splits)
    with get body [OF _ b] t show ?thesis
      by (simp add: server_spec_def ack_def)
  next
    case put
    with d have "build_led_put C P s req n tkl tok (m_id (V req)) = (r, p, s')"
      by (simp add: coap_consts)
    from build_led_putD [OF this] put init t show ?thesis
      by (auto simp: server_spec_def ack_def led_put_value_spec [OF assms(1)] set_led_def coap_consts
          split: option.splits bool.splits if_splits)
  next
    case none
    with d have "coap_packet_init C n COAP_VERSION_1 COAP_TYPE_ACK tkl tok
        COAP_RESPONSE_CODE_NOT_FOUND (m_id (V req)) = (r, p)" "s' = s"
      by (auto split: prod.splits)
    with none init t show ?thesis
      by (auto simp: server_spec_def ack_def)
  qed
qed

text \<open>The clamp of a negative option count: no resource matches zero options.\<close>

lemma dispatch_unreadable:
  assumes "coap_laws C V W" and "\<not> uri_ok C req"
    and "coap_server_dispatch_inner C P s req n = (r, p, s')" and "0 \<le> r"
  shows "(V p, s') = (ack (V req) COAP_RESPONSE_CODE_NOT_FOUND None, s)"
proof -
  obtain tkl tok where tok: "coap_header_get_token C req = (tkl, tok)" by fastforce
  note t = coap_laws_token [OF assms(1) tok]
  from dispatch_branches [OF assms(1) tok, of P s n] assms(2,3)
  have "coap_packet_init C n COAP_VERSION_1 COAP_TYPE_ACK tkl tok COAP_RESPONSE_CODE_NOT_FOUND
      (m_id (V req)) = (r, p)" "s' = s"
    by (auto split: prod.splits)
  with coap_laws_init [OF assms(1) this(1) assms(4) t(1,2)] t show ?thesis by (simp add: ack_def)
qed

lemma dispatch_answer:
  assumes "coap_laws C V W" and "coap_server_dispatch_inner C P s req n = (r, p, s')" and "0 \<le> r"
  shows "(V p, led_state s') = server_answer (uri_ok C req) (led_state s) (V req)"
  using dispatch_spec [OF assms(1) _ assms(2,3)] dispatch_unreadable [OF assms(1) _ assms(2,3)]
  by (simp add: server_answer_def)

lemma dispatch_frame:
  assumes "coap_laws C V W" and "coap_server_dispatch_inner C P s req n = (r, p, s')"
  shows "s' = (if uri_ok C req \<and> m_path (V req) = [''led''] \<and> m_code (V req) = COAP_METHOD_PUT
               then (case Option.bind (m_payload (V req)) onoff_spec of
                       None \<Rightarrow> s | Some b \<Rightarrow> set_led P b s)
               else s)"
proof -
  obtain tkl tok where tok: "coap_header_get_token C req = (tkl, tok)" by fastforce
  note d = dispatch_branches [OF assms(1) tok, of P s n] assms(2)
  show ?thesis
  proof (cases "uri_ok C req \<and> m_path (V req) = [''led''] \<and> m_code (V req) = COAP_METHOD_PUT")
    case True
    with d have "build_led_put C P s req n tkl tok (m_id (V req)) = (r, p, s')"
      by (simp add: coap_consts)
    from build_led_putD [OF this] True show ?thesis
      by (auto simp: led_put_value_spec [OF assms(1)] split: option.splits bool.splits if_splits)
  next
    case False
    with d show ?thesis by (auto split: prod.splits if_splits)
  qed
qed

lemma dispatch_silent:
  "coap_laws C V W \<Longrightarrow> coap_server_dispatch_inner C P s req n = (r, p, s') \<Longrightarrow> sent s' = sent s"
  by (drule (1) dispatch_frame) (auto simp: set_led_def split: option.splits)

text \<open>Every dispatch ends in one of the four builders.\<close>

lemma dispatch_builder:
  assumes "coap_laws C V W" and tok: "coap_header_get_token C req = (tkl, tok)"
    and "coap_server_dispatch_inner C P s req n = (r, p, s')"
  obtains
    (hello) "(let (r, p) = build_hello C n tkl tok (m_id (V req)) in (r, p, s)) = (r, p, s')"
  | (get) "(let (r, p) = build_led_get C (led_state s) n tkl tok (m_id (V req)) in (r, p, s)) = (r, p, s')"
  | (put) "build_led_put C P s req n tkl tok (m_id (V req)) = (r, p, s')"
  | (none) "(let (r, p) = coap_packet_init C n COAP_VERSION_1 COAP_TYPE_ACK tkl tok
               COAP_RESPONSE_CODE_NOT_FOUND (m_id (V req)) in (r, p, s)) = (r, p, s')"
  using assms(3) unfolding dispatch_branches [OF assms(1) tok] by (auto split: if_splits)

lemma dispatch_fits:
  assumes "coap_laws C V W" and "space_laws C" and "43 \<le> unat n"
    and d: "coap_server_dispatch_inner C P s req n = (r, p, s')"
  shows "0 \<le> r"
proof -
  obtain tkl tok where tok: "coap_header_get_token C req = (tkl, tok)" by fastforce
  then have tk: "token_ok tkl tok"
    using coap_laws_token [OF assms(1) tok] by (simp add: token_ok_def)
  from assms(1) tok d show ?thesis
  proof (cases rule: dispatch_builder)
    case hello
    from hello_b.fits [OF assms(2) tk _ this] assms(3) show ?thesis by simp
  next
    case get
    from led_get_b.fits [OF assms(2) tk _ this] assms(3) show ?thesis by simp
  next
    case put
    from led_put_b.fits [OF assms(2) tk _ this] assms(3) show ?thesis by simp
  next
    case none
    from not_found_b.fits [OF assms(2) tk _ this] assms(3) show ?thesis by simp
  qed
qed

lemma dispatch_within:
  assumes "coap_laws C V W" and "space_laws C"
    and d: "coap_server_dispatch_inner C P s req n = (r, p, s')" and "0 \<le> r"
  shows "within n p"
proof -
  obtain tkl tok where tok: "coap_header_get_token C req = (tkl, tok)" by fastforce
  then have tk: "token_ok tkl tok"
    using coap_laws_token [OF assms(1) tok] by (simp add: token_ok_def)
  from assms(1) tok d show ?thesis
  proof (cases rule: dispatch_builder)
    case hello
    from hello_b.in_buffer [OF assms(2) tk this assms(4)] show ?thesis .
  next
    case get
    from led_get_b.in_buffer [OF assms(2) tk this assms(4)] show ?thesis .
  next
    case put
    from led_put_b.in_buffer [OF assms(2) tk this assms(4)] show ?thesis .
  next
    case none
    from not_found_b.in_buffer [OF assms(2) tk this assms(4)] show ?thesis .
  qed
qed

lemma dispatch_echo:
  assumes "coap_laws C V W" and d: "coap_server_dispatch_inner C P s req n = (r, p, s')" and "0 \<le> r"
  shows "m_type (V p) = COAP_TYPE_ACK \<and> m_id (V p) = m_id (V req) \<and> m_token (V p) = m_token (V req)"
proof -
  obtain tkl tok where tok: "coap_header_get_token C req = (tkl, tok)" by fastforce
  note t = coap_laws_token [OF assms(1) tok]
  then have tk: "token_ok tkl tok" by (simp add: token_ok_def)
  from assms(1) tok d have "reply_to (V p) tkl tok (m_id (V req))"
  proof (cases rule: dispatch_builder)
    case hello
    from hello_b.replies [OF assms(1) tk this assms(3)] show ?thesis by simp
  next
    case get
    from led_get_b.replies [OF assms(1) tk this assms(3)] show ?thesis by simp
  next
    case put
    from led_put_b.replies [OF assms(1) tk this assms(3)] show ?thesis by simp
  next
    case none
    from not_found_b.replies [OF assms(1) tk this assms(3)] show ?thesis by simp
  qed
  with t show ?thesis by (simp add: reply_to_def)
qed

text \<open>C6: a successful dispatch answers exactly as the specification says, for every request: the
  response packet carries the specified message and the LED state is the specified one. A request
  whose Uri-Path options cannot be read is answered 4.04 and changes nothing.\<close>

theorem dispatch_refines_spec:
  "\<lbrakk> coap_laws C V W; coap_server_dispatch_inner C P s req n = (r, p, s'); 0 \<le> r \<rbrakk>
   \<Longrightarrow> (V p, led_state s') = server_answer (uri_ok C req) (led_state s) (V req)"
  by (rule dispatch_answer)

text \<open>A platform whose world is the level of the LED pin.\<close>

definition ref_platform :: "(bool, 'm, 'a) platform" where
  "ref_platform = \<lparr>gpio_is_ready_dt = (\<lambda>w. True),
     gpio_pin_configure_dt = (\<lambda>w f. (0, False)),
     gpio_pin_set_dt = (\<lambda>w v. (0, v \<noteq> 0)),
     coap_resource_send = (\<lambda>w res p a. (0, w)),
     tls_credential_add = (\<lambda>w tag ty bs. (0, w)),
     coap_service_start = (\<lambda>w. (0, w))\<rparr>"

definition boot_state :: "(bool, coap_msg, unit) server_state" where
  "boot_state = \<lparr>led_state = False, world = False, sent = []\<rparr>"

text \<open>The datagrams of PUT /led with payload "1" and of GET /led, message ID 0x1234, token 0x99.\<close>

definition put_led_1 :: "coap_msg coap_packet_scheme" where
  "put_led_1 = ref_request [0x41, 0x03, 0x12, 0x34, 0x99, 0xb3, 0x6c, 0x65, 0x64, 0xff, 0x31]"

definition get_led :: "coap_msg coap_packet_scheme" where
  "get_led = ref_request [0x41, 0x01, 0x12, 0x35, 0x99, 0xb3, 0x6c, 0x65, 0x64]"

lemma view_put_led_1: "ref_view put_led_1 =
  \<lparr>m_type = 0, m_code = 3, m_id = 0x1234, m_token = [0x99], m_path = [''led''], m_payload = Some [0x31]\<rparr>"
  by (simp add: put_led_1_def ref_eval)

lemma view_get_led: "ref_view get_led =
  \<lparr>m_type = 0, m_code = 1, m_id = 0x1235, m_token = [0x99], m_path = [''led''], m_payload = None\<rparr>"
  by (simp add: get_led_def ref_eval)

lemma uri_ok_ref: "uri_ok ref_lib p"
  by (simp add: uri_ok_def ref_lib_def Let_def)

lemma dispatch_put_led_1:
  "\<exists>p. coap_server_dispatch_inner ref_lib ref_platform boot_state put_led_1 64 =
       (0, p, set_led ref_platform True boot_state)"
  by (simp add: coap_server_dispatch_inner_def ref_lib_def view_put_led_1 ref_token_def hello_path_def
      led_path_def coap_consts build_led_put_def led_put_value_def ref_get_payload_def parse_onoff_def
      ref_init_def Let_def ref_head_def set_led_def boot_state_def ref_platform_def)

text \<open>
  The same library with an option search that refuses an option whose delta is the reserved value
  15, and a request for /led with such an option: b3 6c 65 64 f0.
\<close>

definition reserved_delta :: "u8 list \<Rightarrow> bool" where
  "reserved_delta bs \<longleftrightarrow> list_ex (\<lambda>b. b \<noteq> 0xff \<and> drop_bit 4 b = 15) bs"

definition strict_lib :: "(coap_msg, string) coap_lib" where
  "strict_lib = ref_lib\<lparr>coap_find_options := (\<lambda>p opt n.
     if reserved_delta (data p) then (- EINVAL, []) else coap_find_options ref_lib p opt n)\<rparr>"

definition bad_put_led :: "coap_msg coap_packet_scheme" where
  "bad_put_led = ref_request [0x41, 0x03, 0x12, 0x36, 0x99, 0xb3, 0x6c, 0x65, 0x64, 0xf0, 0xff, 0x31]"

lemma strict_coap_laws: "coap_laws strict_lib ref_view id"
proof -
  have g: "coap_packet_get_payload strict_lib = coap_packet_get_payload ref_lib" by (simp add: strict_lib_def)
  have "law_payload strict_lib ref_view"
    unfolding law_payload_def g by (rule ref_payload_law [unfolded law_payload_def])
  moreover have "law_init strict_lib ref_view" "law_append strict_lib ref_view" "law_header strict_lib ref_view"
    using ref_init_law ref_append_law ref_header_law
    by (simp_all add: law_init_def law_append_def law_header_def strict_lib_def)
  moreover have "law_path strict_lib ref_view id"
    using ref_path_law by (auto simp: law_path_def strict_lib_def EINVAL_def)
  ultimately show ?thesis by (simp add: coap_laws_def)
qed

lemma strict_space_laws: "space_laws strict_lib"
  using ref_space_laws by (simp add: space_laws_def strict_lib_def)

lemma uri_ok_strict: "uri_ok strict_lib put_led_1" "\<not> uri_ok strict_lib bad_put_led"
  by (simp_all add: uri_ok_def strict_lib_def reserved_delta_def put_led_1_def bad_put_led_def
      ref_request_def ref_parse_def EINVAL_def)
    (simp add: ref_lib_def Let_def)

lemma view_bad_put_led: "m_token (ref_view bad_put_led) = [0x99]" "m_id (ref_view bad_put_led) = 0x1236"
  by (simp_all add: bad_put_led_def ref_eval)

lemma dispatch_strict_fits: "0 \<le> fst (coap_server_dispatch_inner strict_lib P s req 64)"
  using dispatch_fits [OF strict_coap_laws strict_space_laws, of 64 P s req]
  by (cases "coap_server_dispatch_inner strict_lib P s req 64") simp

theorem dispatch_refines_spec_witness:
  "led_state (snd (snd (coap_server_dispatch_inner strict_lib ref_platform boot_state put_led_1 64))) \<and>
   \<not> led_state (snd (snd (coap_server_dispatch_inner strict_lib ref_platform boot_state bad_put_led 64))) \<and>
   m_code (ref_view (fst (snd (coap_server_dispatch_inner strict_lib ref_platform boot_state bad_put_led 64)))) = 0x84"
proof -
  have "(ref_view (fst (snd (coap_server_dispatch_inner strict_lib ref_platform boot_state q 64))),
      led_state (snd (snd (coap_server_dispatch_inner strict_lib ref_platform boot_state q 64)))) =
      server_answer (uri_ok strict_lib q) False (ref_view q)" for q
    using dispatch_refines_spec [OF strict_coap_laws, of ref_platform boot_state q 64]
      dispatch_strict_fits [of ref_platform boot_state q]
    by (cases "coap_server_dispatch_inner strict_lib ref_platform boot_state q 64") (simp add: boot_state_def)
  from this [of put_led_1] this [of bad_put_led] uri_ok_strict show ?thesis
    by (simp add: server_answer_def server_spec_def view_put_led_1 ack_def coap_consts onoff_spec_def)
qed

subsection \<open>Frame, round trip and totality\<close>

text \<open>C23: dispatching never transmits, and it changes the state only for a PUT of /led whose payload
  parses: then the GPIO is driven and \<open>led_state\<close> set to the parsed value, whether or not the
  response can be built.\<close>

theorem dispatch_state_change:
  assumes "coap_laws C V W" and "coap_server_dispatch_inner C P s req n = (r, p, s')"
  shows "s' = (if uri_ok C req \<and> m_path (V req) = [''led''] \<and> m_code (V req) = COAP_METHOD_PUT
               then (case Option.bind (m_payload (V req)) onoff_spec of
                       None \<Rightarrow> s | Some b \<Rightarrow> set_led P b s)
               else s)"
  using assms(2) by (rule dispatch_frame [OF assms(1)])

theorem dispatch_state_change_witness:
  "\<exists>r p. coap_server_dispatch_inner ref_lib ref_platform boot_state put_led_1 64 =
     (r, p, boot_state\<lparr>led_state := True, world := True\<rparr>)"
proof (cases "coap_server_dispatch_inner ref_lib ref_platform boot_state put_led_1 64")
  case (fields r p s')
  from dispatch_state_change [OF ref_coap_laws this] uri_ok_ref show ?thesis
    using fields by (simp add: view_put_led_1 onoff_spec_def set_led_def ref_platform_def
        boot_state_def coap_consts)
qed

text \<open>C24: GET /led after a PUT /led that the server accepted returns the value that was put.\<close>

theorem led_put_then_get:
  assumes "coap_laws C V W" and "uri_ok C put" and "uri_ok C get"
    and put: "m_path (V put) = [''led'']" "m_code (V put) = COAP_METHOD_PUT"
    and get: "m_path (V get) = [''led'']" "m_code (V get) = COAP_METHOD_GET"
    and 1: "coap_server_dispatch_inner C P s put n = (r1, p1, s1)" "0 \<le> r1"
    and acc: "m_code (V p1) = COAP_RESPONSE_CODE_CHANGED"
    and 2: "coap_server_dispatch_inner C P s1 get k = (r2, p2, s2)" "0 \<le> r2"
  shows "\<exists>bs b. m_payload (V put) = Some bs \<and> onoff_spec bs = Some b \<and>
           V p2 = ack (V get) COAP_RESPONSE_CODE_CONTENT (Some (led_text b))"
proof -
  have "(V p1, led_state s1) = server_spec (led_state s) (V put)"
    and "(V p2, led_state s2) = server_spec (led_state s1) (V get)"
    using dispatch_spec [OF assms(1,2) 1] dispatch_spec [OF assms(1,3) 2] by auto
  with put get acc show ?thesis
    by (auto simp: server_spec_def coap_consts ack_def bind_eq_Some_conv split: option.splits)
qed

lemma dispatch_get_led:
  "\<exists>p. coap_server_dispatch_inner ref_lib ref_platform s get_led 64 = (0, p, s)"
  by (simp add: coap_server_dispatch_inner_def ref_lib_def view_get_led ref_token_def hello_path_def
      led_path_def coap_consts build_led_get_def chk_def Let_def ref_init_def ref_head_def
      ref_marker_def ref_append_def)

theorem led_put_then_get_witness:
  "\<exists>p1 s1 p2. coap_server_dispatch_inner ref_lib ref_platform boot_state put_led_1 64 = (0, p1, s1) \<and>
     coap_server_dispatch_inner ref_lib ref_platform s1 get_led 64 = (0, p2, s1) \<and>
     m_payload (ref_view p2) = Some [0x31]"
proof -
  let ?s1 = "set_led ref_platform True boot_state"
  obtain p1 where 1: "coap_server_dispatch_inner ref_lib ref_platform boot_state put_led_1 64 = (0, p1, ?s1)"
    using dispatch_put_led_1 by blast
  obtain p2 where 2: "coap_server_dispatch_inner ref_lib ref_platform ?s1 get_led 64 = (0, p2, ?s1)"
    using dispatch_get_led by blast
  have acc: "m_code (ref_view p1) = COAP_RESPONSE_CODE_CHANGED"
    using dispatch_spec [OF ref_coap_laws uri_ok_ref 1]
    by (simp add: view_put_led_1 server_spec_def ack_def coap_consts onoff_spec_def)
  from led_put_then_get [OF ref_coap_laws uri_ok_ref uri_ok_ref _ _ _ _ 1 _ acc 2] 1 2 show ?thesis
    by (auto simp: view_put_led_1 view_get_led coap_consts ack_def led_text_def onoff_spec_def)
qed

text \<open>C22: with a message buffer of at least 43 bytes (the base build has 64), the plaintext handler
  answers every request: exactly one packet is handed to the socket, addressed to the requester,
  and it is the specified response, 4.04 when the request's Uri-Path options cannot be read.\<close>

theorem app_request_answers:
  assumes "coap_laws C V W" and "space_laws C" and "43 \<le> unat msg_size"
    and "app_request C P msg_size s res req addr = (r, s')"
  shows "\<exists>p. sent s' = sent s @ [(p, addr)] \<and>
             (V p, led_state s') = server_answer (uri_ok C req) (led_state s) (V req)"
proof -
  obtain r0 p s0 where d: "coap_server_dispatch_inner C P s req msg_size = (r0, p, s0)"
    by (cases "coap_server_dispatch_inner C P s req msg_size")
  have "0 \<le> r0" using dispatch_fits [OF assms(1-3) d] .
  with d assms(4) dispatch_answer [OF assms(1) d] dispatch_silent [OF assms(1) d] show ?thesis
    by (auto simp: app_request_def resource_send_def split: prod.splits)
qed

theorem app_request_answers_witness:
  "\<exists>r s' p. app_request strict_lib ref_platform 64 boot_state led_resource bad_put_led () = (r, s') \<and>
     sent s' = [(p, ())] \<and> m_code (ref_view p) = 0x84 \<and> m_id (ref_view p) = 0x1236 \<and> \<not> led_state s'"
proof (cases "app_request strict_lib ref_platform 64 boot_state led_resource bad_put_led ()")
  case (Pair r s')
  from app_request_answers [OF strict_coap_laws strict_space_laws _ this] Pair uri_ok_strict(2) show ?thesis
    by (auto simp: view_bad_put_led server_answer_def ack_def coap_consts boot_state_def)
qed

text \<open>A response that cannot be built is not sent: whatever the buffer size, the handler either
  transmits exactly one ACK to the requester that echoes the request's ID and token, or returns a
  negative error and transmits nothing.\<close>

lemma app_request_error_silent:
  assumes "coap_laws C V W" and "app_request C P msg_size s res req addr = (r, s')"
  shows "(r < 0 \<and> sent s' = sent s) \<or>
         (\<exists>p. sent s' = sent s @ [(p, addr)] \<and> m_type (V p) = COAP_TYPE_ACK \<and>
              m_id (V p) = m_id (V req) \<and> m_token (V p) = m_token (V req))"
proof -
  obtain r0 p s0 where d: "coap_server_dispatch_inner C P s req msg_size = (r0, p, s0)"
    by (cases "coap_server_dispatch_inner C P s req msg_size")
  with assms(2) dispatch_echo [OF assms(1) d] dispatch_silent [OF assms(1) d] show ?thesis
    by (auto simp: app_request_def resource_send_def split: prod.splits if_splits)
qed

subsection \<open>The LED state mirrors the pin\<close>

text \<open>
  The GPIO driver, when its calls succeed: setting the pin gives it the level of the argument,
  configuring it inactive gives it the low (logical) level, and sending does not move it.
\<close>

definition gpio_laws :: "('w, 'm, 'a) platform \<Rightarrow> ('w \<Rightarrow> bool) \<Rightarrow> bool" where
  "gpio_laws P lvl \<longleftrightarrow>
     (\<forall>w v. fst (gpio_pin_set_dt P w v) = 0 \<and> lvl (snd (gpio_pin_set_dt P w v)) = (v \<noteq> 0)) \<and>
     (\<forall>w. fst (gpio_pin_configure_dt P w GPIO_OUTPUT_INACTIVE) = 0 \<longrightarrow>
        \<not> lvl (snd (gpio_pin_configure_dt P w GPIO_OUTPUT_INACTIVE))) \<and>
     (\<forall>w res p a. lvl (snd (coap_resource_send P w res p a)) = lvl w)"

definition pin_mirrors :: "('w \<Rightarrow> bool) \<Rightarrow> ('w, 'm, 'a, 'z) server_state_scheme \<Rightarrow> bool" where
  "pin_mirrors lvl s \<longleftrightarrow> lvl (world s) = led_state s"

lemma dispatch_shape:
  "coap_server_dispatch_inner C P s req n = (r, p, s') \<Longrightarrow> s' = s \<or> (\<exists>b. s' = set_led P b s)"
  unfolding coap_server_dispatch_inner_def Let_def
  by (auto split: prod.splits if_splits dest!: build_led_putD)

lemma dispatch_mirrors:
  assumes "gpio_laws P lvl" and "pin_mirrors lvl s"
    and "coap_server_dispatch_inner C P s req n = (r, p, s')"
  shows "pin_mirrors lvl s'"
  using dispatch_shape [OF assms(3)] assms(1,2)
  by (auto simp: pin_mirrors_def set_led_def gpio_laws_def)

interpretation app_pin: invariant_step
  "\<lambda>s (res, req, addr). snd (app_request C P n s res req addr)"
  "\<lambda>s. gpio_laws P lvl \<longrightarrow> pin_mirrors lvl s" for C P n lvl
proof (unfold_locales, intro impI, goal_cases)
  case (1 s e)
  obtain res req addr where e: "e = (res, req, addr)" by (cases e)
  obtain r p s' where d: "coap_server_dispatch_inner C P s req n = (r, p, s')"
    by (cases "coap_server_dispatch_inner C P s req n")
  from 1 d have "pin_mirrors lvl s'" by (blast intro: dispatch_mirrors)
  moreover have "lvl (snd (coap_resource_send P (world s') res p addr)) = lvl (world s')"
    using 1(2) by (simp add: gpio_laws_def)
  ultimately show ?case
    using d by (simp add: e app_request_def resource_send_def pin_mirrors_def split_beta)
qed

lemma led_init_mirrors:
  assumes "gpio_laws P lvl" and "\<not> led_state s0" and "led_init P s0 = (0, s)"
  shows "pin_mirrors lvl s"
  using assms by (auto simp: led_init_def gpio_laws_def pin_mirrors_def ENODEV_def
      split: if_splits prod.splits) (metis fst_conv snd_conv)

end
