(* ===== verification/Cbor.thy ===== *)
theory Cbor
  imports Prelude
begin

text \<open>
  The CBOR (RFC 8949) framing of the handshake: \<open>cbor_item_len\<close> of src/edhoc_oscore.c, which finds
  the end of the connection identifier in front of message_3; \<open>cid_to_cbor\<close> of
  host_client/src/client.cpp, which writes it; \<open>kid_wire_int\<close> of scripts/edhoc_keys.py, which
  computes the integer a one-byte key identifier travels as. The reference is an encoder of
  integers and definite-length strings.
\<close>

subsection \<open>The sources' functions\<close>

definition cbor_item_len :: "u8 list \<Rightarrow> u32 \<Rightarrow> u32" where
  "cbor_item_len p len =
     (if len = 0 then 0
      else
        let major = drop_bit 5 (p ! 0);
            ai = p ! 0 AND 0x1f;
            hdr = (if ai = 24 then 2 else if ai = 25 then 3 else if ai = 26 then 5
                   else if ai = 27 then 9 else 1);
            payload =
              (if major = 2 \<or> major = 3
               then (if ai < 24 then ucast ai
                     else if ai = 24 \<and> 2 \<le> len then ucast (p ! 1)
                     else if ai = 25 \<and> 3 \<le> len then push_bit 8 (ucast (p ! 1)) OR ucast (p ! 2)
                     else 0)
               else 0)
        in hdr + payload)"

definition cid_to_cbor :: "int \<Rightarrow> u8" where
  "cid_to_cbor v = (if 0 \<le> v then of_int v else of_int (0x20 + (- v) - 1))"

definition kid_wire_int :: "u8 \<Rightarrow> int option" where
  "kid_wire_int kid =
     (let v = uint kid
      in if v \<le> 0x17 then Some v
         else if 0x20 \<le> v \<and> v \<le> 0x37 then Some (-1 - (v - 0x20))
         else None)"

subsection \<open>Reference encoder\<close>

datatype cbor = CInt int | CBytes "u8 list" | CText "u8 list"

definition be_bytes :: "nat \<Rightarrow> nat \<Rightarrow> u8 list" where
  "be_bytes k n = map (\<lambda>i. of_nat (n div 256 ^ (k - 1 - i))) [0..<k]"

definition cbor_head :: "nat \<Rightarrow> nat \<Rightarrow> u8 list" where
  "cbor_head major n =
     (if n < 24 then [of_nat (32 * major + n)]
      else if n < 2 ^ 8 then of_nat (32 * major + 24) # be_bytes 1 n
      else if n < 2 ^ 16 then of_nat (32 * major + 25) # be_bytes 2 n
      else if n < 2 ^ 32 then of_nat (32 * major + 26) # be_bytes 4 n
      else of_nat (32 * major + 27) # be_bytes 8 n)"

fun cbor_enc :: "cbor \<Rightarrow> u8 list" where
  "cbor_enc (CInt i) = (if 0 \<le> i then cbor_head 0 (nat i) else cbor_head 1 (nat (-1 - i)))"
| "cbor_enc (CBytes bs) = cbor_head 2 (length bs) @ bs"
| "cbor_enc (CText bs) = cbor_head 3 (length bs) @ bs"

text \<open>The items the framing has to skip: the integers of CBOR, and strings with a 16-bit length.\<close>

fun short_item :: "cbor \<Rightarrow> bool" where
  "short_item (CInt i) = (- (2 ^ 64) \<le> i \<and> i < 2 ^ 64)"
| "short_item (CBytes bs) = (length bs < 2 ^ 16)"
| "short_item (CText bs) = (length bs < 2 ^ 16)"

subsection \<open>Initial bytes\<close>

lemma length_be_bytes [simp]: "length (be_bytes k n) = k"
  by (simp add: be_bytes_def)

lemma unat_of_nat_u8: "n < 256 \<Longrightarrow> unat (of_nat n :: u8) = n"
  by (simp add: unat_of_nat)

lemma unat_major: "unat (drop_bit 5 (x :: u8)) = unat x div 32"
  by (simp add: drop_bit_eq_div unat_div_distrib)

lemma unat_ai: "unat ((x :: u8) AND 0x1f) = unat x mod 32"
proof -
  have "(0x1f :: u8) = mask 5" by (simp add: mask_eq_exp_minus_1)
  then have "x AND 0x1f = take_bit 5 x" by (simp only: take_bit_eq_mask)
  then show ?thesis by (simp add: take_bit_eq_mod unat_mod_distrib)
qed

lemma u8_of_unat: "unat (x :: u8) = n \<Longrightarrow> x = of_nat n"
  by auto

text \<open>The first byte of a head: major type in the top three bits, additional information below.\<close>

lemma head_fields:
  assumes "m < 8" and "a < 32"
  shows "drop_bit 5 (of_nat (32 * m + a) :: u8) = of_nat m"
    and "(of_nat (32 * m + a) :: u8) AND 0x1f = of_nat a"
proof -
  have u: "unat (of_nat (32 * m + a) :: u8) = 32 * m + a"
    using assms by (intro unat_of_nat_u8) simp
  have "unat (drop_bit 5 (of_nat (32 * m + a) :: u8)) = m"
    unfolding unat_major u using assms by simp
  then show "drop_bit 5 (of_nat (32 * m + a) :: u8) = of_nat m"
    by (rule u8_of_unat)
  have "unat ((of_nat (32 * m + a) :: u8) AND 0x1f) = a"
    unfolding unat_ai u using assms by simp
  then show "(of_nat (32 * m + a) :: u8) AND 0x1f = of_nat a"
    by (rule u8_of_unat)
qed

lemma of_nat_u8_eq: "a < 256 \<Longrightarrow> b < 256 \<Longrightarrow> (of_nat a :: u8) = of_nat b \<longleftrightarrow> a = b"
  by (metis unat_of_nat_u8)

text \<open>What \<open>cbor_item_len\<close> computes when the first byte is a head.\<close>

definition head_len :: "nat \<Rightarrow> nat" where
  "head_len a = (if a = 24 then 2 else if a = 25 then 3 else if a = 26 then 5 else if a = 27 then 9 else 1)"

lemma unat_of_nat_u32: "n < 2 ^ 32 \<Longrightarrow> unat (of_nat n :: u32) = n"
  by (simp add: unat_of_nat)

lemma cbor_item_len_head:
  assumes "m < 8" and "a < 32" and "p \<noteq> []" and "p ! 0 = of_nat (32 * m + a)"
    and "length p < 2 ^ 32"
  shows "cbor_item_len p (of_nat (length p)) = of_nat (head_len a) +
    (if m = 2 \<or> m = 3
     then (if a < 24 then of_nat a
           else if a = 24 \<and> 2 \<le> length p then ucast (p ! 1)
           else if a = 25 \<and> 3 \<le> length p then push_bit 8 (ucast (p ! 1)) OR ucast (p ! 2)
           else 0)
     else 0)"
proof -
  have len: "(of_nat (length p) :: u32) \<noteq> 0"
    "(2 :: u32) \<le> of_nat (length p) \<longleftrightarrow> 2 \<le> length p"
    "(3 :: u32) \<le> of_nat (length p) \<longleftrightarrow> 3 \<le> length p"
    using assms(3,5) unat_of_nat_u32 [OF assms(5)]
    by (auto simp: word_le_nat_alt unat_eq_zero [symmetric])
  have eq: "(of_nat m :: u8) = 2 \<longleftrightarrow> m = 2" "(of_nat m :: u8) = 3 \<longleftrightarrow> m = 3"
    "(of_nat a :: u8) = 24 \<longleftrightarrow> a = 24" "(of_nat a :: u8) = 25 \<longleftrightarrow> a = 25"
    "(of_nat a :: u8) = 26 \<longleftrightarrow> a = 26" "(of_nat a :: u8) = 27 \<longleftrightarrow> a = 27"
    "(of_nat a :: u8) < 24 \<longleftrightarrow> a < 24"
    using of_nat_u8_eq [of m 2] of_nat_u8_eq [of m 3] of_nat_u8_eq [of a 24] of_nat_u8_eq [of a 25]
      of_nat_u8_eq [of a 26] of_nat_u8_eq [of a 27] assms(1,2) unat_of_nat_u8 [of a]
    by (simp_all add: word_less_nat_alt)
  have cast: "(ucast (of_nat a :: u8) :: u32) = of_nat a"
    using assms(2) by (intro word_unat_eq_iff [THEN iffD2])
      (simp add: unsigned_ucast_eq unat_of_nat take_bit_eq_mod)
  show ?thesis
    unfolding cbor_item_len_def assms(4) head_fields [OF assms(1,2)] Let_def eq len(2,3) cast head_len_def
    using len(1) by simp
qed

lemma be_bytes_1: "be_bytes 1 n = [of_nat n]"
  by (simp add: be_bytes_def)

lemma be_bytes_2: "be_bytes 2 n = [of_nat (n div 256), of_nat n]"
  by (simp add: be_bytes_def numeral_2_eq_2 upt_rec)

lemma be16_join:
  assumes "n < 2 ^ 16"
  shows "push_bit 8 (ucast (of_nat (n div 256) :: u8)) OR ucast (of_nat n :: u8) = (of_nat n :: u32)"
proof -
  have hi: "(ucast (of_nat (n div 256) :: u8) :: u32) = of_nat (n div 256)"
    using assms by (intro word_unat_eq_iff [THEN iffD2])
      (simp add: unsigned_ucast_eq unat_of_nat take_bit_eq_mod)
  have lo: "(ucast (of_nat n :: u8) :: u32) = of_nat (n mod 256)"
    by (intro word_unat_eq_iff [THEN iffD2])
      (simp add: unsigned_ucast_eq unat_of_nat take_bit_eq_mod)
  have "push_bit 8 (of_nat (n div 256) :: u32) OR of_nat (n mod 256) =
        (of_nat (push_bit 8 (n div 256) OR (n mod 256)) :: u32)"
    by (simp add: of_nat_or_eq of_nat_push_bit)
  moreover have "push_bit 8 (drop_bit 8 n) OR take_bit 8 n = n"
    by (rule bit_eqI) (auto simp: bit_simps)
  then have "push_bit 8 (n div 256) OR (n mod 256) = n"
    by (simp add: drop_bit_eq_div take_bit_eq_mod)
  ultimately show ?thesis unfolding hi lo by simp
qed

subsection \<open>Skipping an encoded item\<close>

lemma cbor_head_cases:
  obtains (c0) "n < 24" "cbor_head m n = [of_nat (32 * m + n)]"
  | (c1) "24 \<le> n" "n < 2 ^ 8" "cbor_head m n = [of_nat (32 * m + 24), of_nat n]"
  | (c2) "2 ^ 8 \<le> n" "n < 2 ^ 16" "cbor_head m n = [of_nat (32 * m + 25), of_nat (n div 256), of_nat n]"
  | (c4) "2 ^ 16 \<le> n" "n < 2 ^ 32" "cbor_head m n = of_nat (32 * m + 26) # be_bytes 4 n"
  | (c8) "2 ^ 32 \<le> n" "cbor_head m n = of_nat (32 * m + 27) # be_bytes 8 n"
  unfolding cbor_head_def be_bytes_1 be_bytes_2
  by (cases "n < 24"; cases "n < 2 ^ 8"; cases "n < 2 ^ 16"; cases "n < 2 ^ 32") auto

lemma item_len_int:
  assumes "m < 2" and "length (cbor_head m n @ rest) < 2 ^ 32"
  shows "cbor_item_len (cbor_head m n @ rest) (of_nat (length (cbor_head m n @ rest))) =
         of_nat (length (cbor_head m n))"
proof (cases rule: cbor_head_cases [where n = n and m = m])
  case c0
  with assms cbor_item_len_head [of m n "cbor_head m n @ rest"] show ?thesis
    by (simp add: head_len_def)
next
  case c1
  with assms cbor_item_len_head [of m 24 "cbor_head m n @ rest"] show ?thesis
    by (simp add: head_len_def)
next
  case c2
  with assms cbor_item_len_head [of m 25 "cbor_head m n @ rest"] show ?thesis
    by (simp add: head_len_def)
next
  case c4
  with assms cbor_item_len_head [of m 26 "cbor_head m n @ rest"] show ?thesis
    by (simp add: head_len_def)
next
  case c8
  with assms cbor_item_len_head [of m 27 "cbor_head m n @ rest"] show ?thesis
    by (simp add: head_len_def)
qed

lemma item_len_string:
  assumes "m = 2 \<or> m = 3" and "length bs < 2 ^ 16"
    and "length (cbor_head m (length bs) @ bs @ rest) < 2 ^ 32"
  shows "cbor_item_len (cbor_head m (length bs) @ bs @ rest)
           (of_nat (length (cbor_head m (length bs) @ bs @ rest))) =
         of_nat (length (cbor_head m (length bs) @ bs))"
proof (cases rule: cbor_head_cases [where n = "length bs" and m = m])
  case c0
  with assms cbor_item_len_head [of m "length bs" "cbor_head m (length bs) @ bs @ rest"] show ?thesis
    by (auto simp: head_len_def)
next
  case c1
  moreover have "(ucast (of_nat (length bs) :: u8) :: u32) = of_nat (length bs)"
    using c1 by (intro word_unat_eq_iff [THEN iffD2])
      (simp add: unsigned_ucast_eq unat_of_nat take_bit_eq_mod)
  ultimately show ?thesis
    using assms cbor_item_len_head [of m 24 "cbor_head m (length bs) @ bs @ rest"]
    by (auto simp: head_len_def)
next
  case c2
  with assms cbor_item_len_head [of m 25 "cbor_head m (length bs) @ bs @ rest"] be16_join [of "length bs"]
  show ?thesis by (auto simp: head_len_def)
qed (use assms in auto)

lemma be16_word: "push_bit 8 (ucast a) OR ucast b = (of_nat (256 * unat a + unat b) :: u32)" for a b :: u8
proof -
  have "unat a < 256" "unat b < 256" by (rule unat_u8_lt)+
  moreover from this have "(of_nat (256 * unat a + unat b) :: u8) = b"
    by (intro word_unat_eq_iff [THEN iffD2]) (simp only: unat_of_nat, simp)
  ultimately show ?thesis
    using be16_join [of "256 * unat a + unat b"] by (simp del: of_nat_add of_nat_mult)
qed

lemma unat_ucast_u8_u32: "unat (ucast a :: u32) = unat (a :: u8)"
  using unat_u8_lt [of a] by (simp add: unsigned_ucast_eq take_bit_eq_mod)

lemma item_len_encoded:
  assumes "short_item x" and "length (cbor_enc x @ rest) < 2 ^ 32"
  shows "cbor_item_len (cbor_enc x @ rest) (of_nat (length (cbor_enc x @ rest))) =
         of_nat (length (cbor_enc x))"
proof (cases x)
  case (CInt i)
  with assms item_len_int [of 0 "nat i" rest] item_len_int [of 1 "nat (-1 - i)" rest] show ?thesis
    by (auto split: if_splits)
next
  case (CBytes bs)
  with assms item_len_string [of 2 bs rest] show ?thesis by simp
next
  case (CText bs)
  with assms item_len_string [of 3 bs rest] show ?thesis by simp
qed

text \<open>The first byte of such an item is below 0x80, so it is not the mark of message_1.\<close>

lemma cbor_head_first: "m < 4 \<Longrightarrow> \<exists>b bs. cbor_head m n = b # bs \<and> unat b < 128"
  by (rule cbor_head_cases [where n = n and m = m]) (simp_all add: unat_of_nat_u8 del: of_nat_add)

lemma cbor_enc_first: "\<exists>b bs. cbor_enc x = b # bs \<and> b \<noteq> 0xf5"
proof -
  have "m < 4 \<Longrightarrow> \<exists>b bs. cbor_head m n @ r = b # bs \<and> b \<noteq> 0xf5" for m n r
    using cbor_head_first [of m n] by auto
  from this [of 0 _ "[]"] this [of 1 _ "[]"] this [of 2] this [of 3] show ?thesis
    by (cases x) auto
qed

text \<open>On a non-empty payload the skipped length is never 0, and it does not wrap.\<close>

lemma item_len_bounds:
  assumes "len \<noteq> 0"
  shows "1 \<le> unat (cbor_item_len p len) \<and> unat (cbor_item_len p len) \<le> 65538"
proof -
  note lt = unat_u8_lt
  have be: "unat (of_nat (256 * unat a + unat b) :: u32) = 256 * unat a + unat b" for a b :: u8
    using lt [of a] lt [of b] by (intro unat_of_nat_u32) simp
  have add: "unat (h + x) = unat h + unat x" if "unat h \<le> 9" "unat x \<le> 65535" for h x :: u32
    using that by (simp add: unat_word_ariths)
  have byte: "unat (ucast a :: u32) \<le> 255" for a :: u8
    using lt [of a] by (simp add: unat_ucast_u8_u32)
  have word: "unat (of_nat (256 * unat a + unat b) :: u32) \<le> 65535" for a b :: u8
    using lt [of a] lt [of b] by (simp only: be)
  show ?thesis
    using assms byte [of "p ! 0 AND 0x1f"] byte [of "p ! 1"] word [of "p ! 1" "p ! 2"]
    unfolding cbor_item_len_def Let_def be16_word
    by (auto simp: add split: if_splits)
qed

text \<open>\<open>cbor_item_len\<close> does not measure every CBOR data item: for an array it returns the length of
  the head only, and for a string with a 32-bit length it leaves the string out.\<close>

lemma cbor_item_len_other_items:
  "cbor_item_len [0x82, 0x01, 0x02] 3 = 1 \<and> cbor_item_len [0x5a, 0, 0, 0, 2, 0xaa, 0xbb] 7 = 5"
  by (simp add: cbor_item_len_def)

subsection \<open>Identifiers that travel as one-byte integers\<close>

lemma cbor_enc_int_small:
  "-24 \<le> v \<Longrightarrow> v < 24 \<Longrightarrow> cbor_enc (CInt v) = [of_int (if 0 \<le> v then v else 31 - v)]"
  by (auto simp: cbor_head_def)

lemma cbor_enc_int_length: "length (cbor_enc (CInt v)) = 1 \<longleftrightarrow> -24 \<le> v \<and> v < 24"
  by (auto simp: cbor_head_def)

lemma small_u8: "0 \<le> v \<Longrightarrow> v < 256 \<Longrightarrow> uint (of_int v :: u8) = v"
  by (simp add: uint_word_of_int_eq take_bit_eq_mod)

text \<open>
  The byte in front of message_3 is the CBOR encoding of C_R, for every identifier in the one-byte
  range, and never 0xf5, the mark of message_1.
\<close>

lemma cid_encodes:
  "-24 \<le> v \<Longrightarrow> v < 24 \<Longrightarrow> cbor_enc (CInt v) = [cid_to_cbor v] \<and> cid_to_cbor v \<noteq> 0xf5"
proof -
  assume v: "-24 \<le> v" "v < 24"
  define x where "x = (if 0 \<le> v then v else 31 - v)"
  have "0 \<le> x" "x < 56" using v by (auto simp: x_def)
  then have "uint (of_int x :: u8) \<noteq> uint (0xf5 :: u8)" by (simp add: small_u8)
  moreover have c: "cid_to_cbor v = of_int x" by (simp add: cid_to_cbor_def x_def)
  ultimately have "cid_to_cbor v \<noteq> 0xf5" by metis
  with c cbor_enc_int_small [OF v] show ?thesis by (simp only: x_def simp_thms)
qed

text \<open>\<open>kid_wire_int\<close> is exactly decoding of a one-byte CBOR integer.\<close>

lemma wire_int_iff: "kid_wire_int k = Some i \<longleftrightarrow> cbor_enc (CInt i) = [k]"
proof
  assume k: "kid_wire_int k = Some i"
  define v where "v = uint k"
  have "0 \<le> v" by (simp add: v_def)
  with k have i: "-24 \<le> i" "i < 24" "(if 0 \<le> i then i else 31 - i) = uint k"
    unfolding kid_wire_int_def Let_def v_def [symmetric] by (auto split: if_splits)
  show "cbor_enc (CInt i) = [k]" unfolding cbor_enc_int_small [OF i(1,2)] i(3) by simp
next
  assume e: "cbor_enc (CInt i) = [k]"
  then have i: "-24 \<le> i" "i < 24" using cbor_enc_int_length [of i] by auto
  define x where "x = (if 0 \<le> i then i else 31 - i)"
  have x: "0 \<le> x" "x < 56" using i by (auto simp: x_def)
  from e i have "k = of_int x" by (simp only: cbor_enc_int_small [OF i] x_def list.inject)
  then have "uint k = x" using x by (simp add: small_u8)
  then show "kid_wire_int k = Some i"
    using i by (auto simp: kid_wire_int_def Let_def x_def)
qed

end
