(* ===== verification/Edhoc_Lib.thy ===== *)
theory Edhoc_Lib
  imports Coap_Server Cbor
begin

text \<open>
  The third-party engines src/edhoc_oscore.c drives, as it sees them: libedhoc (the EDHOC protocol,
  RFC 9528), the OSCORE half of uoscore-uedhoc (RFC 8613), and Zephyr's crypto device API for the
  SHA-256 accelerator. None of their code is in the repository, so each function the source calls
  is a field of a record and takes the outside world explicitly (random numbers, key store, heap).
  Their contexts are opaque types. Also here: the structures of libedhoc the source fills in, and
  the generated header include/edhoc_creds.h as a record.
\<close>

subsection \<open>Structures\<close>

datatype edhoc_cose_header = EDHOC_COSE_HEADER_KID | EDHOC_COSE_HEADER_OTHER int
datatype edhoc_encode_type = EDHOC_ENCODE_TYPE_INTEGER | EDHOC_ENCODE_TYPE_BYTE_STRING
datatype edhoc_method = EDHOC_METHOD_0 | EDHOC_METHOD_1 | EDHOC_METHOD_2 | EDHOC_METHOD_3
datatype edhoc_cid_type = EDHOC_CID_TYPE_ONE_BYTE_INTEGER | EDHOC_CID_TYPE_BYTE_STRING
datatype edhoc_key_type = EDHOC_KT_KEY_AGREEMENT

record edhoc_auth_cred_key_id =
  cred :: "u8 list"
  cred_len :: u32
  cred_is_cbor :: bool
  encode_type :: edhoc_encode_type
  key_id_int :: int
  key_id_bstr :: "u8 list"
  key_id_bstr_length :: u32

record edhoc_auth_creds =
  label :: edhoc_cose_header
  key_id :: edhoc_auth_cred_key_id
  priv_key_id :: "u8 list"

record edhoc_connection_id =
  cid_encode_type :: edhoc_cid_type
  int_value :: int

text \<open>
  The credential callbacks. \<open>verify\<close> returns, besides its code and the updated structure, the
  public key reference and length when it sets them.
\<close>

record 'w edhoc_credentials =
  fetch :: "'w \<Rightarrow> edhoc_auth_creds \<Rightarrow> int \<times> edhoc_auth_creds \<times> 'w"
  verify :: "edhoc_auth_creds \<Rightarrow> int \<times> edhoc_auth_creds \<times> (u8 list \<times> u32) option"

text \<open>
  The hash callback: input buffer (None for a NULL pointer) and length, output buffer and size,
  and the location of the output length (None for NULL); it returns the code, the two outputs and
  the world.
\<close>

type_synonym 'w hash_fn =
  "'w \<Rightarrow> u8 list option \<Rightarrow> u32 \<Rightarrow> u8 list option \<Rightarrow> u32 \<Rightarrow> u32 option \<Rightarrow>
   int \<times> u8 list option \<times> u32 option \<times> 'w"

record 'w edhoc_crypto =
  hash :: "'w hash_fn"

subsection \<open>libedhoc\<close>

text \<open>The exported session: the four output buffers with the identifiers' lengths.\<close>

record oscore_export =
  ex_secret :: "u8 list"
  ex_salt :: "u8 list"
  ex_sender_id :: "u8 list"
  ex_sender_id_len :: u32
  ex_recipient_id :: "u8 list"
  ex_recipient_id_len :: u32

record ('w, 'ec, 'x, 'd) libedhoc =
  EDHOC_SUCCESS :: int
  EDHOC_ERROR_INVALID_ARGUMENT :: int
  EDHOC_ERROR_CRYPTO_FAILURE :: int
  EDHOC_ERROR_CREDENTIALS_FAILURE :: int
  edhoc_cipher_suite_0_key_import :: "'w \<Rightarrow> edhoc_key_type \<Rightarrow> u8 list \<Rightarrow> u32 \<Rightarrow> int \<times> u8 list \<times> 'w"
  edhoc_cipher_suite_0_get_suite :: 'd
  edhoc_cipher_suite_0_get_keys :: 'd
  edhoc_cipher_suite_0_get_crypto :: "('w, 'x) edhoc_crypto_scheme"
  edhoc_context_init :: "'w \<Rightarrow> 'ec \<Rightarrow> int \<times> 'ec \<times> 'w"
  edhoc_context_deinit :: "'w \<Rightarrow> 'ec \<Rightarrow> int \<times> 'ec \<times> 'w"
  edhoc_set_methods :: "edhoc_method list \<Rightarrow> 'w \<Rightarrow> 'ec \<Rightarrow> int \<times> 'ec \<times> 'w"
  edhoc_set_cipher_suites :: "'d \<Rightarrow> nat \<Rightarrow> 'w \<Rightarrow> 'ec \<Rightarrow> int \<times> 'ec \<times> 'w"
  edhoc_set_connection_id :: "edhoc_connection_id \<Rightarrow> 'w \<Rightarrow> 'ec \<Rightarrow> int \<times> 'ec \<times> 'w"
  edhoc_bind_keys :: "'d \<Rightarrow> 'w \<Rightarrow> 'ec \<Rightarrow> int \<times> 'ec \<times> 'w"
  edhoc_bind_crypto :: "('w, 'x) edhoc_crypto_scheme \<Rightarrow> 'w \<Rightarrow> 'ec \<Rightarrow> int \<times> 'ec \<times> 'w"
  edhoc_bind_credentials :: "'w edhoc_credentials \<Rightarrow> 'w \<Rightarrow> 'ec \<Rightarrow> int \<times> 'ec \<times> 'w"
  edhoc_message_1_process :: "u8 list \<Rightarrow> u32 \<Rightarrow> 'w \<Rightarrow> 'ec \<Rightarrow> int \<times> 'ec \<times> 'w"
  edhoc_message_2_compose :: "u32 \<Rightarrow> 'w \<Rightarrow> 'ec \<Rightarrow> int \<times> u8 list \<times> u32 \<times> 'ec \<times> 'w"
  edhoc_message_3_process :: "u8 list \<Rightarrow> u32 \<Rightarrow> 'w \<Rightarrow> 'ec \<Rightarrow> int \<times> 'ec \<times> 'w"
  edhoc_message_4_compose :: "u32 \<Rightarrow> 'w \<Rightarrow> 'ec \<Rightarrow> int \<times> u8 list \<times> u32 \<times> 'ec \<times> 'w"
  edhoc_export_oscore_session :: "oscore_export \<Rightarrow> 'w \<Rightarrow> 'ec \<Rightarrow> int \<times> oscore_export \<times> 'ec \<times> 'w"

subsection \<open>uoscore\<close>

datatype uoscore_err = ok | not_oscore_pkt | first_request_after_reboot | other_err int

record byte_array =
  ba_len :: u32
  ba_ptr :: "u8 list option"

datatype oscore_aead = OSCORE_AES_CCM_16_64_128
datatype oscore_hkdf = OSCORE_SHA_256

record oscore_init_params =
  master_secret :: byte_array
  sender_id :: byte_array
  recipient_id :: byte_array
  id_context :: byte_array
  master_salt :: byte_array
  aead_alg :: oscore_aead
  hkdf :: oscore_hkdf
  fresh_master_secret_salt :: bool

text \<open>
  The context keeps the Sender ID by reference, so the two conversions read the caller's buffer
  behind it: its current contents are their first argument. Then come the input bytes and length,
  the capacity of the output buffer, and the context, which they update.
\<close>

record ('w, 'oc) uoscore =
  oscore_context_init :: "oscore_init_params \<Rightarrow> 'w \<Rightarrow> 'oc \<Rightarrow> uoscore_err \<times> 'oc \<times> 'w"
  oscore2coap :: "u8 list \<Rightarrow> u8 list \<Rightarrow> u32 \<Rightarrow> u32 \<Rightarrow> 'w \<Rightarrow> 'oc \<Rightarrow>
    uoscore_err \<times> u8 list \<times> u32 \<times> 'oc \<times> 'w"
  coap2oscore :: "u8 list \<Rightarrow> u8 list \<Rightarrow> u32 \<Rightarrow> u32 \<Rightarrow> 'w \<Rightarrow> 'oc \<Rightarrow>
    uoscore_err \<times> u8 list \<times> u32 \<times> 'oc \<times> 'w"

subsection \<open>The SHA-256 device\<close>

text \<open>A session is begun with the capability flags of the context and an algorithm.\<close>

datatype hash_cap = CAP_SYNC_OPS | CAP_ASYNC_OPS | CAP_SEPARATE_IO_BUFS | CAP_INPLACE_OPS
datatype hash_algo = CRYPTO_HASH_ALGO_SHA224 | CRYPTO_HASH_ALGO_SHA256 | CRYPTO_HASH_ALGO_SHA384
  | CRYPTO_HASH_ALGO_SHA512

record ('w, 'h) hash_dev =
  device_is_ready :: "'w \<Rightarrow> bool"
  hash_begin_session :: "'w \<Rightarrow> hash_cap list \<Rightarrow> hash_algo \<Rightarrow> int \<times> 'h \<times> 'w"
  hash_compute :: "'w \<Rightarrow> 'h \<Rightarrow> u8 list \<Rightarrow> u32 \<Rightarrow> u8 list \<Rightarrow> int \<times> u8 list \<times> 'w"
  hash_free_session :: "'w \<Rightarrow> 'h \<Rightarrow> int \<times> 'w"

subsection \<open>Credentials generated by scripts/edhoc_keys.py\<close>

record edhoc_creds_h =
  ED_C_R_INT :: int
  ED_KID_R :: u8
  ED_KID_I :: u8
  ED_KID_I_INT :: int
  ED_R_PRIV :: "u8 list"
  ED_CRED_R :: "u8 list"
  ED_G_I :: "u8 list"
  ED_CRED_I :: "u8 list"

definition KID_I :: u8 where "KID_I = 0x2a"
definition KID_R :: u8 where "KID_R = 0x2b"
definition C_R_INT :: int where "C_R_INT = -8"
definition C_I_INT :: int where "C_I_INT = -14"

text \<open>
  The header the script writes for the device, for the key pairs and the CBOR-encoded credentials
  its libraries produced. A kid that does not compress would be printed as \<open>None\<close>, which C does not
  accept; \<open>None\<close> here.
\<close>

definition device_header ::
  "u8 list \<Rightarrow> u8 list \<Rightarrow> u8 list \<Rightarrow> u8 list \<Rightarrow> edhoc_creds_h option" where
  "device_header dr cred_r pi cred_i =
     map_option (\<lambda>kid_i_int. \<lparr>ED_C_R_INT = C_R_INT, ED_KID_R = KID_R, ED_KID_I = KID_I,
       ED_KID_I_INT = kid_i_int, ED_R_PRIV = dr, ED_CRED_R = cred_r, ED_G_I = pi, ED_CRED_I = cred_i\<rparr>)
     (kid_wire_int KID_I)"

subsection \<open>Received identifiers\<close>

text \<open>The bytes a received key identifier denotes, and a structure whose buffer holds its length.\<close>

definition denoted_kid :: "edhoc_auth_cred_key_id \<Rightarrow> u8 list" where
  "denoted_kid k = (if encode_type k = EDHOC_ENCODE_TYPE_INTEGER then cbor_enc (CInt (key_id_int k))
                    else take (unat (key_id_bstr_length k)) (key_id_bstr k))"

definition well_formed_key_id :: "edhoc_auth_cred_key_id \<Rightarrow> bool" where
  "well_formed_key_id k \<longleftrightarrow> key_id_bstr k \<noteq> [] \<and> unat (key_id_bstr_length k) \<le> length (key_id_bstr k)"

subsection \<open>The documented laws\<close>

text \<open>
  What a libedhoc context has been configured with: the setters and binders record their argument,
  initialisation forgets everything, and processing message_1 and composing message_2 keep it.
\<close>

record ('w, 'x, 'd) edhoc_config =
  cf_methods :: "edhoc_method list option"
  cf_suites :: "('d \<times> nat) option"
  cf_cid :: "edhoc_connection_id option"
  cf_keys :: "'d option"
  cf_crypto :: "('w, 'x) edhoc_crypto_scheme option"
  cf_creds :: "'w edhoc_credentials option"

definition empty_config :: "('w, 'x, 'd) edhoc_config" where
  "empty_config = \<lparr>cf_methods = None, cf_suites = None, cf_cid = None, cf_keys = None, cf_crypto = None,
     cf_creds = None\<rparr>"

text \<open>A successful call \<open>f\<close> changes the configuration by \<open>u\<close>.\<close>

definition configures ::
  "int \<Rightarrow> ('ec \<Rightarrow> 'c) \<Rightarrow> ('w \<Rightarrow> 'ec \<Rightarrow> int \<times> 'ec \<times> 'w) \<Rightarrow> ('c \<Rightarrow> 'c) \<Rightarrow> bool" where
  "configures success cfg f u \<longleftrightarrow> (\<forall>w c c' w'. f w c = (success, c', w') \<longrightarrow> cfg c' = u (cfg c))"

definition config_laws ::
  "('w, 'ec, 'x, 'd) libedhoc \<Rightarrow> ('ec \<Rightarrow> ('w, 'x, 'd) edhoc_config) \<Rightarrow> bool" where
  "config_laws L cfg \<longleftrightarrow>
     (let conf = configures (EDHOC_SUCCESS L) cfg in
      conf (edhoc_context_init L) (\<lambda>_. empty_config) \<and>
      (\<forall>ms. conf (edhoc_set_methods L ms) (\<lambda>k. k\<lparr>cf_methods := Some ms\<rparr>)) \<and>
      (\<forall>d n. conf (edhoc_set_cipher_suites L d n) (\<lambda>k. k\<lparr>cf_suites := Some (d, n)\<rparr>)) \<and>
      (\<forall>i. conf (edhoc_set_connection_id L i) (\<lambda>k. k\<lparr>cf_cid := Some i\<rparr>)) \<and>
      (\<forall>d. conf (edhoc_bind_keys L d) (\<lambda>k. k\<lparr>cf_keys := Some d\<rparr>)) \<and>
      (\<forall>x. conf (edhoc_bind_crypto L x) (\<lambda>k. k\<lparr>cf_crypto := Some x\<rparr>)) \<and>
      (\<forall>cr. conf (edhoc_bind_credentials L cr) (\<lambda>k. k\<lparr>cf_creds := Some cr\<rparr>)) \<and>
      (\<forall>msg n. conf (edhoc_message_1_process L msg n) id) \<and>
      (\<forall>cap w c out len c' w'.
         edhoc_message_2_compose L cap w c = (EDHOC_SUCCESS L, out, len, c', w') \<longrightarrow> cfg c' = cfg c))"

text \<open>
  Authentication: when message_3 is processed successfully, the bound \<open>verify\<close> callback was given
  the identifier the peer sent (\<open>peer\<close> of the new context) and returned success.
\<close>

definition verify_law ::
  "('w, 'ec, 'x, 'd) libedhoc \<Rightarrow> ('ec \<Rightarrow> ('w, 'x, 'd) edhoc_config) \<Rightarrow>
   ('ec \<Rightarrow> edhoc_auth_creds option) \<Rightarrow> bool" where
  "verify_law L cfg peer \<longleftrightarrow>
     (\<forall>msg n w c c' w' cr. edhoc_message_3_process L msg n w c = (EDHOC_SUCCESS L, c', w') \<longrightarrow>
        cf_creds (cfg c) = Some cr \<longrightarrow>
        (\<exists>id. peer c' = Some id \<and> well_formed_key_id (key_id id) \<and>
              fst (verify cr id) = EDHOC_SUCCESS L))"

text \<open>The codes: success is zero, the errors are not.\<close>

definition code_laws :: "('w, 'ec, 'x, 'd) libedhoc \<Rightarrow> bool" where
  "code_laws L \<longleftrightarrow> EDHOC_SUCCESS L = 0 \<and> EDHOC_ERROR_INVALID_ARGUMENT L \<noteq> 0 \<and>
     EDHOC_ERROR_CRYPTO_FAILURE L \<noteq> 0 \<and> EDHOC_ERROR_CREDENTIALS_FAILURE L \<noteq> 0"

text \<open>A composed message lies within the capacity and within the returned bytes.\<close>

definition compose_laws :: "('w, 'ec, 'x, 'd) libedhoc \<Rightarrow> bool" where
  "compose_laws L \<longleftrightarrow>
     (\<forall>cap w c out len c' w'.
        (edhoc_message_2_compose L cap w c = (EDHOC_SUCCESS L, out, len, c', w') \<or>
         edhoc_message_4_compose L cap w c = (EDHOC_SUCCESS L, out, len, c', w')) \<longrightarrow>
        len \<le> cap \<and> unat len \<le> length out)"

text \<open>OSCORE output lies within the capacity and within the returned bytes.\<close>

definition oscore_size_laws :: "('w, 'oc) uoscore \<Rightarrow> bool" where
  "oscore_size_laws U \<longleftrightarrow>
     (\<forall>sid bs n cap w c e out len c' w'.
        (oscore2coap U sid bs n cap w c = (e, out, len, c', w') \<or>
         coap2oscore U sid bs n cap w c = (e, out, len, c', w')) \<longrightarrow>
        e \<in> {ok, first_request_after_reboot} \<longrightarrow> len \<le> cap \<and> unat len \<le> length out)"

text \<open>
  Hash sessions: \<open>opens\<close> counts the sessions of the device that are open. Beginning one that
  succeeds opens it, computing neither opens nor closes, freeing closes.
\<close>

definition session_laws :: "('w, 'h) hash_dev \<Rightarrow> ('w \<Rightarrow> nat) \<Rightarrow> bool" where
  "session_laws D opens \<longleftrightarrow>
     (\<forall>w flags algo r h w'. hash_begin_session D w flags algo = (r, h, w') \<longrightarrow>
        opens w' = opens w + (if r = 0 then 1 else 0)) \<and>
     (\<forall>w h bs n out r out' w'. hash_compute D w h bs n out = (r, out', w') \<longrightarrow> opens w' = opens w) \<and>
     (\<forall>w h r w'. hash_free_session D w h = (r, w') \<longrightarrow> opens w' = opens w - 1)"

end
