(* ===== verification/Edhoc_Ref.thy ===== *)
theory Edhoc_Ref
  imports Edhoc_Lib
begin

text \<open>
  Concrete instances of the EDHOC, OSCORE and hash interfaces that satisfy their laws, for the
  witnesses. They are not models of libedhoc or uoscore, which are not in the repository: the
  protocol is reduced to its calls (message_3 is the peer's one-byte identifier, OSCORE protection is
  the identity with a sequence number), but configuration, the verify callback and the context are
  handled as the laws say, so a whole handshake runs on them.
\<close>

record 'w ref_ctx =
  rc_config :: "('w, unit, unit) edhoc_config"
  rc_peer :: "edhoc_auth_creds option"

definition ref_received :: "u8 list \<Rightarrow> edhoc_auth_creds" where
  "ref_received msg = \<lparr>label = EDHOC_COSE_HEADER_KID,
     key_id = \<lparr>cred = [], cred_len = 0, cred_is_cbor = False, encode_type = EDHOC_ENCODE_TYPE_INTEGER,
       key_id_int = 31 - uint (msg ! 0), key_id_bstr = [0], key_id_bstr_length = 0\<rparr>,
     priv_key_id = []\<rparr>"

definition ref_message_3 :: "u8 list \<Rightarrow> u32 \<Rightarrow> 'w \<Rightarrow> 'w ref_ctx \<Rightarrow> int \<times> 'w ref_ctx \<times> 'w" where
  "ref_message_3 msg n w c =
     (case cf_creds (rc_config c) of
        None \<Rightarrow> (-100, c, w)
      | Some cr \<Rightarrow> (let r = fst (verify cr (ref_received msg))
                   in (r, c\<lparr>rc_peer := Some (ref_received msg)\<rparr>, w)))"

definition ref_set :: "(('w, unit, unit) edhoc_config \<Rightarrow> ('w, unit, unit) edhoc_config) \<Rightarrow>
    'w \<Rightarrow> 'w ref_ctx \<Rightarrow> int \<times> 'w ref_ctx \<times> 'w" where
  "ref_set u w c = (0, c\<lparr>rc_config := u (rc_config c)\<rparr>, w)"

definition ref_crypto :: "'w edhoc_crypto" where
  "ref_crypto = \<lparr>hash = (\<lambda>w i n out size len. (0, map_option (\<lambda>_. replicate 32 0) out, Some 32, w))\<rparr>"

definition ref_edhoc :: "('w, 'w ref_ctx, unit, unit) libedhoc" where
  "ref_edhoc = \<lparr>EDHOC_SUCCESS = 0, EDHOC_ERROR_INVALID_ARGUMENT = -102,
     EDHOC_ERROR_CRYPTO_FAILURE = -103, EDHOC_ERROR_CREDENTIALS_FAILURE = -104,
     edhoc_cipher_suite_0_key_import = (\<lambda>w t k n. (0, take 4 k, w)),
     edhoc_cipher_suite_0_get_suite = (), edhoc_cipher_suite_0_get_keys = (),
     edhoc_cipher_suite_0_get_crypto = ref_crypto,
     edhoc_context_init = ref_set (\<lambda>_. empty_config),
     edhoc_context_deinit = ref_set (\<lambda>_. empty_config),
     edhoc_set_methods = (\<lambda>ms. ref_set (\<lambda>k. k\<lparr>cf_methods := Some ms\<rparr>)),
     edhoc_set_cipher_suites = (\<lambda>d n. ref_set (\<lambda>k. k\<lparr>cf_suites := Some (d, n)\<rparr>)),
     edhoc_set_connection_id = (\<lambda>i. ref_set (\<lambda>k. k\<lparr>cf_cid := Some i\<rparr>)),
     edhoc_bind_keys = (\<lambda>d. ref_set (\<lambda>k. k\<lparr>cf_keys := Some d\<rparr>)),
     edhoc_bind_crypto = (\<lambda>x. ref_set (\<lambda>k. k\<lparr>cf_crypto := Some x\<rparr>)),
     edhoc_bind_credentials = (\<lambda>cr. ref_set (\<lambda>k. k\<lparr>cf_creds := Some cr\<rparr>)),
     edhoc_message_1_process = (\<lambda>msg n w c. (if n = 0 then -100 else 0, c, w)),
     edhoc_message_2_compose = (\<lambda>cap w c. (0, take (unat cap) [0x41, 0x00], min cap 2, c, w)),
     edhoc_message_3_process = ref_message_3,
     edhoc_message_4_compose = (\<lambda>cap w c. (0, take (unat cap) [0x40], min cap 1, c, w)),
     edhoc_export_oscore_session = (\<lambda>x w c. (0, \<lparr>ex_secret = replicate 16 7, ex_salt = replicate 8 9,
       ex_sender_id = 0x2d # replicate 7 0, ex_sender_id_len = 1,
       ex_recipient_id = 0x27 # replicate 7 0, ex_recipient_id_len = 1\<rparr>, c, w))\<rparr>"

abbreviation board_edhoc :: "(bool, bool ref_ctx, unit, unit) libedhoc" where
  "board_edhoc \<equiv> ref_edhoc"

definition ref_oscore :: "('w, nat) uoscore" where
  "ref_oscore = \<lparr>oscore_context_init = (\<lambda>params w c. (ok, 0, w)),
     oscore2coap = (\<lambda>sid bs n cap w c.
       if n \<le> cap \<and> unat n \<le> length bs then (ok, take (unat n) bs, n, c + 1, w)
       else (other_err 1, [], 0, c, w)),
     coap2oscore = (\<lambda>sid bs n cap w c.
       if n \<le> cap \<and> unat n \<le> length bs then (ok, take (unat n) bs, n, c + 1, w)
       else (other_err 1, [], 0, c, w))\<rparr>"

text \<open>A hash device; \<open>up\<close> and \<open>down\<close> say what opening and closing a session do to the world.\<close>

definition ref_sha256 :: "('w \<Rightarrow> 'w) \<Rightarrow> ('w \<Rightarrow> 'w) \<Rightarrow> ('w, unit) hash_dev" where
  "ref_sha256 up down = \<lparr>device_is_ready = (\<lambda>w. True), hash_begin_session = (\<lambda>w flags algo. (0, (), up w)),
     hash_compute = (\<lambda>w h bs n out. (0, replicate 32 0, w)), hash_free_session = (\<lambda>w h. (0, down w))\<rparr>"

lemma ref_code_laws: "code_laws ref_edhoc"
  by (simp add: code_laws_def ref_edhoc_def)

lemma ref_config_laws: "config_laws ref_edhoc rc_config"
  by (simp add: config_laws_def configures_def ref_edhoc_def ref_set_def Let_def)

lemma ref_edhoc_sel:
  "EDHOC_SUCCESS ref_edhoc = 0" "EDHOC_ERROR_CREDENTIALS_FAILURE ref_edhoc = -104"
  "edhoc_message_3_process ref_edhoc = ref_message_3"
  by (simp_all add: ref_edhoc_def)

lemma ref_verify_law: "verify_law ref_edhoc rc_config rc_peer"
proof -
  have "well_formed_key_id (key_id (ref_received msg))" for msg
    by (simp add: ref_received_def well_formed_key_id_def)
  moreover have "c' = c\<lparr>rc_peer := Some (ref_received msg)\<rparr> \<and> fst (verify cr (ref_received msg)) = 0"
    if "ref_message_3 msg n w c = (0, c', w')" "cf_creds (rc_config c) = Some cr" for msg n w c c' w' cr
    using that by (simp add: ref_message_3_def Let_def)
  ultimately show ?thesis
    unfolding verify_law_def ref_edhoc_sel by fastforce
qed

lemma ref_compose_laws: "compose_laws ref_edhoc"
  by (auto simp: compose_laws_def ref_edhoc_def min_def word_le_nat_alt)

lemma ref_oscore_size_laws: "oscore_size_laws ref_oscore"
  by (auto simp: oscore_size_laws_def ref_oscore_def split: if_splits)

lemma ref_session_laws: "session_laws (ref_sha256 Suc (\<lambda>n. n - 1)) id"
  by (simp add: session_laws_def ref_sha256_def)

end
