(* ===== verification/Edhoc_Creds.thy ===== *)
theory Edhoc_Creds
  imports Edhoc_Ref
begin

text \<open>
  The credential callbacks of src/edhoc_oscore.c (Responder) and host_client/src/client.cpp
  (Initiator), and the SHA-256 accelerator callback. The two \<open>cred_verify\<close> functions are the same
  code on swapped credentials; their shared contract is the locale \<open>peer_verifier\<close>.
\<close>

subsection \<open>Responder callbacks\<close>

definition size_of :: "u8 list \<Rightarrow> u32" where
  "size_of xs = of_nat (length xs)"

definition cred_fetch ::
  "('w, 'ec, 'x, 'd) libedhoc \<Rightarrow> edhoc_creds_h \<Rightarrow> 'w \<Rightarrow> edhoc_auth_creds \<Rightarrow> int \<times> edhoc_auth_creds \<times> 'w" where
  "cred_fetch L K w creds =
     (let k = (key_id creds)\<lparr>cred := ED_CRED_R K, cred_len := size_of (ED_CRED_R K),
                cred_is_cbor := True, encode_type := EDHOC_ENCODE_TYPE_BYTE_STRING,
                key_id_bstr := (key_id_bstr (key_id creds))[0 := ED_KID_R K],
                key_id_bstr_length := 1\<rparr>;
          creds = creds\<lparr>label := EDHOC_COSE_HEADER_KID, key_id := k\<rparr>;
          (ret, kid, w) = edhoc_cipher_suite_0_key_import L w EDHOC_KT_KEY_AGREEMENT (ED_R_PRIV K)
                            (size_of (ED_R_PRIV K));
          creds = creds\<lparr>priv_key_id := kid\<rparr>
      in if ret \<noteq> EDHOC_SUCCESS L then (EDHOC_ERROR_CREDENTIALS_FAILURE L, creds, w)
         else (EDHOC_SUCCESS L, creds, w))"

definition cred_verify ::
  "('w, 'ec, 'x, 'd) libedhoc \<Rightarrow> edhoc_creds_h \<Rightarrow> edhoc_auth_creds \<Rightarrow>
   int \<times> edhoc_auth_creds \<times> (u8 list \<times> u32) option" where
  "cred_verify L K creds =
     (let fail = (EDHOC_ERROR_CREDENTIALS_FAILURE L, creds, None);
          k = key_id creds;
          accepted = creds\<lparr>key_id := k\<lparr>encode_type := EDHOC_ENCODE_TYPE_BYTE_STRING,
                       key_id_bstr := (key_id_bstr k)[0 := ED_KID_I K], key_id_bstr_length := 1,
                       cred := ED_CRED_I K, cred_len := size_of (ED_CRED_I K), cred_is_cbor := True\<rparr>\<rparr>;
          success = (EDHOC_SUCCESS L, accepted, Some (ED_G_I K, size_of (ED_G_I K)))
      in if label creds \<noteq> EDHOC_COSE_HEADER_KID then fail
         else if encode_type k = EDHOC_ENCODE_TYPE_INTEGER
         then (if key_id_int k \<noteq> ED_KID_I_INT K then fail else success)
         else (if key_id_bstr_length k \<noteq> 1 \<or> key_id_bstr k ! 0 \<noteq> ED_KID_I K then fail else success))"

subsection \<open>Initiator callbacks\<close>

record edhoc_creds_client_h =
  CL_C_I_INT :: int
  CL_C_R_INT :: int
  CL_KID_I :: u8
  CL_KID_R :: u8
  CL_KID_R_INT :: int
  CL_I_PRIV :: "u8 list"
  CL_CRED_I :: "u8 list"
  CL_G_R :: "u8 list"
  CL_CRED_R :: "u8 list"

definition client_header ::
  "u8 list \<Rightarrow> u8 list \<Rightarrow> u8 list \<Rightarrow> u8 list \<Rightarrow> edhoc_creds_client_h option" where
  "client_header di cred_i pr cred_r =
     map_option (\<lambda>kid_r_int. \<lparr>CL_C_I_INT = C_I_INT, CL_C_R_INT = C_R_INT, CL_KID_I = KID_I,
       CL_KID_R = KID_R, CL_KID_R_INT = kid_r_int, CL_I_PRIV = di, CL_CRED_I = cred_i, CL_G_R = pr,
       CL_CRED_R = cred_r\<rparr>)
     (kid_wire_int KID_R)"

definition client_cred_fetch ::
  "('w, 'ec, 'x, 'd) libedhoc \<Rightarrow> edhoc_creds_client_h \<Rightarrow> 'w \<Rightarrow> edhoc_auth_creds \<Rightarrow>
   int \<times> edhoc_auth_creds \<times> 'w" where
  "client_cred_fetch L K w creds =
     (let k = (key_id creds)\<lparr>cred := CL_CRED_I K, cred_len := size_of (CL_CRED_I K),
                cred_is_cbor := True, encode_type := EDHOC_ENCODE_TYPE_BYTE_STRING,
                key_id_bstr := (key_id_bstr (key_id creds))[0 := CL_KID_I K],
                key_id_bstr_length := 1\<rparr>;
          creds = creds\<lparr>label := EDHOC_COSE_HEADER_KID, key_id := k\<rparr>;
          (ret, kid, w) = edhoc_cipher_suite_0_key_import L w EDHOC_KT_KEY_AGREEMENT (CL_I_PRIV K)
                            (size_of (CL_I_PRIV K));
          creds = creds\<lparr>priv_key_id := kid\<rparr>
      in if ret \<noteq> EDHOC_SUCCESS L then (EDHOC_ERROR_CREDENTIALS_FAILURE L, creds, w)
         else (EDHOC_SUCCESS L, creds, w))"

definition client_cred_verify ::
  "('w, 'ec, 'x, 'd) libedhoc \<Rightarrow> edhoc_creds_client_h \<Rightarrow> edhoc_auth_creds \<Rightarrow>
   int \<times> edhoc_auth_creds \<times> (u8 list \<times> u32) option" where
  "client_cred_verify L K creds =
     (let fail = (EDHOC_ERROR_CREDENTIALS_FAILURE L, creds, None);
          k = key_id creds;
          accepted = creds\<lparr>key_id := k\<lparr>encode_type := EDHOC_ENCODE_TYPE_BYTE_STRING,
                       key_id_bstr := (key_id_bstr k)[0 := CL_KID_R K], key_id_bstr_length := 1,
                       cred := CL_CRED_R K, cred_len := size_of (CL_CRED_R K), cred_is_cbor := True\<rparr>\<rparr>;
          success = (EDHOC_SUCCESS L, accepted, Some (CL_G_R K, size_of (CL_G_R K)))
      in if label creds \<noteq> EDHOC_COSE_HEADER_KID then fail
         else if encode_type k = EDHOC_ENCODE_TYPE_INTEGER
         then (if key_id_int k \<noteq> CL_KID_R_INT K then fail else success)
         else (if key_id_bstr_length k \<noteq> 1 \<or> key_id_bstr k ! 0 \<noteq> CL_KID_R K then fail else success))"

subsection \<open>The accelerator\<close>

definition edhoc_hash_hw :: "('w, 'ec, 'x, 'd) libedhoc \<Rightarrow> ('w, 'h) hash_dev \<Rightarrow> 'w hash_fn" where
  "edhoc_hash_hw L D w input input_len hash_buf hash_size hash_len =
     (case (input, hash_buf, hash_len) of
        (Some inp, Some out, Some _) \<Rightarrow>
          (if input_len = 0 \<or> hash_size < 32
           then (EDHOC_ERROR_INVALID_ARGUMENT L, hash_buf, hash_len, w)
           else if \<not> device_is_ready D w then (EDHOC_ERROR_CRYPTO_FAILURE L, hash_buf, hash_len, w)
           else
             let (ret, ctx, w1) = hash_begin_session D w [CAP_SEPARATE_IO_BUFS, CAP_SYNC_OPS]
                                    CRYPTO_HASH_ALGO_SHA256
             in if ret \<noteq> 0 then (EDHOC_ERROR_CRYPTO_FAILURE L, hash_buf, hash_len, w1)
                else
                  let (ret, out', w2) = hash_compute D w1 ctx inp input_len out;
                      (_, w3) = hash_free_session D w2 ctx
                  in if ret \<noteq> 0 then (EDHOC_ERROR_CRYPTO_FAILURE L, Some out', hash_len, w3)
                     else (EDHOC_SUCCESS L, Some out', Some 32, w3))
      | _ \<Rightarrow> (EDHOC_ERROR_INVALID_ARGUMENT L, hash_buf, hash_len, w))"

subsection \<open>The contract of a peer verifier\<close>

text \<open>
  A verifier knows one peer: its key identifier, the integer that travels for it, its credential
  and its public key. It accepts exactly the structures that name this peer, and then rewrites
  them to the byte-string form the MAC is computed over; a rejected structure is left alone.
\<close>

definition names_peer :: "u8 \<Rightarrow> int \<Rightarrow> edhoc_auth_creds \<Rightarrow> bool" where
  "names_peer kid kid_int c \<longleftrightarrow> label c = EDHOC_COSE_HEADER_KID \<and>
     (if encode_type (key_id c) = EDHOC_ENCODE_TYPE_INTEGER then key_id_int (key_id c) = kid_int
      else key_id_bstr_length (key_id c) = 1 \<and> key_id_bstr (key_id c) ! 0 = kid)"

definition byte_string_form :: "u8 \<Rightarrow> u8 list \<Rightarrow> edhoc_auth_creds \<Rightarrow> edhoc_auth_creds" where
  "byte_string_form kid cr c = c\<lparr>key_id := (key_id c)\<lparr>encode_type := EDHOC_ENCODE_TYPE_BYTE_STRING,
     key_id_bstr := (key_id_bstr (key_id c))[0 := kid], key_id_bstr_length := 1,
     cred := cr, cred_len := size_of cr, cred_is_cbor := True\<rparr>\<rparr>"

locale peer_verifier =
  fixes verify :: "edhoc_auth_creds \<Rightarrow> int \<times> edhoc_auth_creds \<times> (u8 list \<times> u32) option"
    and success failure :: int and kid :: u8 and kid_int :: int and cr pub :: "u8 list"
  assumes accepts: "names_peer kid kid_int c \<Longrightarrow>
      verify c = (success, byte_string_form kid cr c, Some (pub, size_of pub))"
    and rejects: "\<not> names_peer kid kid_int c \<Longrightarrow> verify c = (failure, c, None)"
begin

lemma success_iff: "success \<noteq> failure \<Longrightarrow> fst (verify c) = success \<longleftrightarrow> names_peer kid kid_int c"
  using accepts [of c] rejects [of c] by (cases "names_peer kid kid_int c") auto

text \<open>Accepting is idempotent: the rewritten structure is accepted again, unchanged.\<close>

lemma accepted_again:
  assumes "names_peer kid kid_int c" and "key_id_bstr (key_id c) \<noteq> []"
  shows "verify (byte_string_form kid cr c) =
    (success, byte_string_form kid cr c, Some (pub, size_of pub))"
proof -
  have "names_peer kid kid_int (byte_string_form kid cr c)"
    using assms by (simp add: names_peer_def byte_string_form_def)
  moreover have "byte_string_form kid cr (byte_string_form kid cr c) = byte_string_form kid cr c"
    by (simp add: byte_string_form_def)
  ultimately show ?thesis using accepts [of "byte_string_form kid cr c"] by simp
qed

text \<open>
  When the integer is the one the identifier compresses to, both encodings of a well-formed
  structure are judged by the same thing: the bytes the identifier denotes.
\<close>

lemma names_peer_denoted:
  assumes "kid_wire_int kid = Some kid_int" and "well_formed_key_id (key_id c)"
  shows "names_peer kid kid_int c \<longleftrightarrow>
    label c = EDHOC_COSE_HEADER_KID \<and> denoted_kid (key_id c) = [kid]"
proof -
  have int: "cbor_enc (CInt i) = [kid] \<longleftrightarrow> i = kid_int" for i
    using assms(1) wire_int_iff [of kid i] by (metis option.inject)
  have "take (unat n) bs = [kid] \<longleftrightarrow> n = 1 \<and> bs ! 0 = kid"
    if "unat n \<le> length bs" for n :: u32 and bs
  proof
    assume t: "take (unat n) bs = [kid]"
    then have "unat n = 1" using that by (metis One_nat_def length_take length_Cons list.size(3) min.absorb2)
    then have "n = 1" by (simp add: word_unat_eq_iff)
    with t show "n = 1 \<and> bs ! 0 = kid" by (cases bs) auto
  qed (use that in \<open>cases bs; auto\<close>)
  with assms(2) int show ?thesis
    by (auto simp: names_peer_def denoted_kid_def well_formed_key_id_def)
qed

end

interpretation responder: peer_verifier "cred_verify L K" "EDHOC_SUCCESS L"
  "EDHOC_ERROR_CREDENTIALS_FAILURE L" "ED_KID_I K" "ED_KID_I_INT K" "ED_CRED_I K" "ED_G_I K" for L K
  by unfold_locales
    (auto simp: cred_verify_def names_peer_def byte_string_form_def Let_def split: if_splits)

interpretation initiator: peer_verifier "client_cred_verify L K" "EDHOC_SUCCESS L"
  "EDHOC_ERROR_CREDENTIALS_FAILURE L" "CL_KID_R K" "CL_KID_R_INT K" "CL_CRED_R K" "CL_G_R K" for L K
  by unfold_locales
    (auto simp: client_cred_verify_def names_peer_def byte_string_form_def Let_def split: if_splits)

lemma device_header_kid:
  "device_header dr cred_r pi cred_i = Some K \<Longrightarrow>
   kid_wire_int (ED_KID_I K) = Some (ED_KID_I_INT K) \<and> ED_KID_I K = 0x2a \<and>
   ED_CRED_I K = cred_i \<and> ED_G_I K = pi"
  by (auto simp: device_header_def KID_I_def)

lemma client_header_kid:
  "client_header di cred_i pr cred_r = Some K \<Longrightarrow>
   kid_wire_int (CL_KID_R K) = Some (CL_KID_R_INT K) \<and> CL_KID_R K = 0x2b \<and>
   CL_CRED_R K = cred_r \<and> CL_G_R K = pr"
  by (auto simp: client_header_def KID_R_def)

subsection \<open>Which peer is accepted\<close>

text \<open>C16: with the generated credentials, the Responder's \<open>cred_verify\<close> accepts a received
  credential identifier exactly when it is a kid that denotes the one byte h'2a', whether it
  arrived as a byte string or compressed to a CBOR integer; it then hands out the Initiator's
  public key and rewrites the structure to the byte-string form, and otherwise changes nothing.\<close>

theorem cred_verify_accepts_kid:
  assumes "device_header dr cred_r pi cred_i = Some K" and "well_formed_key_id (key_id c)"
  shows "cred_verify L K c =
    (if label c = EDHOC_COSE_HEADER_KID \<and> denoted_kid (key_id c) = [0x2a]
     then (EDHOC_SUCCESS L, byte_string_form 0x2a cred_i c, Some (pi, size_of pi))
     else (EDHOC_ERROR_CREDENTIALS_FAILURE L, c, None))"
proof -
  have K: "kid_wire_int (ED_KID_I K) = Some (ED_KID_I_INT K)" "ED_KID_I K = 0x2a"
    "ED_CRED_I K = cred_i" "ED_G_I K = pi"
    using device_header_kid [OF assms(1)] by auto
  from responder.names_peer_denoted [OF K(1) assms(2)] show ?thesis
    using responder.accepts [of K c L] responder.rejects [of K c L] K by auto
qed

text \<open>Credentials with dummy keys, and the identifier h'2a' as it travels: the integer -11.\<close>

definition ref_device_h :: edhoc_creds_h where
  "ref_device_h = \<lparr>ED_C_R_INT = -8, ED_KID_R = 0x2b, ED_KID_I = 0x2a, ED_KID_I_INT = -11,
     ED_R_PRIV = replicate 32 1, ED_CRED_R = [0xa2], ED_G_I = replicate 32 2, ED_CRED_I = [0xa1]\<rparr>"

lemma ref_device_header: "device_header (replicate 32 1) [0xa2] (replicate 32 2) [0xa1] = Some ref_device_h"
  by (simp add: device_header_def kid_wire_int_def KID_I_def KID_R_def C_R_INT_def ref_device_h_def)

lemma ref_received_2a:
  "well_formed_key_id (key_id (ref_received [b]))" "label (ref_received [b]) = EDHOC_COSE_HEADER_KID"
  "uint b = 31 - i \<Longrightarrow> -24 \<le> i \<Longrightarrow> i < 0 \<Longrightarrow> denoted_kid (key_id (ref_received [b])) = [b]"
proof -
  show "well_formed_key_id (key_id (ref_received [b]))" "label (ref_received [b]) = EDHOC_COSE_HEADER_KID"
    by (simp_all add: ref_received_def well_formed_key_id_def)
  assume b: "uint b = 31 - i" and i: "-24 \<le> i" "i < 0"
  have "word_of_int (31 - i) = b" using b by (metis word_of_int_uint)
  moreover have "31 - uint b = i" using b by simp
  ultimately show "denoted_kid (key_id (ref_received [b])) = [b]"
    using cbor_enc_int_small [of i] i by (simp add: ref_received_def denoted_kid_def)
qed

theorem cred_verify_accepts_kid_witness:
  "fst (cred_verify board_edhoc ref_device_h (ref_received [0x2a])) = 0 \<and>
   fst (cred_verify board_edhoc ref_device_h (ref_received [0x2b])) = -104"
proof -
  have "denoted_kid (key_id (ref_received [0x2a])) = [0x2a]"
    "denoted_kid (key_id (ref_received [0x2b])) = [0x2b]"
    by (rule ref_received_2a(3) [of _ "-11"]; simp) (rule ref_received_2a(3) [of _ "-12"]; simp)
  then show ?thesis
    using cred_verify_accepts_kid [OF ref_device_header ref_received_2a(1) [of "0x2a"], of board_edhoc]
      cred_verify_accepts_kid [OF ref_device_header ref_received_2a(1) [of "0x2b"], of board_edhoc]
    by (simp add: ref_received_2a(2) ref_edhoc_sel)
qed

text \<open>C17: the same for the Initiator's \<open>cred_verify\<close> in host_client: it accepts exactly the
  device's kid h'2b' and hands out the device's public key.\<close>

theorem client_cred_verify_accepts_kid:
  assumes "client_header di cred_i pr cred_r = Some K" and "well_formed_key_id (key_id c)"
  shows "client_cred_verify L K c =
    (if label c = EDHOC_COSE_HEADER_KID \<and> denoted_kid (key_id c) = [0x2b]
     then (EDHOC_SUCCESS L, byte_string_form 0x2b cred_r c, Some (pr, size_of pr))
     else (EDHOC_ERROR_CREDENTIALS_FAILURE L, c, None))"
proof -
  have K: "kid_wire_int (CL_KID_R K) = Some (CL_KID_R_INT K)" "CL_KID_R K = 0x2b"
    "CL_CRED_R K = cred_r" "CL_G_R K = pr"
    using client_header_kid [OF assms(1)] by auto
  from initiator.names_peer_denoted [OF K(1) assms(2)] show ?thesis
    using initiator.accepts [of K c L] initiator.rejects [of K c L] K by auto
qed

definition ref_client_h :: edhoc_creds_client_h where
  "ref_client_h = \<lparr>CL_C_I_INT = -14, CL_C_R_INT = -8, CL_KID_I = 0x2a, CL_KID_R = 0x2b,
     CL_KID_R_INT = -12, CL_I_PRIV = replicate 32 3, CL_CRED_I = [0xa1], CL_G_R = replicate 32 4,
     CL_CRED_R = [0xa2]\<rparr>"

lemma ref_client_header: "client_header (replicate 32 3) [0xa1] (replicate 32 4) [0xa2] = Some ref_client_h"
  by (simp add: client_header_def kid_wire_int_def KID_I_def KID_R_def C_R_INT_def C_I_INT_def
      ref_client_h_def)

theorem client_cred_verify_accepts_kid_witness:
  "fst (client_cred_verify board_edhoc ref_client_h (ref_received [0x2b])) = 0"
proof -
  have "denoted_kid (key_id (ref_received [0x2b])) = [0x2b]"
    by (rule ref_received_2a(3) [of _ "-12"]; simp)
  then show ?thesis
    using client_cred_verify_accepts_kid [OF ref_client_header ref_received_2a(1) [of "0x2b"], of board_edhoc]
    by (simp add: ref_received_2a(2) ref_edhoc_sel)
qed

subsection \<open>Hash sessions\<close>

text \<open>C27: the hash callback never leaks a device session, whichever call fails; it refuses NULL
  buffers, an empty input and a digest buffer under 32 bytes without touching the device, and
  reports a digest of exactly 32 bytes when it succeeds.\<close>

theorem edhoc_hash_hw_sessions:
  assumes "code_laws L" and "session_laws D opens"
    and "edhoc_hash_hw L D w input n out sz len = (rc, out', len', w')"
  shows "opens w' = opens w \<and>
         (input = None \<or> n = 0 \<or> out = None \<or> sz < 32 \<or> len = None \<longrightarrow>
            rc = EDHOC_ERROR_INVALID_ARGUMENT L \<and> w' = w \<and> out' = out \<and> len' = len) \<and>
         len' = (if rc = EDHOC_SUCCESS L then Some 32 else len)"
proof (intro conjI)
  have "opens v' = opens v + (if r = 0 then 1 else 0)"
    if "hash_begin_session D v flags algo = (r, h, v')" for v flags algo r h v'
    using assms(2) that unfolding session_laws_def by blast
  moreover have "opens v' = opens v" if "hash_compute D v h bs k d = (r, d', v')" for v h bs k d r d' v'
    using assms(2) that unfolding session_laws_def by blast
  moreover have "opens v' = opens v - 1" if "hash_free_session D v h = (r, v')" for v h r v'
    using assms(2) that unfolding session_laws_def by blast
  ultimately show "opens w' = opens w"
    using assms(3) by (fastforce simp: edhoc_hash_hw_def Let_def split: option.splits if_splits prod.splits)
  show "input = None \<or> n = 0 \<or> out = None \<or> sz < 32 \<or> len = None \<longrightarrow>
      rc = EDHOC_ERROR_INVALID_ARGUMENT L \<and> w' = w \<and> out' = out \<and> len' = len"
    using assms(3) by (auto simp: edhoc_hash_hw_def split: option.splits)
  show "len' = (if rc = EDHOC_SUCCESS L then Some 32 else len)"
    using assms(1,3) by (auto simp: edhoc_hash_hw_def code_laws_def Let_def
        split: option.splits if_splits prod.splits)
qed

theorem edhoc_hash_hw_sessions_witness:
  "\<exists>rc out len. edhoc_hash_hw ref_edhoc (ref_sha256 Suc (\<lambda>n. n - 1)) 5 (Some [1]) 1
     (Some (replicate 32 0)) 32 (Some 0) = (rc, out, len, 5)"
proof (cases "edhoc_hash_hw ref_edhoc (ref_sha256 Suc (\<lambda>n. n - 1)) 5 (Some [1]) 1
     (Some (replicate 32 0)) 32 (Some 0)")
  case (fields rc out len w)
  from edhoc_hash_hw_sessions [OF ref_code_laws ref_session_laws this] fields show ?thesis by simp
qed

end
