(* ===== verification/Edhoc_Oscore.thy ===== *)
theory Edhoc_Oscore
  imports Edhoc_Creds
begin

text \<open>
  src/edhoc_oscore.c: the Responder state machine behind /.well-known/edhoc and the OSCORE
  resource at the root path. The state extends that of the CoAP server by the file's static
  variables. The handler \<open>edhoc_post\<close> is composed of \<open>edhoc_unframe\<close> (the transport framing),
  \<open>edhoc_message_1\<close> and \<open>edhoc_message_3\<close> (the two branches of the critical section),
  \<open>edhoc_drive\<close> (the section between the mutex calls) and \<open>edhoc_reply\<close>.
\<close>

subsection \<open>State and surroundings\<close>

record ('w, 'm, 'a, 'ec, 'oc, 'x) edhoc_state = "('w, 'm, 'a) server_state" +
  oscore_ctx :: 'oc
  oscore_ready :: bool
  oscore_master_secret :: "u8 list"
  oscore_master_salt :: "u8 list"
  oscore_sender_id :: "u8 list"
  oscore_recipient_id :: "u8 list"
  edhoc_ctx :: 'ec
  edhoc_ctx_active :: bool
  edhoc_mtx :: nat \<comment> \<open>the lock count of the mutex\<close>
  edhoc_crypto_hw :: "('w, 'x) edhoc_crypto_scheme"

text \<open>
  What the file is built against: the libraries, the board, the generated credentials and whether
  CONFIG_CRYPTO_RPI_PICO_SHA256 is set.
\<close>

record ('w, 'm, 'o, 'a, 'ec, 'oc, 'x, 'd, 'h) env =
  coap :: "('m, 'o) coap_lib"
  plat :: "('w, 'm, 'a) platform"
  edhoc :: "('w, 'ec, 'x, 'd) libedhoc"
  oscore :: "('w, 'oc) uoscore"
  sha256 :: "('w, 'h) hash_dev"
  creds_h :: edhoc_creds_h
  hw_sha256 :: bool

definition EDHOC_MSG_MAX :: u32 where "EDHOC_MSG_MAX = 256"
definition OSCORE_BUF_MAX :: u32 where "OSCORE_BUF_MAX = 512"

text \<open>A libedhoc call on the one context \<open>edhoc_ctx\<close>.\<close>

definition on_ctx ::
  "('w \<Rightarrow> 'ec \<Rightarrow> int \<times> 'ec \<times> 'w) \<Rightarrow> ('w, 'm, 'a, 'ec, 'oc, 'x) edhoc_state \<Rightarrow>
   int \<times> ('w, 'm, 'a, 'ec, 'oc, 'x) edhoc_state" where
  "on_ctx f s = (let (ret, c, w) = f (world s) (edhoc_ctx s) in (ret, s\<lparr>edhoc_ctx := c, world := w\<rparr>))"

definition k_mutex_lock :: "('w, 'm, 'a, 'ec, 'oc, 'x) edhoc_state \<Rightarrow> ('w, 'm, 'a, 'ec, 'oc, 'x) edhoc_state" where
  "k_mutex_lock s = s\<lparr>edhoc_mtx := edhoc_mtx s + 1\<rparr>"

definition k_mutex_unlock :: "('w, 'm, 'a, 'ec, 'oc, 'x) edhoc_state \<Rightarrow> ('w, 'm, 'a, 'ec, 'oc, 'x) edhoc_state" where
  "k_mutex_unlock s = s\<lparr>edhoc_mtx := edhoc_mtx s - 1\<rparr>"

subsection \<open>Setting up a responder context\<close>

definition responder_credentials ::
  "('w, 'm, 'o, 'a, 'ec, 'oc, 'x, 'd, 'h) env \<Rightarrow> 'w edhoc_credentials" where
  "responder_credentials E = \<lparr>fetch = cred_fetch (edhoc E) (creds_h E),
                              verify = cred_verify (edhoc E) (creds_h E)\<rparr>"

definition responder_cid :: "('w, 'm, 'o, 'a, 'ec, 'oc, 'x, 'd, 'h) env \<Rightarrow> edhoc_connection_id" where
  "responder_cid E = \<lparr>cid_encode_type = EDHOC_CID_TYPE_ONE_BYTE_INTEGER,
                      int_value = ED_C_R_INT (creds_h E)\<rparr>"

definition edhoc_setup ::
  "('w, 'm, 'o, 'a, 'ec, 'oc, 'x, 'd, 'h) env \<Rightarrow> ('w, 'm, 'a, 'ec, 'oc, 'x) edhoc_state \<Rightarrow>
   int \<times> ('w, 'm, 'a, 'ec, 'oc, 'x) edhoc_state" where
  "edhoc_setup E s =
     (let L = edhoc E; S = EDHOC_SUCCESS L in
      seq_ok S (on_ctx (edhoc_context_init L) s) (\<lambda>s.
      seq_ok S (on_ctx (edhoc_set_methods L [EDHOC_METHOD_3]) s) (\<lambda>s.
      seq_ok S (on_ctx (edhoc_set_cipher_suites L (edhoc_cipher_suite_0_get_suite L) 1) s) (\<lambda>s.
      seq_ok S (on_ctx (edhoc_set_connection_id L (responder_cid E)) s) (\<lambda>s.
      seq_ok S (on_ctx (edhoc_bind_keys L (edhoc_cipher_suite_0_get_keys L)) s) (\<lambda>s.
      seq_ok S
        (if hw_sha256 E
         then let s = s\<lparr>edhoc_crypto_hw := edhoc_cipher_suite_0_get_crypto L\<rparr>;
                  s = s\<lparr>edhoc_crypto_hw := (edhoc_crypto_hw s)\<lparr>hash := edhoc_hash_hw L (sha256 E)\<rparr>\<rparr>
              in on_ctx (edhoc_bind_crypto L (edhoc_crypto_hw s)) s
         else on_ctx (edhoc_bind_crypto L (edhoc_cipher_suite_0_get_crypto L)) s) (\<lambda>s.
      on_ctx (edhoc_bind_credentials L (responder_credentials E)) s)))))))"

subsection \<open>Exporting the OSCORE session\<close>

definition oscore_params :: "u8 list \<Rightarrow> u8 list \<Rightarrow> u8 list \<Rightarrow> u32 \<Rightarrow> u8 list \<Rightarrow> u32 \<Rightarrow> oscore_init_params" where
  "oscore_params secret salt sid sid_len rid rid_len =
     \<lparr>master_secret = \<lparr>ba_len = 16, ba_ptr = Some secret\<rparr>,
      sender_id = \<lparr>ba_len = sid_len, ba_ptr = Some sid\<rparr>,
      recipient_id = \<lparr>ba_len = rid_len, ba_ptr = Some rid\<rparr>,
      id_context = \<lparr>ba_len = 0, ba_ptr = None\<rparr>,
      master_salt = \<lparr>ba_len = 8, ba_ptr = Some salt\<rparr>,
      aead_alg = OSCORE_AES_CCM_16_64_128, hkdf = OSCORE_SHA_256, fresh_master_secret_salt = True\<rparr>"

definition derive_and_init_oscore ::
  "('w, 'm, 'o, 'a, 'ec, 'oc, 'x, 'd, 'h) env \<Rightarrow> ('w, 'm, 'a, 'ec, 'oc, 'x) edhoc_state \<Rightarrow>
   int \<times> ('w, 'm, 'a, 'ec, 'oc, 'x) edhoc_state" where
  "derive_and_init_oscore E s =
     (let bufs = \<lparr>ex_secret = oscore_master_secret s, ex_salt = oscore_master_salt s,
                  ex_sender_id = oscore_sender_id s, ex_sender_id_len = 0,
                  ex_recipient_id = oscore_recipient_id s, ex_recipient_id_len = 0\<rparr>;
          (ret, x, c, w) = edhoc_export_oscore_session (edhoc E) bufs (world s) (edhoc_ctx s);
          s = s\<lparr>edhoc_ctx := c, world := w, oscore_master_secret := ex_secret x,
                oscore_master_salt := ex_salt x, oscore_sender_id := ex_sender_id x,
                oscore_recipient_id := ex_recipient_id x\<rparr>
      in if ret \<noteq> EDHOC_SUCCESS (edhoc E) then (- EIO, s)
         else
           let params = oscore_params (oscore_master_secret s) (oscore_master_salt s)
                 (oscore_sender_id s) (ex_sender_id_len x) (oscore_recipient_id s) (ex_recipient_id_len x);
               (e, oc, w) = oscore_context_init (oscore E) params (world s) (oscore_ctx s);
               s = s\<lparr>oscore_ctx := oc, world := w\<rparr>
           in if e \<noteq> ok then (- EIO, s) else (0, s\<lparr>oscore_ready := True\<rparr>))"

subsection \<open>The EDHOC resource\<close>

text \<open>
  The framing: \<open>Inl\<close> an error, or whether the message is message_1, its bytes and its length.
\<close>

definition edhoc_unframe :: "u8 list option \<Rightarrow> u16 \<Rightarrow> int + (bool \<times> u8 list \<times> u32)" where
  "edhoc_unframe payload payload_len =
     (case payload of
        None \<Rightarrow> Inl (- EINVAL)
      | Some p \<Rightarrow>
          if payload_len = 0 then Inl (- EINVAL)
          else if p ! 0 = 0xf5 then Inr (True, drop 1 p, ucast payload_len - 1)
          else let skip = cbor_item_len p (ucast payload_len)
               in if skip = 0 \<or> ucast payload_len \<le> skip then Inl (- EINVAL)
                  else Inr (False, drop (unat skip) p, ucast payload_len - skip))"

text \<open>Freeing the context; \<open>(void)edhoc_context_deinit\<close>, then the flag.\<close>

definition edhoc_close ::
  "('w, 'm, 'o, 'a, 'ec, 'oc, 'x, 'd, 'h) env \<Rightarrow> ('w, 'm, 'a, 'ec, 'oc, 'x) edhoc_state \<Rightarrow>
   ('w, 'm, 'a, 'ec, 'oc, 'x) edhoc_state" where
  "edhoc_close E s = (snd (on_ctx (edhoc_context_deinit (edhoc E)) s))\<lparr>edhoc_ctx_active := False\<rparr>"

text \<open>A message_1 resets any half-finished handshake and drops the OSCORE context.\<close>

definition edhoc_reset ::
  "('w, 'm, 'o, 'a, 'ec, 'oc, 'x, 'd, 'h) env \<Rightarrow> ('w, 'm, 'a, 'ec, 'oc, 'x) edhoc_state \<Rightarrow>
   ('w, 'm, 'a, 'ec, 'oc, 'x) edhoc_state" where
  "edhoc_reset E s = (if edhoc_ctx_active s then edhoc_close E s else s)\<lparr>oscore_ready := False\<rparr>"

text \<open>
  The two branches of the critical section, with the message and its length: they return \<open>rc\<close>, the
  contents of \<open>out_buf\<close> and \<open>out_len\<close>. A buffer that no call has filled is \<open>[]\<close>.
\<close>

definition edhoc_message_1 ::
  "('w, 'm, 'o, 'a, 'ec, 'oc, 'x, 'd, 'h) env \<Rightarrow> ('w, 'm, 'a, 'ec, 'oc, 'x) edhoc_state \<Rightarrow>
   u8 list \<Rightarrow> u32 \<Rightarrow> int \<times> u8 list \<times> u32 \<times> ('w, 'm, 'a, 'ec, 'oc, 'x) edhoc_state" where
  "edhoc_message_1 E s msg msg_len =
     (let L = edhoc E;
          (rc, s) = edhoc_setup E (edhoc_reset E s);
          (rc, s) = (if rc = EDHOC_SUCCESS L
                     then on_ctx (edhoc_message_1_process L msg msg_len) (s\<lparr>edhoc_ctx_active := True\<rparr>)
                     else (rc, s));
          (rc, out_buf, out_len, s) =
            (if rc = EDHOC_SUCCESS L
             then let (rc, out, n, c, w) = edhoc_message_2_compose L EDHOC_MSG_MAX (world s) (edhoc_ctx s)
                  in (rc, out, n, s\<lparr>edhoc_ctx := c, world := w\<rparr>)
             else (rc, [], 0, s));
          s = (if rc \<noteq> EDHOC_SUCCESS L \<and> edhoc_ctx_active s then edhoc_close E s else s)
      in (rc, out_buf, out_len, s))"

definition edhoc_message_3 ::
  "('w, 'm, 'o, 'a, 'ec, 'oc, 'x, 'd, 'h) env \<Rightarrow> ('w, 'm, 'a, 'ec, 'oc, 'x) edhoc_state \<Rightarrow>
   u8 list \<Rightarrow> u32 \<Rightarrow> int \<times> u8 list \<times> u32 \<times> ('w, 'm, 'a, 'ec, 'oc, 'x) edhoc_state" where
  "edhoc_message_3 E s msg msg_len =
     (if \<not> edhoc_ctx_active s then (- EINVAL, [], 0, s)
      else
        let L = edhoc E;
            (rc, s) = on_ctx (edhoc_message_3_process L msg msg_len) s;
            (rc, out_buf, out_len, s) =
              (if rc = EDHOC_SUCCESS L
               then let (rc, out, n, c, w) = edhoc_message_4_compose L EDHOC_MSG_MAX (world s) (edhoc_ctx s)
                    in (rc, out, n, s\<lparr>edhoc_ctx := c, world := w\<rparr>)
               else (rc, [], 0, s));
            (rc, s) = (if rc = EDHOC_SUCCESS L then derive_and_init_oscore E s else (rc, s))
        in (rc, out_buf, out_len, edhoc_close E s))"

definition edhoc_drive ::
  "('w, 'm, 'o, 'a, 'ec, 'oc, 'x, 'd, 'h) env \<Rightarrow> ('w, 'm, 'a, 'ec, 'oc, 'x) edhoc_state \<Rightarrow>
   bool \<Rightarrow> u8 list \<Rightarrow> u32 \<Rightarrow> int \<times> u8 list \<times> u32 \<times> ('w, 'm, 'a, 'ec, 'oc, 'x) edhoc_state" where
  "edhoc_drive E s is_msg_1 msg msg_len =
     (let s = k_mutex_lock s;
          (rc, out_buf, out_len, s) =
            (if is_msg_1 then edhoc_message_1 E s msg msg_len else edhoc_message_3 E s msg msg_len)
      in (rc, out_buf, out_len, k_mutex_unlock s))"

definition edhoc_reply ::
  "('m, 'o) coap_lib \<Rightarrow> 'm coap_packet_scheme \<Rightarrow> u8 list \<Rightarrow> u32 \<Rightarrow> int \<times> 'm coap_packet_scheme" where
  "edhoc_reply C request out_buf out_len =
     (let mid = coap_header_get_id C request;
          (tkl, token) = coap_header_get_token C request
      in chk (coap_packet_init C (ucast EDHOC_MSG_MAX) COAP_VERSION_1 COAP_TYPE_ACK tkl token
                COAP_RESPONSE_CODE_CHANGED mid) (\<lambda>p.
         if 0 < out_len
         then chk (coap_packet_append_payload_marker C p) (\<lambda>p.
              coap_packet_append_payload C p out_buf (ucast out_len))
         else (0, p)))"

definition edhoc_post ::
  "('w, 'm, 'o, 'a, 'ec, 'oc, 'x, 'd, 'h) env \<Rightarrow> ('w, 'm, 'a, 'ec, 'oc, 'x) edhoc_state \<Rightarrow>
   coap_resource \<Rightarrow> 'm coap_packet_scheme \<Rightarrow> 'a \<Rightarrow> int \<times> ('w, 'm, 'a, 'ec, 'oc, 'x) edhoc_state" where
  "edhoc_post E s resource request addr =
     (let (payload, payload_len) = coap_packet_get_payload (coap E) request
      in case edhoc_unframe payload payload_len of
           Inl err \<Rightarrow> (err, s)
         | Inr (is_msg_1, msg, msg_len) \<Rightarrow>
             let (rc, out_buf, out_len, s) = edhoc_drive E s is_msg_1 msg msg_len
             in if rc \<noteq> EDHOC_SUCCESS (edhoc E) then (- EBADMSG, s)
                else let (r, response) = edhoc_reply (coap E) request out_buf out_len
                     in if r < 0 then (r, s) else resource_send (plat E) s resource response addr)"

definition edhoc_path :: "string list" where "edhoc_path = [''.well-known'', ''edhoc'']"

definition edhoc_resource :: coap_resource where
  "edhoc_resource = \<lparr>get_method = None, put_method = None, post_method = Some Edhoc_post,
                     path = edhoc_path\<rparr>"

subsection \<open>The OSCORE resource\<close>

definition oscore_post ::
  "('w, 'm, 'o, 'a, 'ec, 'oc, 'x, 'd, 'h) env \<Rightarrow> ('w, 'm, 'a, 'ec, 'oc, 'x) edhoc_state \<Rightarrow>
   coap_resource \<Rightarrow> 'm coap_packet_scheme \<Rightarrow> 'a \<Rightarrow> int \<times> ('w, 'm, 'a, 'ec, 'oc, 'x) edhoc_state" where
  "oscore_post E s resource request addr =
     (if \<not> oscore_ready s then (- ENOTCONN, s)
      else
        let (e, coap_buf, coap_len, oc, w) =
              oscore2coap (oscore E) (oscore_sender_id s) (data request) (ucast (offset request))
                OSCORE_BUF_MAX (world s) (oscore_ctx s);
            s = s\<lparr>oscore_ctx := oc, world := w\<rparr>
        in if e = not_oscore_pkt then (- ENOENT, s)
           else if e \<noteq> ok \<and> e \<noteq> first_request_after_reboot then (- EBADMSG, s)
           else
             let (r, inner_req) = coap_packet_parse (coap E) coap_buf (ucast coap_len)
             in if r < 0 then (r, s)
                else
                  let (r, inner_rsp, s) =
                        coap_server_dispatch_inner (coap E) (plat E) s inner_req (ucast EDHOC_MSG_MAX)
                  in if r < 0 then (r, s)
                     else
                       let (e, oscore_out, oscore_len, oc, w) =
                             coap2oscore (oscore E) (oscore_sender_id s) (data inner_rsp)
                               (ucast (offset inner_rsp)) OSCORE_BUF_MAX (world s) (oscore_ctx s);
                           s = s\<lparr>oscore_ctx := oc, world := w\<rparr>
                       in if e \<noteq> ok then (- EBADMSG, s)
                          else resource_send (plat E) s resource
                                 (coap_packet.extend
                                    \<lparr>data = oscore_out, offset = ucast oscore_len, max_len = ucast OSCORE_BUF_MAX\<rparr>
                                    (packet_rest0 (coap E))) addr)"

definition oscore_root_path :: "string list" where "oscore_root_path = []"

definition oscore_root_resource :: coap_resource where
  "oscore_root_resource = \<lparr>get_method = None, put_method = None, post_method = Some Oscore_post,
                           path = oscore_root_path\<rparr>"

subsection \<open>Frame lemmas\<close>

lemma on_ctx_frame [simp]:
  "led_state (snd (on_ctx f s)) = led_state s" "sent (snd (on_ctx f s)) = sent s"
  "oscore_ctx (snd (on_ctx f s)) = oscore_ctx s" "oscore_ready (snd (on_ctx f s)) = oscore_ready s"
  "oscore_master_secret (snd (on_ctx f s)) = oscore_master_secret s"
  "oscore_master_salt (snd (on_ctx f s)) = oscore_master_salt s"
  "oscore_sender_id (snd (on_ctx f s)) = oscore_sender_id s"
  "oscore_recipient_id (snd (on_ctx f s)) = oscore_recipient_id s"
  "edhoc_ctx_active (snd (on_ctx f s)) = edhoc_ctx_active s"
  "edhoc_mtx (snd (on_ctx f s)) = edhoc_mtx s"
  by (simp_all add: on_ctx_def split_beta)

text \<open>An observation that neither a context call nor the hash copy changes survives the set-up.\<close>

lemma edhoc_setup_keeps:
  assumes "\<And>f s. g (snd (on_ctx f s)) = g s" and "\<And>s h. g (s\<lparr>edhoc_crypto_hw := h\<rparr>) = g s"
  shows "g (snd (edhoc_setup E s)) = g s"
  by (simp add: edhoc_setup_def Let_def seq_ok_def assms)

lemma edhoc_setup_frame [simp]:
  "led_state (snd (edhoc_setup E s)) = led_state s" "sent (snd (edhoc_setup E s)) = sent s"
  "oscore_ctx (snd (edhoc_setup E s)) = oscore_ctx s"
  "oscore_ready (snd (edhoc_setup E s)) = oscore_ready s"
  "oscore_master_secret (snd (edhoc_setup E s)) = oscore_master_secret s"
  "oscore_master_salt (snd (edhoc_setup E s)) = oscore_master_salt s"
  "oscore_sender_id (snd (edhoc_setup E s)) = oscore_sender_id s"
  "oscore_recipient_id (snd (edhoc_setup E s)) = oscore_recipient_id s"
  "edhoc_ctx_active (snd (edhoc_setup E s)) = edhoc_ctx_active s"
  "edhoc_mtx (snd (edhoc_setup E s)) = edhoc_mtx s"
  by (rule edhoc_setup_keeps; simp)+

lemma edhoc_close_frame [simp]:
  "led_state (edhoc_close E s) = led_state s" "sent (edhoc_close E s) = sent s"
  "oscore_ctx (edhoc_close E s) = oscore_ctx s" "oscore_ready (edhoc_close E s) = oscore_ready s"
  "oscore_master_secret (edhoc_close E s) = oscore_master_secret s"
  "oscore_master_salt (edhoc_close E s) = oscore_master_salt s"
  "oscore_sender_id (edhoc_close E s) = oscore_sender_id s"
  "oscore_recipient_id (edhoc_close E s) = oscore_recipient_id s"
  "edhoc_mtx (edhoc_close E s) = edhoc_mtx s" "\<not> edhoc_ctx_active (edhoc_close E s)"
  by (simp_all add: edhoc_close_def)

text \<open>
  The OSCORE part of the state: the context and the buffers it was built from.
\<close>

definition oscore_part ::
  "('w, 'm, 'a, 'ec, 'oc, 'x) edhoc_state \<Rightarrow> 'oc \<times> u8 list \<times> u8 list \<times> u8 list \<times> u8 list" where
  "oscore_part s = (oscore_ctx s, oscore_master_secret s, oscore_master_salt s, oscore_sender_id s,
     oscore_recipient_id s)"

subsection \<open>Outcomes of the two branches\<close>

lemma derive_frame [simp]:
  "led_state (snd (derive_and_init_oscore E s)) = led_state s"
  "sent (snd (derive_and_init_oscore E s)) = sent s"
  "edhoc_ctx_active (snd (derive_and_init_oscore E s)) = edhoc_ctx_active s"
  "edhoc_mtx (snd (derive_and_init_oscore E s)) = edhoc_mtx s"
  by (simp_all add: derive_and_init_oscore_def Let_def split_beta)

lemma derive_ready:
  "derive_and_init_oscore E s = (rc, s') \<Longrightarrow>
   (rc = 0 \<and> oscore_ready s') \<or> (rc = - EIO \<and> oscore_ready s' = oscore_ready s)"
  by (auto simp: derive_and_init_oscore_def Let_def split: prod.splits if_splits)

lemma message_1_outcome:
  assumes "edhoc_message_1 E s msg n = (rc, out, len, s')"
  shows "\<not> oscore_ready s'" "edhoc_ctx_active s' \<longleftrightarrow> rc = EDHOC_SUCCESS (edhoc E)"
    "led_state s' = led_state s" "sent s' = sent s" "edhoc_mtx s' = edhoc_mtx s"
    "oscore_part s' = oscore_part s"
proof -
  define s1 where "s1 = edhoc_reset E s"
  have s1: "\<not> oscore_ready s1" "\<not> edhoc_ctx_active s1" "led_state s1 = led_state s"
    "sent s1 = sent s" "edhoc_mtx s1 = edhoc_mtx s" "oscore_part s1 = oscore_part s"
    by (auto simp: s1_def edhoc_reset_def oscore_part_def)
  obtain rc2 s2 where s2: "edhoc_setup E s1 = (rc2, s2)" by fastforce
  then have "s2 = snd (edhoc_setup E s1)" by simp
  with s1 have f: "\<not> oscore_ready s2" "\<not> edhoc_ctx_active s2" "led_state s2 = led_state s"
    "sent s2 = sent s" "edhoc_mtx s2 = edhoc_mtx s" "oscore_part s2 = oscore_part s"
    by (auto simp: oscore_part_def)
  from assms s2 f show "\<not> oscore_ready s'" "edhoc_ctx_active s' \<longleftrightarrow> rc = EDHOC_SUCCESS (edhoc E)"
    "led_state s' = led_state s" "sent s' = sent s" "edhoc_mtx s' = edhoc_mtx s"
    "oscore_part s' = oscore_part s"
    by (auto simp: edhoc_message_1_def Let_def s1_def [symmetric] on_ctx_def oscore_part_def
        split: prod.splits if_splits)
qed

lemma message_3_idle:
  "\<not> edhoc_ctx_active s \<Longrightarrow> edhoc_message_3 E s msg n = (- EINVAL, [], 0, s)"
  by (simp add: edhoc_message_3_def)

lemma message_3_run:
  assumes "edhoc_message_3 E s msg n = (rc, out, len, s')" and "edhoc_ctx_active s"
  obtains c w s1 where "s1 = s\<lparr>edhoc_ctx := c, world := w\<rparr>"
      "rc \<noteq> EDHOC_SUCCESS (edhoc E)" "s' = edhoc_close E s1"
  | c w s1 s2 where "s1 = s\<lparr>edhoc_ctx := c, world := w\<rparr>"
      "derive_and_init_oscore E s1 = (rc, s2)" "s' = edhoc_close E s2"
proof -
  obtain rc1 c1 w1 where 1: "edhoc_message_3_process (edhoc E) msg n (world s) (edhoc_ctx s) = (rc1, c1, w1)"
    by (metis prod_cases3)
  obtain rc2 o2 n2 c w where 2:
    "edhoc_message_4_compose (edhoc E) EDHOC_MSG_MAX w1 c1 = (rc2, o2, n2, c, w)"
    by (metis prod_cases5)
  obtain rc3 s2 where 3: "derive_and_init_oscore E (s\<lparr>edhoc_ctx := c, world := w\<rparr>) = (rc3, s2)"
    by fastforce
  consider "rc1 \<noteq> EDHOC_SUCCESS (edhoc E)"
    | "rc1 = EDHOC_SUCCESS (edhoc E)" "rc2 \<noteq> EDHOC_SUCCESS (edhoc E)"
    | "rc1 = EDHOC_SUCCESS (edhoc E)" "rc2 = EDHOC_SUCCESS (edhoc E)" by blast
  then show thesis
    using assms 1 2 3 that
    by cases (simp_all add: edhoc_message_3_def on_ctx_def Let_def, blast+)
qed

lemma message_3_frame:
  assumes "edhoc_message_3 E s msg n = (rc, out, len, s')"
  shows "\<not> edhoc_ctx_active s'" "led_state s' = led_state s" "sent s' = sent s" "edhoc_mtx s' = edhoc_mtx s"
proof -
  have "\<not> edhoc_ctx_active s' \<and> led_state s' = led_state s \<and> sent s' = sent s \<and> edhoc_mtx s' = edhoc_mtx s"
  proof (cases "edhoc_ctx_active s")
    case False
    with assms show ?thesis by (simp add: message_3_idle)
  next
    case True
    from assms True show ?thesis
    proof (cases rule: message_3_run)
      case 1
      then show ?thesis by simp
    next
      case (2 c w s1 s2)
      with derive_frame [of E s1, unfolded 2(2)] show ?thesis by simp
    qed
  qed
  then show "\<not> edhoc_ctx_active s'" "led_state s' = led_state s" "sent s' = sent s"
    "edhoc_mtx s' = edhoc_mtx s" by blast+
qed

lemma message_3_ready:
  assumes "edhoc_message_3 E s msg n = (rc, out, len, s')" and "edhoc_ctx_active s"
    and "EDHOC_SUCCESS (edhoc E) = 0"
  shows "oscore_ready s' \<longleftrightarrow> oscore_ready s \<or> rc = 0"
  using assms(1,2)
proof (cases rule: message_3_run)
  case 1
  with assms(3) show ?thesis by simp
next
  case (2 c w s1 s2)
  with derive_ready [OF 2(2)] show ?thesis by (auto simp: EIO_def)
qed

subsection \<open>The critical section and the handler\<close>

lemma mutex_frame [simp]:
  "edhoc_mtx (k_mutex_lock s) = edhoc_mtx s + 1" "edhoc_mtx (k_mutex_unlock s) = edhoc_mtx s - 1"
  "led_state (k_mutex_lock s) = led_state s" "led_state (k_mutex_unlock s) = led_state s"
  "sent (k_mutex_lock s) = sent s" "sent (k_mutex_unlock s) = sent s"
  "oscore_ready (k_mutex_lock s) = oscore_ready s" "oscore_ready (k_mutex_unlock s) = oscore_ready s"
  "edhoc_ctx_active (k_mutex_lock s) = edhoc_ctx_active s"
  "edhoc_ctx_active (k_mutex_unlock s) = edhoc_ctx_active s"
  "oscore_part (k_mutex_lock s) = oscore_part s" "oscore_part (k_mutex_unlock s) = oscore_part s"
  "world (k_mutex_lock s) = world s" "world (k_mutex_unlock s) = world s"
  "edhoc_ctx (k_mutex_lock s) = edhoc_ctx s" "edhoc_ctx (k_mutex_unlock s) = edhoc_ctx s"
  by (simp_all add: k_mutex_lock_def k_mutex_unlock_def oscore_part_def)

lemma unlock_lock [simp]: "k_mutex_unlock (k_mutex_lock s) = s"
  by (simp add: k_mutex_lock_def k_mutex_unlock_def)

lemma drive_message_1:
  assumes "edhoc_drive E s True msg n = (rc, out, len, s')"
  shows "\<not> oscore_ready s'" "edhoc_ctx_active s' \<longleftrightarrow> rc = EDHOC_SUCCESS (edhoc E)"
    "led_state s' = led_state s" "sent s' = sent s" "edhoc_mtx s' = edhoc_mtx s"
    "oscore_part s' = oscore_part s"
proof -
  obtain s1 where m: "edhoc_message_1 E (k_mutex_lock s) msg n = (rc, out, len, s1)"
    and s': "s' = k_mutex_unlock s1"
    using assms by (auto simp: edhoc_drive_def Let_def split: prod.splits)
  from message_1_outcome [OF m] show "\<not> oscore_ready s'"
    "edhoc_ctx_active s' \<longleftrightarrow> rc = EDHOC_SUCCESS (edhoc E)" "led_state s' = led_state s"
    "sent s' = sent s" "edhoc_mtx s' = edhoc_mtx s" "oscore_part s' = oscore_part s"
    by (simp_all add: s')
qed

lemma drive_message_3_idle:
  "\<not> edhoc_ctx_active s \<Longrightarrow> edhoc_drive E s False msg n = (- EINVAL, [], 0, s)"
  by (simp add: edhoc_drive_def message_3_idle)

lemma drive_message_3:
  assumes "edhoc_drive E s False msg n = (rc, out, len, s')"
  shows "\<not> edhoc_ctx_active s'"
    and "EDHOC_SUCCESS (edhoc E) = 0 \<Longrightarrow> edhoc_ctx_active s \<Longrightarrow> oscore_ready s' \<longleftrightarrow> oscore_ready s \<or> rc = 0"
    and "led_state s' = led_state s" "sent s' = sent s" "edhoc_mtx s' = edhoc_mtx s"
proof -
  obtain s1 where m: "edhoc_message_3 E (k_mutex_lock s) msg n = (rc, out, len, s1)"
    and s': "s' = k_mutex_unlock s1"
    using assms(1) by (auto simp: edhoc_drive_def Let_def split: prod.splits)
  from message_3_frame [OF m] show "\<not> edhoc_ctx_active s'" "led_state s' = led_state s"
    "sent s' = sent s" "edhoc_mtx s' = edhoc_mtx s"
    by (simp_all add: s')
  from message_3_ready [OF m] show "oscore_ready s' \<longleftrightarrow> oscore_ready s \<or> rc = 0"
    if "EDHOC_SUCCESS (edhoc E) = 0" "edhoc_ctx_active s"
    using that by (simp add: s')
qed

lemma drive_frame:
  assumes "edhoc_drive E s b msg n = (rc, out, len, s')"
  shows "led_state s' = led_state s" "sent s' = sent s" "edhoc_mtx s' = edhoc_mtx s"
proof -
  have "led_state s' = led_state s \<and> sent s' = sent s \<and> edhoc_mtx s' = edhoc_mtx s"
  proof (cases b)
    case True
    with assms drive_message_1 [of E s msg n rc out len s'] show ?thesis by simp
  next
    case False
    with assms drive_message_3 [of E s msg n rc out len s'] show ?thesis by simp
  qed
  then show "led_state s' = led_state s" "sent s' = sent s" "edhoc_mtx s' = edhoc_mtx s" by blast+
qed

lemma send_frame [simp]:
  "led_state (snd (resource_send P s res p a)) = led_state s"
  "sent (snd (resource_send P s res p a)) = sent s @ [(p, a)]"
  "oscore_ready (snd (resource_send P s res p a)) = oscore_ready s"
  "edhoc_ctx_active (snd (resource_send P s res p a)) = edhoc_ctx_active s"
  "edhoc_mtx (snd (resource_send P s res p a)) = edhoc_mtx s"
  "edhoc_ctx (snd (resource_send P s res p a)) = edhoc_ctx s"
  "oscore_part (snd (resource_send P s res p a)) = oscore_part s"
  by (simp_all add: resource_send_def split_beta oscore_part_def)

text \<open>The request's framing, and the handler by cases.\<close>

definition framing ::
  "('m, 'o) coap_lib \<Rightarrow> 'm coap_packet_scheme \<Rightarrow> int + (bool \<times> u8 list \<times> u32)" where
  "framing C req = case_prod edhoc_unframe (coap_packet_get_payload C req)"

lemma edhoc_post_cases [consumes 1, case_names malformed failed unsent sent]:
  assumes "edhoc_post E s res req addr = (r, s')"
  obtains "framing (coap E) req = Inl r" "s' = s"
  | b msg n rc out len where "framing (coap E) req = Inr (b, msg, n)"
      "edhoc_drive E s b msg n = (rc, out, len, s')" "rc \<noteq> EDHOC_SUCCESS (edhoc E)" "r = - EBADMSG"
  | b msg n out len p where "framing (coap E) req = Inr (b, msg, n)"
      "edhoc_drive E s b msg n = (EDHOC_SUCCESS (edhoc E), out, len, s')"
      "edhoc_reply (coap E) req out len = (r, p)" "r < 0"
  | b msg n out len s1 p r0 where "framing (coap E) req = Inr (b, msg, n)"
      "edhoc_drive E s b msg n = (EDHOC_SUCCESS (edhoc E), out, len, s1)"
      "edhoc_reply (coap E) req out len = (r0, p)" "0 \<le> r0"
      "resource_send (plat E) s1 res p addr = (r, s')"
proof (cases "framing (coap E) req")
  case (Inl e)
  with assms that(1) show ?thesis
    by (auto simp: edhoc_post_def framing_def split: prod.splits)
next
  case (Inr x)
  obtain b msg n where x: "x = (b, msg, n)" by (cases x)
  obtain rc out len s1 where d: "edhoc_drive E s b msg n = (rc, out, len, s1)" by (metis prod_cases4)
  obtain r0 p where p: "edhoc_reply (coap E) req out len = (r0, p)" by fastforce
  from assms Inr d p have eq: "(r, s') =
      (if rc \<noteq> EDHOC_SUCCESS (edhoc E) then (- EBADMSG, s1) else if r0 < 0 then (r0, s1)
       else resource_send (plat E) s1 res p addr)"
    by (auto simp: edhoc_post_def framing_def x split: prod.splits)
  show ?thesis
  proof (cases "rc = EDHOC_SUCCESS (edhoc E)")
    case False
    with eq that(2) Inr x d show ?thesis by auto
  next
    case True
    with eq that(3,4) Inr x d p show ?thesis by (cases "r0 < 0") auto
  qed
qed

text \<open>
  What a request means to the session: it is ignored, it starts a handshake or tries to finish
  one. The flag says whether the EDHOC engine accepted it.
\<close>

datatype edhoc_event = Ignored | Msg1 bool | Msg3 bool

definition edhoc_event ::
  "('w, 'm, 'o, 'a, 'ec, 'oc, 'x, 'd, 'h) env \<Rightarrow> ('w, 'm, 'a, 'ec, 'oc, 'x) edhoc_state \<Rightarrow>
   'm coap_packet_scheme \<Rightarrow> edhoc_event" where
  "edhoc_event E s req =
     (case framing (coap E) req of
        Inl _ \<Rightarrow> Ignored
      | Inr (b, msg, n) \<Rightarrow>
          (if b then Msg1 else Msg3) (fst (edhoc_drive E s b msg n) = EDHOC_SUCCESS (edhoc E)))"

subsection \<open>The OSCORE handler by cases\<close>

lemma set_led_frame [simp]:
  "oscore_ready (set_led P b s) = oscore_ready s" "edhoc_ctx_active (set_led P b s) = edhoc_ctx_active s"
  "edhoc_mtx (set_led P b s) = edhoc_mtx s" "oscore_part (set_led P b s) = oscore_part s"
  "sent (set_led P b s) = sent s" "edhoc_ctx (set_led P b s) = edhoc_ctx s"
  by (simp_all add: set_led_def oscore_part_def)

lemma dispatch_edhoc_frame:
  assumes "coap_server_dispatch_inner C P s req n = (r, p, s')"
  shows "oscore_ready s' = oscore_ready s" "edhoc_ctx_active s' = edhoc_ctx_active s"
    "edhoc_mtx s' = edhoc_mtx s" "oscore_part s' = oscore_part s" "sent s' = sent s"
    "edhoc_ctx s' = edhoc_ctx s"
  using dispatch_shape [OF assms] by auto

abbreviation oscore_step ::
  "('w, 'm, 'a, 'ec, 'oc, 'x) edhoc_state \<Rightarrow> 'oc \<Rightarrow> 'w \<Rightarrow> ('w, 'm, 'a, 'ec, 'oc, 'x) edhoc_state" where
  "oscore_step s oc w \<equiv> s\<lparr>oscore_ctx := oc, world := w\<rparr>"

abbreviation oscore_packet :: "('m, 'o) coap_lib \<Rightarrow> u8 list \<Rightarrow> u32 \<Rightarrow> 'm coap_packet_scheme" where
  "oscore_packet C out len \<equiv> coap_packet.extend
     \<lparr>data = out, offset = ucast len, max_len = ucast OSCORE_BUF_MAX\<rparr> (packet_rest0 C)"

text \<open>The first half of the handler: the unprotected and parsed inner request.\<close>

definition inner_request ::
  "('w, 'm, 'o, 'a, 'ec, 'oc, 'x, 'd, 'h) env \<Rightarrow> ('w, 'm, 'a, 'ec, 'oc, 'x) edhoc_state \<Rightarrow>
   'm coap_packet_scheme \<Rightarrow> (int + 'm coap_packet_scheme) \<times> ('w, 'm, 'a, 'ec, 'oc, 'x) edhoc_state" where
  "inner_request E s request =
     (let (e, coap_buf, coap_len, oc, w) =
            oscore2coap (oscore E) (oscore_sender_id s) (data request) (ucast (offset request))
              OSCORE_BUF_MAX (world s) (oscore_ctx s);
          (r, q) = coap_packet_parse (coap E) coap_buf (ucast coap_len)
      in (if e = not_oscore_pkt then Inl (- ENOENT)
          else if e \<noteq> ok \<and> e \<noteq> first_request_after_reboot then Inl (- EBADMSG)
          else if r < 0 then Inl r else Inr q, oscore_step s oc w))"

lemma oscore_post_idle: "\<not> oscore_ready s \<Longrightarrow> oscore_post E s res req addr = (- ENOTCONN, s)"
  unfolding oscore_post_def by (rule if_P)

lemma oscore_post_inner:
  assumes "oscore_ready s"
  shows "oscore_post E s res req addr =
    (case inner_request E s req of
       (Inl r, s) \<Rightarrow> (r, s)
     | (Inr q, s) \<Rightarrow>
         let (r, p, s) = coap_server_dispatch_inner (coap E) (plat E) s q 256
         in if r < 0 then (r, s)
            else let (e, out, len, oc, w) = coap2oscore (oscore E) (oscore_sender_id s) (data p)
                       (ucast (offset p)) OSCORE_BUF_MAX (world s) (oscore_ctx s);
                     s = oscore_step s oc w
                 in if e \<noteq> ok then (- EBADMSG, s)
                    else resource_send (plat E) s res (oscore_packet (coap E) out len) addr)"
proof -
  have 256: "ucast EDHOC_MSG_MAX = (256 :: u16)" by (simp add: EDHOC_MSG_MAX_def)
  obtain e b n oc w where 1: "oscore2coap (oscore E) (oscore_sender_id s) (data req)
      (ucast (offset req)) OSCORE_BUF_MAX (world s) (oscore_ctx s) = (e, b, n, oc, w)"
    by (metis prod_cases5)
  obtain r q where 2: "coap_packet_parse (coap E) b (ucast n) = (r, q)" by fastforce
  show ?thesis
    by (simp add: oscore_post_def assms inner_request_def 1 2 256 Let_def)
qed

lemma oscore_post_cases [consumes 1, case_names idle rejected undispatched unprotected sent]:
  assumes "oscore_post E s res req addr = (r, s')"
  obtains "\<not> oscore_ready s" "r = - ENOTCONN" "s' = s"
  | "oscore_ready s" "inner_request E s req = (Inl r, s')"
  | q s1 p where "oscore_ready s" "inner_request E s req = (Inr q, s1)"
      "coap_server_dispatch_inner (coap E) (plat E) s1 q 256 = (r, p, s')" "r < 0"
  | q s1 r1 p s2 e out len oc w where "oscore_ready s" "inner_request E s req = (Inr q, s1)"
      "coap_server_dispatch_inner (coap E) (plat E) s1 q 256 = (r1, p, s2)" "0 \<le> r1"
      "coap2oscore (oscore E) (oscore_sender_id s2) (data p) (ucast (offset p)) OSCORE_BUF_MAX (world s2)
         (oscore_ctx s2) = (e, out, len, oc, w)" "e \<noteq> ok" "r = - EBADMSG" "s' = oscore_step s2 oc w"
  | q s1 r1 p s2 out len oc w where "oscore_ready s" "inner_request E s req = (Inr q, s1)"
      "coap_server_dispatch_inner (coap E) (plat E) s1 q 256 = (r1, p, s2)" "0 \<le> r1"
      "coap2oscore (oscore E) (oscore_sender_id s2) (data p) (ucast (offset p)) OSCORE_BUF_MAX (world s2)
         (oscore_ctx s2) = (ok, out, len, oc, w)"
      "resource_send (plat E) (oscore_step s2 oc w) res (oscore_packet (coap E) out len) addr = (r, s')"
proof (cases "oscore_ready s")
  case False
  with assms have "r = - ENOTCONN" "s' = s" by (simp_all add: oscore_post_idle)
  with False show ?thesis by (rule that(1))
next
  case ready: True
  obtain i s1 where i: "inner_request E s req = (i, s1)" by fastforce
  show ?thesis
  proof (cases i)
    case (Inl e)
    with i ready assms have "inner_request E s req = (Inl r, s')" by (simp add: oscore_post_inner)
    with ready show ?thesis by (rule that(2))
  next
    case (Inr q)
    obtain r1 p s2 where d: "coap_server_dispatch_inner (coap E) (plat E) s1 q 256 = (r1, p, s2)"
      by (metis prod_cases3)
    obtain e out len oc w where o: "coap2oscore (oscore E) (oscore_sender_id s2) (data p)
        (ucast (offset p)) OSCORE_BUF_MAX (world s2) (oscore_ctx s2) = (e, out, len, oc, w)"
      by (metis prod_cases5)
    have "(r, s') = (if r1 < 0 then (r1, s2)
        else if e \<noteq> ok then (- EBADMSG, oscore_step s2 oc w)
        else resource_send (plat E) (oscore_step s2 oc w) res (oscore_packet (coap E) out len) addr)"
      using assms
      by (simp add: oscore_post_inner [OF ready] i Inr d o Let_def cong: if_cong split del: if_split)
    then consider (1) "r1 < 0" "r = r1" "s' = s2"
      | (2) "0 \<le> r1" "e \<noteq> ok" "r = - EBADMSG" "s' = oscore_step s2 oc w"
      | (3) "0 \<le> r1" "e = ok" "resource_send (plat E) (oscore_step s2 oc w) res
          (oscore_packet (coap E) out len) addr = (r, s')"
      by (metis linorder_not_le prod.inject)
    then show ?thesis
    proof cases
      case 1
      with d that(3) [OF ready i [unfolded Inr]] show ?thesis by blast
    next
      case 2
      with that(4) [OF ready i [unfolded Inr] d _ o] show ?thesis by blast
    next
      case 3
      with o that(5) [OF ready i [unfolded Inr] d] show ?thesis by blast
    qed
  qed
qed

subsection \<open>Framing\<close>

lemma unat_ucast_u16_u32: "unat (ucast a :: u32) = unat (a :: u16)"
  using unat_u16_lt [of a] by (simp add: unsigned_ucast_eq take_bit_eq_mod)

lemma ucast_of_nat_u16: "n < 65536 \<Longrightarrow> (ucast (of_nat n :: u16) :: u32) = of_nat n"
  by (simp add: word_unat_eq_iff unat_ucast_u16_u32 unat_of_nat)

lemma unat_diff_u32: "(b :: u32) \<le> a \<Longrightarrow> unat (a - b) = unat a - unat b"
  by (simp add: unat_sub)

lemma unframe_bounds:
  assumes "length bs < 65536" and "edhoc_unframe (Some bs) (of_nat (length bs)) = Inr (b, msg, n)"
  shows "unat n = length msg \<and> (\<exists>pre. pre \<noteq> [] \<and> bs = pre @ msg) \<and> b = (bs ! 0 = 0xf5) \<and>
         (n = 0 \<longleftrightarrow> bs = [0xf5])"
proof -
  let ?n = "of_nat (length bs) :: u32"
  have u: "ucast (of_nat (length bs) :: u16) = ?n" "unat ?n = length bs"
    using assms(1) by (simp_all add: ucast_of_nat_u16 unat_of_nat_u32)
  have ne: "bs \<noteq> []" using assms(2) by (auto simp: edhoc_unframe_def)
  show ?thesis
  proof (cases "bs ! 0 = 0xf5")
    case True
    with assms(2) have "b" "msg = drop 1 bs" "n = ?n - 1"
      by (auto simp: edhoc_unframe_def u split: if_splits)
    moreover have "unat (?n - 1) = length bs - 1"
      using ne u(2) by (subst unat_diff_u32) (auto simp: word_le_nat_alt Suc_le_eq)
    ultimately show ?thesis
      using True ne by (cases bs) (auto simp: word_unat_eq_iff)
  next
    case False
    let ?k = "cbor_item_len bs ?n"
    from False assms(2) have "\<not> b" "msg = drop (unat ?k) bs" "n = ?n - ?k" "?k < ?n" "?k \<noteq> 0"
      by (auto simp: edhoc_unframe_def u Let_def not_le split: if_splits)
    moreover from this have "unat ?k < length bs" "0 < unat ?k"
      using u(2) by (simp_all add: word_less_nat_alt unat_gt_0)
    moreover have "unat (?n - ?k) = length bs - unat ?k"
      using \<open>?k < ?n\<close> u(2) by (simp add: unat_diff_u32)
    moreover have "\<exists>pre. pre \<noteq> [] \<and> bs = pre @ drop (unat ?k) bs"
      using \<open>0 < unat ?k\<close> ne by (intro exI [of _ "take (unat ?k) bs"]) auto
    ultimately show ?thesis
      using False by (auto simp: word_unat_eq_iff)
  qed
qed

text \<open>The two framings of RFC 9668 are undone exactly.\<close>

lemma unframe_message_1:
  "length msg < 65535 \<Longrightarrow>
   edhoc_unframe (Some (0xf5 # msg)) (of_nat (length (0xf5 # msg))) = Inr (True, msg, of_nat (length msg))"
proof -
  assume n: "length msg < 65535"
  have "(of_nat (length (0xf5 # msg)) :: u16) \<noteq> 0"
    using n by (simp add: word_unat_eq_iff unat_of_nat del: of_nat_Suc)
  moreover have "(ucast (of_nat (length (0xf5 # msg)) :: u16) :: u32) - 1 = of_nat (length msg)"
    using n by (subst ucast_of_nat_u16) simp_all
  ultimately show ?thesis by (simp add: edhoc_unframe_def del: of_nat_Suc)
qed

lemma unframe_message_3:
  assumes "short_item x" and "msg \<noteq> []" and "length (cbor_enc x @ msg) < 65536"
  shows "edhoc_unframe (Some (cbor_enc x @ msg)) (of_nat (length (cbor_enc x @ msg))) =
         Inr (False, msg, of_nat (length msg))"
proof -
  let ?p = "cbor_enc x @ msg" let ?n = "of_nat (length ?p) :: u32"
  have u: "ucast (of_nat (length ?p) :: u16) = ?n" by (rule ucast_of_nat_u16 [OF assms(3)])
  have nz: "(of_nat (length ?p) :: u16) \<noteq> 0"
    using assms(2,3) by (simp add: word_unat_eq_iff unat_of_nat del: of_nat_add)
  have k: "cbor_item_len ?p ?n = of_nat (length (cbor_enc x))"
    using item_len_encoded [OF assms(1), of msg] assms(3) by simp
  obtain b bs where e: "cbor_enc x = b # bs" "b \<noteq> 0xf5" using cbor_enc_first by blast
  have l: "unat (of_nat (length (cbor_enc x)) :: u32) = length (cbor_enc x)"
    "unat ?n = length (cbor_enc x) + length msg"
    using assms(3) by (simp_all add: unat_of_nat_u32 del: of_nat_add)
  have "(of_nat (length (cbor_enc x)) :: u32) \<noteq> 0" "\<not> ?n \<le> of_nat (length (cbor_enc x))"
    using l e assms(2) by (auto simp: word_unat_eq_iff word_le_nat_alt)
  moreover have "?n - of_nat (length (cbor_enc x)) = of_nat (length msg)" by simp
  moreover have "?p ! 0 \<noteq> 0xf5" using e by simp
  ultimately show ?thesis
    unfolding edhoc_unframe_def option.case u Let_def k using nz l by simp
qed

text \<open>C21: stripping the framing is exact and safe: the EDHOC message is a proper suffix of the
  payload with its true length; message_1 is recognised by the byte 0xf5 alone; the message is
  empty exactly for the one-byte payload f5, the only case in which the log line's \<open>msg[0]\<close> lies
  behind the payload.\<close>

theorem edhoc_unframe_bounds:
  assumes "length bs < 65536" and "edhoc_unframe (Some bs) (of_nat (length bs)) = Inr (b, msg, n)"
  shows "unat n = length msg \<and> (\<exists>pre. pre \<noteq> [] \<and> bs = pre @ msg) \<and> b = (bs ! 0 = 0xf5) \<and>
         (n = 0 \<longleftrightarrow> bs = [0xf5])"
  using assms by (rule unframe_bounds)

theorem edhoc_unframe_bounds_witness:
  "edhoc_unframe (Some [0xf5]) 1 = Inr (True, [], 0) \<and> unat (0 :: u32) = length ([] :: u8 list)"
proof -
  have e: "edhoc_unframe (Some [0xf5]) 1 = Inr (True, [], 0)"
    by (simp add: edhoc_unframe_def)
  from edhoc_unframe_bounds [of "[0xf5]" True "[]" 0] e show ?thesis by simp
qed

text \<open>C20: both framings of the sequential flow round-trip: 0xf5 followed by message_1, and any
  CBOR-encoded C_R (an integer or a string) followed by a non-empty message_3, are taken apart into
  exactly the message.\<close>

theorem edhoc_unframe_roundtrip:
  assumes "short_item c_r" and "msg \<noteq> []" and "length (cbor_enc c_r @ msg) < 65536"
  shows "edhoc_unframe (Some (0xf5 # msg)) (of_nat (length (0xf5 # msg))) =
           Inr (True, msg, of_nat (length msg)) \<and>
         edhoc_unframe (Some (cbor_enc c_r @ msg)) (of_nat (length (cbor_enc c_r @ msg))) =
           Inr (False, msg, of_nat (length msg))"
proof -
  have "length msg < 65535" using assms(3) cbor_enc_first [of c_r] by auto
  then show ?thesis using unframe_message_1 unframe_message_3 [OF assms] by simp
qed

theorem edhoc_unframe_roundtrip_witness:
  "edhoc_unframe (Some [0x27, 0xaa]) 2 = Inr (False, [0xaa], 1)"
  using edhoc_unframe_roundtrip [of "CInt (-8)" "[0xaa]"]
  by (simp add: cbor_head_def)

subsection \<open>Configuration\<close>

text \<open>What the responder is to be configured with.\<close>

definition responder_config ::
  "('w, 'm, 'o, 'a, 'ec, 'oc, 'x, 'd, 'h) env \<Rightarrow> ('w, 'x, 'd) edhoc_config" where
  "responder_config E = \<lparr>cf_methods = Some [EDHOC_METHOD_3],
     cf_suites = Some (edhoc_cipher_suite_0_get_suite (edhoc E), 1),
     cf_cid = Some (responder_cid E), cf_keys = Some (edhoc_cipher_suite_0_get_keys (edhoc E)),
     cf_crypto = Some (if hw_sha256 E
       then (edhoc_cipher_suite_0_get_crypto (edhoc E))\<lparr>hash := edhoc_hash_hw (edhoc E) (sha256 E)\<rparr>
       else edhoc_cipher_suite_0_get_crypto (edhoc E)),
     cf_creds = Some (responder_credentials E)\<rparr>"

lemma on_ctx_configures:
  assumes "configures v cfg f u" and "fst (on_ctx f s) = v"
  shows "cfg (edhoc_ctx (snd (on_ctx f s))) = u (cfg (edhoc_ctx s))"
  using assms by (auto simp: configures_def on_ctx_def split: prod.splits)

lemma setup_config:
  assumes "config_laws (edhoc E) cfg" and "edhoc_setup E s = (EDHOC_SUCCESS (edhoc E), s')"
  shows "cfg (edhoc_ctx s') = responder_config E"
proof -
  define S where "S = EDHOC_SUCCESS (edhoc E)"
  have laws: "configures S cfg (edhoc_context_init (edhoc E)) (\<lambda>_. empty_config)"
    "\<And>ms. configures S cfg (edhoc_set_methods (edhoc E) ms) (\<lambda>k. k\<lparr>cf_methods := Some ms\<rparr>)"
    "\<And>d n. configures S cfg (edhoc_set_cipher_suites (edhoc E) d n) (\<lambda>k. k\<lparr>cf_suites := Some (d, n)\<rparr>)"
    "\<And>i. configures S cfg (edhoc_set_connection_id (edhoc E) i) (\<lambda>k. k\<lparr>cf_cid := Some i\<rparr>)"
    "\<And>d. configures S cfg (edhoc_bind_keys (edhoc E) d) (\<lambda>k. k\<lparr>cf_keys := Some d\<rparr>)"
    "\<And>x. configures S cfg (edhoc_bind_crypto (edhoc E) x) (\<lambda>k. k\<lparr>cf_crypto := Some x\<rparr>)"
    "\<And>cr. configures S cfg (edhoc_bind_credentials (edhoc E) cr) (\<lambda>k. k\<lparr>cf_creds := Some cr\<rparr>)"
    using assms(1) by (auto simp: config_laws_def S_def Let_def)
  have ok: "fst (edhoc_setup E s) = S" and s': "s' = snd (edhoc_setup E s)"
    using assms(2) by (simp_all add: S_def)
  show ?thesis
    using ok unfolding s' edhoc_setup_def Let_def S_def [symmetric] seq_ok_success
    by (auto simp: seq_ok_step laws [THEN on_ctx_configures] responder_config_def empty_config_def
        split: if_splits)
qed

text \<open>C18: when \<open>edhoc_setup\<close> succeeds the context is configured completely: method 3 only, one
  cipher suite (0), connection identifier C_R, the suite's keys, its crypto with the hash replaced
  by the accelerator exactly in the accelerated build, and this file's credential callbacks.\<close>

theorem edhoc_setup_configures:
  assumes "config_laws (edhoc E) cfg" and "edhoc_setup E s = (EDHOC_SUCCESS (edhoc E), s')"
  shows "cfg (edhoc_ctx s') = responder_config E"
  using assms by (rule setup_config)

subsection \<open>A concrete firmware\<close>

text \<open>The reference libraries put together, in the accelerated build, and its state at boot.\<close>

definition ref_env :: "(bool, coap_msg, string, unit, bool ref_ctx, nat, unit, unit, unit) env" where
  "ref_env = \<lparr>coap = ref_lib, plat = ref_platform, edhoc = ref_edhoc, oscore = ref_oscore,
     sha256 = ref_sha256 id id, creds_h = ref_device_h, hw_sha256 = True\<rparr>"

definition ref_boot :: "(bool, coap_msg, unit, bool ref_ctx, nat, unit) edhoc_state" where
  "ref_boot = \<lparr>led_state = False, world = False, sent = [], oscore_ctx = 0, oscore_ready = False,
     oscore_master_secret = replicate 16 0, oscore_master_salt = replicate 8 0,
     oscore_sender_id = replicate 8 0, oscore_recipient_id = replicate 8 0,
     edhoc_ctx = \<lparr>rc_config = empty_config, rc_peer = None\<rparr>, edhoc_ctx_active = False, edhoc_mtx = 0,
     edhoc_crypto_hw = ref_crypto\<rparr>"

lemma ref_env_sel [simp]:
  "coap ref_env = ref_lib" "plat ref_env = ref_platform" "edhoc ref_env = ref_edhoc"
  "oscore ref_env = ref_oscore" "hw_sha256 ref_env" "creds_h ref_env = ref_device_h"
  "sha256 ref_env = ref_sha256 id id"
  by (simp_all add: ref_env_def)

lemma ref_setup:
  "\<exists>s'. edhoc_setup ref_env s = (0, s') \<and> rc_config (edhoc_ctx s') = responder_config ref_env"
proof -
  have "fst (edhoc_setup ref_env s) = 0"
    by (simp add: edhoc_setup_def Let_def seq_ok_success on_ctx_def ref_edhoc_def ref_set_def)
  then have e: "edhoc_setup ref_env s = (EDHOC_SUCCESS (edhoc ref_env), snd (edhoc_setup ref_env s))"
    by (simp add: ref_edhoc_sel prod_eq_iff)
  from setup_config [OF _ this, of rc_config] ref_config_laws e show ?thesis
    by (auto simp: ref_edhoc_sel)
qed

theorem edhoc_setup_configures_witness:
  "\<exists>s'. edhoc_setup ref_env ref_boot = (0, s') \<and>
     cf_methods (rc_config (edhoc_ctx s')) = Some [EDHOC_METHOD_3] \<and>
     cf_cid (rc_config (edhoc_ctx s')) = Some \<lparr>cid_encode_type = EDHOC_CID_TYPE_ONE_BYTE_INTEGER, int_value = -8\<rparr>"
proof -
  obtain s' where e: "edhoc_setup ref_env ref_boot = (0, s')" using ref_setup by blast
  have "rc_config (edhoc_ctx s') = responder_config ref_env"
    by (rule edhoc_setup_configures [of ref_env rc_config ref_boot])
      (simp_all add: ref_config_laws ref_edhoc_sel e)
  with e show ?thesis by (simp add: responder_config_def responder_cid_def ref_device_h_def)
qed

subsection \<open>The reply\<close>

lemma reply_build:
  assumes "coap_header_get_token C req = (tkl, tok)"
  shows "edhoc_reply C req out len =
    (if 0 < len then build_part C COAP_RESPONSE_CODE_CHANGED out (ucast len) 256 tkl tok
                       (coap_header_get_id C req)
     else chk (coap_packet_init C 256 COAP_VERSION_1 COAP_TYPE_ACK tkl tok COAP_RESPONSE_CODE_CHANGED
                 (coap_header_get_id C req)) (\<lambda>p. (0, p)))"
  by (simp add: edhoc_reply_def build_part_def assms EDHOC_MSG_MAX_def Let_def)

lemma unat_ucast_256: "len \<le> (256 :: u32) \<Longrightarrow> unat (ucast len :: u16) = unat len"
  by (simp add: word_le_nat_alt unsigned_ucast_eq take_bit_eq_mod)

lemma reply_view:
  assumes "coap_laws C V W" and "edhoc_reply C req out len = (r, p)" and "0 \<le> r"
    and len: "len \<le> 256" "unat len \<le> length out"
  shows "V p = ack (V req) COAP_RESPONSE_CODE_CHANGED (if len = 0 then None else Some (take (unat len) out))"
proof -
  obtain tkl tok where tok: "coap_header_get_token C req = (tkl, tok)" by fastforce
  note t = coap_laws_token [OF assms(1) tok]
  then have tk: "token_ok tkl tok" by (simp add: token_ok_def)
  note id = coap_laws_header(1) [OF assms(1), of req]
  show ?thesis
  proof (cases "len = 0")
    case True
    with assms(2,3) obtain r1 where "coap_packet_init C 256 COAP_VERSION_1 COAP_TYPE_ACK tkl tok
        COAP_RESPONSE_CODE_CHANGED (m_id (V req)) = (r1, p)" "0 \<le> r1"
      by (auto simp: reply_build [OF tok] id chk_def prod_eq_iff split: if_splits)
    from coap_laws_init [OF assms(1) this t(1,2)] t True show ?thesis by (simp add: ack_def)
  next
    case False
    then have "0 < len" by (simp add: word_neq_0_conv)
    with assms(2) have b: "build_part C COAP_RESPONSE_CODE_CHANGED out (ucast len) 256 tkl tok
        (m_id (V req)) = (r, p)"
      by (simp add: reply_build [OF tok] id)
    from build_part_view [OF assms(1) tk _ b assms(3)] len t False show ?thesis
      by (simp add: unat_ucast_256 ack_def)
  qed
qed

text \<open>The size of the reply: header and token, and marker and message if there is one.\<close>

definition reply_size :: "coap_msg \<Rightarrow> u32 \<Rightarrow> nat" where
  "reply_size q len = 4 + length (m_token q) + (if len = 0 then 0 else 1 + unat len)"

lemma reply_fits_iff:
  assumes "coap_laws C V W" and "space_laws C" and "edhoc_reply C req out len = (r, p)"
    and "len \<le> 256"
  shows "0 \<le> r \<longleftrightarrow> reply_size (V req) len \<le> 256"
proof -
  obtain tkl tok where tok: "coap_header_get_token C req = (tkl, tok)" by fastforce
  note t = coap_laws_token [OF assms(1) tok]
  then have tk: "token_ok tkl tok" and l: "length (m_token (V req)) = unat tkl"
    by (auto simp: token_ok_def simp flip: t(3))
  show ?thesis
  proof (cases "len = 0")
    case True
    obtain r1 p1 where i: "coap_packet_init C 256 COAP_VERSION_1 COAP_TYPE_ACK tkl tok
        COAP_RESPONSE_CODE_CHANGED (coap_header_get_id C req) = (r1, p1)" by fastforce
    with True assms(3) have "0 \<le> r \<longleftrightarrow> 0 \<le> r1" by (auto simp: reply_build [OF tok] chk_def split: if_splits)
    with init_fits [OF assms(2) tk i] True l show ?thesis by (simp add: reply_size_def)
  next
    case False
    then have "0 < len" by (simp add: word_neq_0_conv)
    with assms(3) have b: "build_part C COAP_RESPONSE_CODE_CHANGED out (ucast len) 256 tkl tok
        (coap_header_get_id C req) = (r, p)"
      by (simp add: reply_build [OF tok])
    from build_part_fits_iff [OF assms(2) tk b] assms(4) False l show ?thesis
      by (simp add: unat_ucast_256 reply_size_def)
  qed
qed

lemma drive_out:
  assumes "compose_laws (edhoc E)" and "code_laws (edhoc E)"
    and "edhoc_drive E s b msg n = (EDHOC_SUCCESS (edhoc E), out, len, s')"
  shows "len \<le> 256" "unat len \<le> length out"
proof -
  have "\<exists>w c c' w'. edhoc_message_2_compose (edhoc E) 256 w c = (EDHOC_SUCCESS (edhoc E), out, len, c', w') \<or>
      edhoc_message_4_compose (edhoc E) 256 w c = (EDHOC_SUCCESS (edhoc E), out, len, c', w')"
    using assms(2,3)
    by (auto simp: edhoc_drive_def edhoc_message_1_def edhoc_message_3_def EDHOC_MSG_MAX_def Let_def
        code_laws_def EINVAL_def split: prod.splits if_splits)
  with assms(1) show "len \<le> 256" "unat len \<le> length out" unfolding compose_laws_def by blast+
qed

lemma framing_error: "framing C req = Inl e \<Longrightarrow> e = - EINVAL"
  by (auto simp: framing_def edhoc_unframe_def Let_def split: prod.splits option.splits if_splits)

subsection \<open>A handshake on the concrete firmware\<close>

text \<open>The two POSTs to /.well-known/edhoc: f5 and a message_1; C_R (0x27) and a message_3.\<close>

definition edhoc_uri :: "u8 list" where
  "edhoc_uri = 0xbb # bytes ''.well-known'' @ 0x05 # bytes ''edhoc''"

definition post_message_1 :: "coap_msg coap_packet_scheme" where
  "post_message_1 = ref_request ([0x41, 0x02, 0x12, 0x36, 0x99] @ edhoc_uri @ [0xff, 0xf5, 0x03])"

definition post_message_3 :: "coap_msg coap_packet_scheme" where
  "post_message_3 = ref_request ([0x41, 0x02, 0x12, 0x37, 0x99] @ edhoc_uri @ [0xff, 0x27, 0x2a])"

lemma view_post_message_1: "ref_view post_message_1 = \<lparr>m_type = 0, m_code = 2, m_id = 0x1236,
    m_token = [0x99], m_path = edhoc_path, m_payload = Some [0xf5, 0x03]\<rparr>"
  by (simp add: post_message_1_def edhoc_uri_def edhoc_path_def ref_eval)

lemma view_post_message_3: "ref_view post_message_3 = \<lparr>m_type = 0, m_code = 2, m_id = 0x1237,
    m_token = [0x99], m_path = edhoc_path, m_payload = Some [0x27, 0x2a]\<rparr>"
  by (simp add: post_message_3_def edhoc_uri_def edhoc_path_def ref_eval)

lemma framing_post_message_1: "framing ref_lib post_message_1 = Inr (True, [0x03], 1)"
  by (simp add: framing_def ref_lib_def ref_get_payload_def view_post_message_1 edhoc_unframe_def)

lemma framing_post_message_3: "framing ref_lib post_message_3 = Inr (False, [0x2a], 1)"
  using unframe_message_3 [of "CInt (-8)" "[0x2a]"]
  by (simp add: framing_def ref_lib_def ref_get_payload_def view_post_message_3 cbor_head_def)

text \<open>The state after a successful message_1: a configured context awaits message_3.\<close>

definition ref_awaiting :: "(bool, coap_msg, unit, bool ref_ctx, nat, unit) edhoc_state \<Rightarrow> bool" where
  "ref_awaiting s \<longleftrightarrow> edhoc_ctx_active s \<and> \<not> oscore_ready s \<and>
     rc_config (edhoc_ctx s) = responder_config ref_env"

lemma ref_drive_1:
  "\<exists>s1. edhoc_drive ref_env s True [0x03] 1 = (0, [0x41, 0x00], 2, s1) \<and> ref_awaiting s1"
proof -
  obtain s1 where 1: "edhoc_setup ref_env (edhoc_reset ref_env (k_mutex_lock s)) = (0, s1)"
    and c: "rc_config (edhoc_ctx s1) = responder_config ref_env"
    using ref_setup by blast
  define s2 where "s2 = s1\<lparr>edhoc_ctx_active := True\<rparr>"
  have p: "edhoc_message_1_process ref_edhoc [0x03] 1 w k = (0, k, w)"
    "edhoc_message_2_compose ref_edhoc EDHOC_MSG_MAX w k = (0, [0x41, 0x00], 2, k, w)"
    for w :: bool and k
    by (simp_all add: ref_edhoc_def EDHOC_MSG_MAX_def)
  have d: "edhoc_drive ref_env s True [0x03] 1 = (0, [0x41, 0x00], 2, k_mutex_unlock s2)"
    by (simp add: edhoc_drive_def edhoc_message_1_def Let_def 1 ref_edhoc_sel
        on_ctx_def p s2_def)
  moreover have "rc_config (edhoc_ctx (k_mutex_unlock s2)) = responder_config ref_env"
    by (simp add: s2_def c)
  ultimately show ?thesis
    using drive_message_1(1,2) [OF d] by (auto simp: ref_awaiting_def ref_edhoc_sel)
qed

lemma ref_drive_3:
  assumes "ref_awaiting s"
  shows "\<exists>s1. edhoc_drive ref_env s False [0x2a] 1 = (0, [0x40], 1, s1) \<and> oscore_ready s1"
proof -
  have a: "edhoc_ctx_active s" and c: "cf_creds (rc_config (edhoc_ctx s)) = Some (responder_credentials ref_env)"
    using assms by (simp_all add: ref_awaiting_def responder_config_def)
  have "fst (cred_verify board_edhoc ref_device_h (ref_received [0x2a])) = 0"
    by (simp add: cred_verify_def ref_received_def ref_device_h_def ref_edhoc_sel Let_def)
  then have m3: "\<exists>k. edhoc_message_3_process ref_edhoc [0x2a] 1 (world s) (edhoc_ctx s) = (0, k, world s)"
    by (simp add: ref_edhoc_sel ref_message_3_def c responder_credentials_def Let_def)
  have m4: "edhoc_message_4_compose ref_edhoc EDHOC_MSG_MAX w k = (0, [0x40], 1, k, w)" for w :: bool and k
    by (simp add: ref_edhoc_def EDHOC_MSG_MAX_def)
  have dv: "fst (derive_and_init_oscore ref_env t) = 0" for t
    by (simp add: derive_and_init_oscore_def ref_edhoc_def ref_oscore_def Let_def)
  obtain s1 where d: "edhoc_drive ref_env s False [0x2a] 1 = (0, [0x40], 1, s1)"
    using m3 a dv m4
    by (auto simp: edhoc_drive_def edhoc_message_3_def Let_def ref_edhoc_sel on_ctx_def prod_eq_iff split_beta)
  with drive_message_3(2) [OF d] a show ?thesis by (simp add: ref_edhoc_sel)
qed

subsection \<open>What the EDHOC resource promises\<close>

text \<open>The mutex is released on every path: after any POST its lock count is what it was before.\<close>

lemma edhoc_post_releases_mutex:
  "edhoc_mtx (snd (edhoc_post E s res req addr)) = edhoc_mtx s"
proof -
  obtain r s' where p: "edhoc_post E s res req addr = (r, s')" by fastforce
  then have "edhoc_mtx s' = edhoc_mtx s"
  proof (cases rule: edhoc_post_cases)
    case (sent b msg n out len s1 p r0)
    then have "s' = snd (resource_send (plat E) s1 res p addr)" by simp
    with drive_frame(3) [OF sent(2)] show ?thesis by simp
  qed (auto dest: drive_frame(3))
  with p show ?thesis by simp
qed

text \<open>C9: whatever the POST, the handler either transmits nothing and returns a negative error, or
  transmits exactly one packet, to the requester: a 2.04 ACK echoing its message ID and token that
  carries exactly the composed EDHOC message.\<close>

theorem edhoc_post_replies:
  assumes "coap_laws (coap E) V W" and "code_laws (edhoc E)" and "compose_laws (edhoc E)"
    and "edhoc_post E s res req addr = (r, s')"
  shows "(r < 0 \<and> sent s' = sent s) \<or>
         (\<exists>b msg n out len s1 p. framing (coap E) req = Inr (b, msg, n) \<and>
            edhoc_drive E s b msg n = (EDHOC_SUCCESS (edhoc E), out, len, s1) \<and>
            sent s' = sent s @ [(p, addr)] \<and>
            V p = ack (V req) COAP_RESPONSE_CODE_CHANGED
                    (if len = 0 then None else Some (take (unat len) out)))"
  using assms(4)
proof (cases rule: edhoc_post_cases)
  case malformed
  with framing_error show ?thesis by (fastforce simp: EINVAL_def)
next
  case (failed b msg n rc out len)
  with drive_frame(2) [OF failed(2)] show ?thesis by (simp add: EBADMSG_def)
next
  case (unsent b msg n out len p)
  with drive_frame(2) [OF unsent(2)] show ?thesis by simp
next
  case (sent b msg n out len s1 p r0)
  then have "sent s' = sent s @ [(p, addr)]"
    using drive_frame(2) [OF sent(2)] send_frame(2) [of "plat E" s1 res p addr] by simp
  with sent(1,2) reply_view [OF assms(1) sent(3,4) drive_out [OF assms(3,2) sent(2)]] show ?thesis
    by blast
qed

theorem edhoc_post_replies_witness:
  "\<exists>r s' p. edhoc_post ref_env ref_boot edhoc_resource post_message_1 () = (r, s') \<and>
     sent s' = [(p, ())] \<and> m_payload (ref_view p) = Some [0x41, 0x00]"
proof -
  obtain r s' where p: "edhoc_post ref_env ref_boot edhoc_resource post_message_1 () = (r, s')" by fastforce
  obtain s1 where d: "edhoc_drive ref_env ref_boot True [0x03] 1 = (0, [0x41, 0x00], 2, s1)"
    using ref_drive_1 by blast
  have fits: "0 \<le> r0" if "edhoc_reply ref_lib post_message_1 [0x41, 0x00] 2 = (r0, q)" for r0 q
    using reply_fits_iff [OF ref_coap_laws ref_space_laws that] by (simp add: reply_size_def view_post_message_1)
  from p have "\<not> r < 0"
    by (cases rule: edhoc_post_cases)
      (use d fits in \<open>auto simp: framing_post_message_1 ref_edhoc_sel resource_send_def ref_platform_def\<close>)
  moreover have "sent ref_boot = []" by (simp add: ref_boot_def)
  ultimately show ?thesis
    using edhoc_post_replies [of ref_env ref_view id, OF _ _ _ p] p d
    by (auto simp: ref_coap_laws ref_code_laws ref_compose_laws framing_post_message_1 ref_edhoc_sel ack_def)
qed

text \<open>C10: the session is committed before the reply is built: when the EDHOC engine has accepted the
  message, its outcome is kept, and the reply is transmitted exactly when header, token, marker and
  message fit the 256-byte buffer. A composed message of up to 256 bytes is allowed, so a long one
  leaves a completed handshake without an answer.\<close>

theorem edhoc_post_sends_iff_fits:
  assumes "coap_laws (coap E) V W" and "space_laws (coap E)" and "code_laws (edhoc E)"
    and "compose_laws (edhoc E)"
    and "framing (coap E) req = Inr (b, msg, n)"
    and "edhoc_drive E s b msg n = (EDHOC_SUCCESS (edhoc E), out, len, s1)"
    and "edhoc_post E s res req addr = (r, s')"
  shows "oscore_ready s' = oscore_ready s1 \<and> edhoc_ctx_active s' = edhoc_ctx_active s1 \<and>
         (if reply_size (V req) len \<le> 256 then length (sent s') = length (sent s) + 1
          else sent s' = sent s \<and> r < 0)"
  using assms(7)
proof (cases rule: edhoc_post_cases)
  case (unsent b' msg' n' out' len' p)
  with assms(5,6) reply_fits_iff [OF assms(1,2), of req out len r p] drive_out [OF assms(4,3,6)]
    drive_frame(2) [OF assms(6)]
  show ?thesis by auto
next
  case (sent b' msg' n' out' len' s1' p r0)
  with assms(5,6) have "s' = snd (resource_send (plat E) s1 res p addr)" "len' = len" "out' = out" by auto
  with sent reply_fits_iff [OF assms(1,2), of req out len r0 p] drive_out [OF assms(4,3,6)]
    drive_frame(2) [OF assms(6)]
  show ?thesis by auto
qed (use assms(5,6) in auto)

theorem edhoc_post_sends_iff_fits_witness:
  "\<exists>r s'. edhoc_post ref_env ref_boot edhoc_resource post_message_1 () = (r, s') \<and>
     length (sent s') = 1 \<and> edhoc_ctx_active s'"
proof -
  obtain r s' where p: "edhoc_post ref_env ref_boot edhoc_resource post_message_1 () = (r, s')" by fastforce
  obtain s1 where d: "edhoc_drive ref_env ref_boot True [0x03] 1 = (0, [0x41, 0x00], 2, s1)"
    and a: "ref_awaiting s1"
    using ref_drive_1 by blast
  have "edhoc_ctx_active s' = edhoc_ctx_active s1 \<and> length (sent s') = length (sent ref_boot) + 1"
    using edhoc_post_sends_iff_fits [of ref_env ref_view id post_message_1 True "[0x03]" 1 ref_boot
        "[0x41, 0x00]" 2 s1, OF _ _ _ _ _ _ p] d
    by (simp add: ref_coap_laws ref_space_laws ref_code_laws ref_compose_laws framing_post_message_1
        ref_edhoc_sel reply_size_def view_post_message_1)
  with a p show ?thesis by (simp add: ref_awaiting_def ref_boot_def)
qed

end
