(* ===== verification/Service.thy ===== *)
theory Service
  imports Edhoc_Oscore
begin

text \<open>
  The CoAP service as a whole: the resources the sources register, the firmware state at boot, and
  the service as a machine whose steps are calls of the registered handlers with arbitrary packets
  (the socket loop that parses datagrams and picks the handler is Zephyr's). Its session is refined
  by a three-phase abstract machine; the invariants of the session hold in every reachable state.
\<close>

subsection \<open>Resources, boot and steps\<close>

definition coap_server_resources :: "coap_resource list" where
  "coap_server_resources = [hello_resource, led_resource, edhoc_resource, oscore_root_resource]"

type_synonym ('m, 'a) call = "coap_handler \<times> coap_resource \<times> 'm coap_packet_scheme \<times> 'a"

definition serve ::
  "('w, 'm, 'o, 'a, 'ec, 'oc, 'x, 'd, 'h) env \<Rightarrow> u16 \<Rightarrow> ('w, 'm, 'a, 'ec, 'oc, 'x) edhoc_state \<Rightarrow>
   ('m, 'a) call \<Rightarrow> int \<times> ('w, 'm, 'a, 'ec, 'oc, 'x) edhoc_state" where
  "serve E msg_size s call =
     (case call of (h, res, req, addr) \<Rightarrow>
        (case h of
           App_request \<Rightarrow> app_request (coap E) (plat E) msg_size s res req addr
         | Edhoc_post \<Rightarrow> edhoc_post E s res req addr
         | Oscore_post \<Rightarrow> oscore_post E s res req addr))"

text \<open>The statics at power-on: zero, so no handshake, no OSCORE context, the LED off.\<close>

definition booted :: "('w, 'm, 'a, 'ec, 'oc, 'x) edhoc_state \<Rightarrow> bool" where
  "booted s \<longleftrightarrow> \<not> led_state s \<and> sent s = [] \<and> \<not> oscore_ready s \<and> \<not> edhoc_ctx_active s \<and>
     edhoc_mtx s = 0 \<and> oscore_master_secret s = replicate 16 0 \<and> oscore_master_salt s = replicate 8 0 \<and>
     oscore_sender_id s = replicate 8 0 \<and> oscore_recipient_id s = replicate 8 0"

inductive reachable ::
  "('w, 'm, 'o, 'a, 'ec, 'oc, 'x, 'd, 'h) env \<Rightarrow> u16 \<Rightarrow> ('w, 'm, 'a, 'ec, 'oc, 'x) edhoc_state \<Rightarrow> bool"
  for E n where
  boot: "booted s \<Longrightarrow> reachable E n s"
| call: "reachable E n s \<Longrightarrow> serve E n s c = (r, s') \<Longrightarrow> reachable E n s'"

subsection \<open>The OSCORE context and the buffers behind it\<close>

text \<open>
  The contexts that come from an initialisation with the given buffer contents by protecting and
  unprotecting messages with the same Sender ID storage.
\<close>

inductive derived ::
  "('w, 'oc) uoscore \<Rightarrow> u8 list \<Rightarrow> u8 list \<Rightarrow> u8 list \<Rightarrow> u8 list \<Rightarrow> 'oc \<Rightarrow> bool"
  for U secret salt sid rid where
  init: "oscore_context_init U (oscore_params secret salt sid sid_len rid rid_len) w oc = (ok, oc', w')
         \<Longrightarrow> derived U secret salt sid rid oc'"
| unprotect: "derived U secret salt sid rid oc \<Longrightarrow>
         oscore2coap U sid bs n cap w oc = (e, out, len, oc', w') \<Longrightarrow> derived U secret salt sid rid oc'"
| protect: "derived U secret salt sid rid oc \<Longrightarrow>
         coap2oscore U sid bs n cap w oc = (e, out, len, oc', w') \<Longrightarrow> derived U secret salt sid rid oc'"

definition session_ok ::
  "('w, 'm, 'o, 'a, 'ec, 'oc, 'x, 'd, 'h) env \<Rightarrow> ('w, 'm, 'a, 'ec, 'oc, 'x) edhoc_state \<Rightarrow> bool" where
  "session_ok E s \<longleftrightarrow> \<not> (edhoc_ctx_active s \<and> oscore_ready s) \<and>
     (oscore_ready s \<longrightarrow> derived (oscore E) (oscore_master_secret s) (oscore_master_salt s)
        (oscore_sender_id s) (oscore_recipient_id s) (oscore_ctx s))"

lemma session_ok_oscore_part:
  "oscore_part s' = oscore_part s \<Longrightarrow> oscore_ready s' = oscore_ready s \<Longrightarrow>
   edhoc_ctx_active s' = edhoc_ctx_active s \<Longrightarrow> session_ok E s \<Longrightarrow> session_ok E s'"
  by (simp add: session_ok_def oscore_part_def)

lemma derive_derived:
  "derive_and_init_oscore E s = (0, s') \<Longrightarrow>
   derived (oscore E) (oscore_master_secret s') (oscore_master_salt s') (oscore_sender_id s')
     (oscore_recipient_id s') (oscore_ctx s')"
  by (auto simp: derive_and_init_oscore_def Let_def EIO_def intro: derived.init
      split: prod.splits if_splits)

lemma message_3_derived:
  assumes "edhoc_message_3 E s msg n = (0, out, len, s')" and "EDHOC_SUCCESS (edhoc E) = 0"
  shows "derived (oscore E) (oscore_master_secret s') (oscore_master_salt s') (oscore_sender_id s')
     (oscore_recipient_id s') (oscore_ctx s')"
proof -
  from assms obtain s0 s1 where d: "derive_and_init_oscore E s0 = (0, s1)" and "s' = edhoc_close E s1"
    by (auto simp: edhoc_message_3_def Let_def EINVAL_def split: prod.splits if_splits)
  with derive_derived [OF d] show ?thesis by simp
qed

lemma drive_session_ok:
  assumes "session_ok E s" and "edhoc_drive E s b msg n = (rc, out, len, s')"
    and z: "EDHOC_SUCCESS (edhoc E) = 0"
  shows "session_ok E s'"
proof (cases b)
  case True
  with drive_message_1 assms(2) show ?thesis by (fastforce simp: session_ok_def)
next
  case False
  show ?thesis
  proof (cases "edhoc_ctx_active s")
    case False
    with \<open>\<not> b\<close> drive_message_3_idle [OF False, of E msg n] assms show ?thesis by simp
  next
    case True
    with assms(1) have "\<not> oscore_ready s" by (simp add: session_ok_def)
    moreover obtain s1 where m: "edhoc_message_3 E (k_mutex_lock s) msg n = (rc, out, len, s1)"
      and s': "s' = k_mutex_unlock s1"
      using assms(2) \<open>\<not> b\<close> by (auto simp: edhoc_drive_def Let_def split: prod.splits)
    ultimately have "session_ok E s1"
      using message_3_frame [OF m] message_3_ready [OF m] message_3_derived [of E "k_mutex_lock s" msg n out len s1] m True z
      by (auto simp: session_ok_def)
    then show ?thesis by (rule session_ok_oscore_part [rotated 3]) (simp_all add: s')
  qed
qed

lemma edhoc_post_session_ok:
  assumes "session_ok E s" and "edhoc_post E s res req addr = (r, s')"
    and z: "EDHOC_SUCCESS (edhoc E) = 0"
  shows "session_ok E s'"
  using assms(2)
proof (cases rule: edhoc_post_cases)
  case malformed
  with assms(1) show ?thesis by simp
next
  case (failed b msg n rc out len)
  from drive_session_ok [OF assms(1) failed(2) z] show ?thesis .
next
  case (unsent b msg n out len p)
  from drive_session_ok [OF assms(1) unsent(2) z] show ?thesis .
next
  case (sent b msg n out len s1 p r0)
  have "s' = snd (resource_send (plat E) s1 res p addr)" using sent(5) by simp
  then show ?thesis
    by (intro session_ok_oscore_part [OF _ _ _ drive_session_ok [OF assms(1) sent(2) z]]) simp_all
qed

text \<open>
  Unprotecting and protecting keep the context derived from the same buffers.
\<close>

lemma session_ok_step:
  assumes "session_ok E s" and "oscore_ready s"
    and "oscore2coap (oscore E) (oscore_sender_id s) bs n cap w0 (oscore_ctx s) = (e, out, len, oc, w) \<or>
         coap2oscore (oscore E) (oscore_sender_id s) bs n cap w0 (oscore_ctx s) = (e, out, len, oc, w)"
  shows "session_ok E (oscore_step s oc w)"
  using assms by (auto simp: session_ok_def intro: derived.unprotect derived.protect)

lemma inner_request_step:
  "inner_request E s req = (i, s') \<Longrightarrow> \<exists>e out len oc w.
   oscore2coap (oscore E) (oscore_sender_id s) (data req) (ucast (offset req)) OSCORE_BUF_MAX (world s)
     (oscore_ctx s) = (e, out, len, oc, w) \<and> s' = oscore_step s oc w"
  by (auto simp: inner_request_def Let_def split: prod.splits)

lemma inner_request_frame:
  assumes "inner_request E s req = (i, s')"
  shows "oscore_ready s' = oscore_ready s" "edhoc_ctx_active s' = edhoc_ctx_active s"
    "edhoc_mtx s' = edhoc_mtx s" "sent s' = sent s" "led_state s' = led_state s"
    "oscore_sender_id s' = oscore_sender_id s"
  using inner_request_step [OF assms] by auto

lemma dispatch_session_ok:
  assumes "session_ok E s" and "coap_server_dispatch_inner C P s req n = (r, p, s')"
  shows "session_ok E s'"
  using dispatch_edhoc_frame [OF assms(2)] assms(1) by (auto intro: session_ok_oscore_part)

lemma oscore_post_session_ok:
  assumes ok: "session_ok E s" and "oscore_post E s res req addr = (r, s')"
  shows "session_ok E s'"
proof -
  have inner: "session_ok E s1" "oscore_ready s1"
    if "inner_request E s req = (i, s1)" "oscore_ready s" for i s1
    using inner_request_step [OF that(1)] session_ok_step [OF ok that(2)]
      inner_request_frame(1) [OF that(1)] that(2) by blast+
  show ?thesis
    using assms(2)
  proof (cases rule: oscore_post_cases)
    case idle
    with ok show ?thesis by simp
  next
    case rejected
    with inner show ?thesis by blast
  next
    case (undispatched q s1 p)
    with inner dispatch_session_ok show ?thesis by blast
  next
    case (unprotected q s1 r1 p s2 e out len oc w)
    have "session_ok E s2" "oscore_ready s2"
      using inner [OF unprotected(2,1)] dispatch_session_ok [OF _ unprotected(3)]
        dispatch_edhoc_frame(1) [OF unprotected(3)] by auto
    from session_ok_step [OF this] unprotected(5,8) show ?thesis by blast
  next
    case (sent q s1 r1 p s2 out len oc w)
    have "session_ok E s2" "oscore_ready s2"
      using inner [OF sent(2,1)] dispatch_session_ok [OF _ sent(3)]
        dispatch_edhoc_frame(1) [OF sent(3)] by auto
    from session_ok_step [OF this] sent(5) have "session_ok E (oscore_step s2 oc w)" by blast
    moreover have "s' = snd (resource_send (plat E) (oscore_step s2 oc w) res
        (oscore_packet (coap E) out len) addr)" using sent(6) by simp
    ultimately show ?thesis by (auto intro: session_ok_oscore_part)
  qed
qed

lemma app_request_edhoc_frame:
  assumes "app_request C P n s res req addr = (r, s')"
  shows "oscore_ready s' = oscore_ready s" "edhoc_ctx_active s' = edhoc_ctx_active s"
    "edhoc_mtx s' = edhoc_mtx s" "oscore_part s' = oscore_part s" "edhoc_ctx s' = edhoc_ctx s"
proof -
  obtain r0 p s0 where d: "coap_server_dispatch_inner C P s req n = (r0, p, s0)" by (metis prod_cases3)
  have "s' = s0 \<or> s' = snd (resource_send P s0 res p addr)"
    using assms d by (auto simp: app_request_def split: if_splits)
  with dispatch_edhoc_frame [OF d] show "oscore_ready s' = oscore_ready s"
    "edhoc_ctx_active s' = edhoc_ctx_active s" "edhoc_mtx s' = edhoc_mtx s"
    "oscore_part s' = oscore_part s" "edhoc_ctx s' = edhoc_ctx s" by auto
qed

lemma serve_session_ok:
  assumes "session_ok E s" and "serve E n s c = (r, s')" and "EDHOC_SUCCESS (edhoc E) = 0"
  shows "session_ok E s'"
proof (cases c)
  case (fields h res req addr)
  show ?thesis
  proof (cases h)
    case App_request
    with assms(2) fields have "app_request (coap E) (plat E) n s res req addr = (r, s')"
      by (simp add: serve_def)
    from app_request_edhoc_frame [OF this] assms(1) show ?thesis by (auto intro: session_ok_oscore_part)
  next
    case Edhoc_post
    with assms fields edhoc_post_session_ok show ?thesis by (fastforce simp: serve_def)
  next
    case Oscore_post
    with assms fields oscore_post_session_ok show ?thesis by (fastforce simp: serve_def)
  qed
qed

lemma booted_session_ok: "booted s \<Longrightarrow> session_ok E s"
  by (simp add: booted_def session_ok_def)

lemma reachable_session_ok:
  assumes "reachable E n s" and "EDHOC_SUCCESS (edhoc E) = 0"
  shows "session_ok E s"
  using assms by (induction rule: reachable.induct) (auto intro: booted_session_ok serve_session_ok)

subsection \<open>The abstract session\<close>

text \<open>
  What the session promises: no handshake, one that awaits message_3, or a secured one. A message_1
  restarts it whatever its phase; message_3 matters only while it is awaited.
\<close>

datatype phase = Idle | Await3 | Secured

fun next_phase :: "phase \<Rightarrow> edhoc_event \<Rightarrow> phase" where
  "next_phase p Ignored = p"
| "next_phase p (Msg1 accepted) = (if accepted then Await3 else Idle)"
| "next_phase Await3 (Msg3 accepted) = (if accepted then Secured else Idle)"
| "next_phase p (Msg3 accepted) = p"

definition phase :: "('w, 'm, 'a, 'ec, 'oc, 'x) edhoc_state \<Rightarrow> phase" where
  "phase s = (if oscore_ready s then Secured else if edhoc_ctx_active s then Await3 else Idle)"

definition service_event ::
  "('w, 'm, 'o, 'a, 'ec, 'oc, 'x, 'd, 'h) env \<Rightarrow> ('w, 'm, 'a, 'ec, 'oc, 'x) edhoc_state \<Rightarrow>
   ('m, 'a) call \<Rightarrow> edhoc_event" where
  "service_event E s call =
     (case call of (h, res, req, addr) \<Rightarrow> if h = Edhoc_post then edhoc_event E s req else Ignored)"

lemma phase_cong:
  "oscore_ready s' = oscore_ready s \<Longrightarrow> edhoc_ctx_active s' = edhoc_ctx_active s \<Longrightarrow> phase s' = phase s"
  by (simp add: phase_def)

lemma drive_phase:
  assumes "session_ok E s" and "EDHOC_SUCCESS (edhoc E) = 0"
    and "edhoc_drive E s b msg n = (rc, out, len, s')"
  shows "phase s' = next_phase (phase s) ((if b then Msg1 else Msg3) (rc = 0))"
proof (cases b)
  case True
  with drive_message_1 [of E s msg n rc out len s'] assms show ?thesis by (simp add: phase_def)
next
  case False
  show ?thesis
  proof (cases "edhoc_ctx_active s")
    case True
    with False assms have d: "edhoc_drive E s False msg n = (rc, out, len, s')" "\<not> oscore_ready s"
      by (auto simp: session_ok_def)
    with drive_message_3(1,2) [OF d(1)] True False assms(2) show ?thesis by (simp add: phase_def)
  next
    case idle: False
    from False drive_message_3_idle [OF idle, of E msg n] assms(3) have "s' = s" by simp
    with idle False show ?thesis by (cases "oscore_ready s") (simp_all add: phase_def)
  qed
qed

lemma edhoc_post_phase:
  assumes "session_ok E s" and z: "EDHOC_SUCCESS (edhoc E) = 0"
    and "edhoc_post E s res req addr = (r, s')"
  shows "phase s' = next_phase (phase s) (edhoc_event E s req)"
  using assms(3)
proof (cases rule: edhoc_post_cases)
  case malformed
  then show ?thesis by (simp add: edhoc_event_def)
next
  case (failed b msg n rc out len)
  with drive_phase [OF assms(1) z failed(2)] z show ?thesis by (simp add: edhoc_event_def)
next
  case (unsent b msg n out len p)
  with drive_phase [OF assms(1) z unsent(2)] z show ?thesis by (simp add: edhoc_event_def)
next
  case (sent b msg n out len s1 p r0)
  then have "s' = snd (resource_send (plat E) s1 res p addr)" by simp
  then have "phase s' = phase s1" by (intro phase_cong) simp_all
  with sent drive_phase [OF assms(1) z sent(2)] z show ?thesis by (simp add: edhoc_event_def)
qed

text \<open>The handshake's part of the state, which only the EDHOC resource changes.\<close>

definition handshake_part ::
  "('w, 'm, 'a, 'ec, 'oc, 'x) edhoc_state \<Rightarrow> bool \<times> bool \<times> nat \<times> 'ec" where
  "handshake_part s = (oscore_ready s, edhoc_ctx_active s, edhoc_mtx s, edhoc_ctx s)"

lemma oscore_post_handshake:
  assumes "oscore_post E s res req addr = (r, s')"
  shows "handshake_part s' = handshake_part s"
proof -
  have i: "handshake_part s1 = handshake_part s" if "inner_request E s req = (x, s1)" for x s1
    using inner_request_step [OF that] by (auto simp: handshake_part_def)
  have d: "handshake_part s2 = handshake_part s1"
    if "coap_server_dispatch_inner (coap E) (plat E) s1 q 256 = (r1, p, s2)" for s1 q r1 p s2
    using dispatch_edhoc_frame [OF that] by (simp add: handshake_part_def)
  show ?thesis
    using assms
  proof (cases rule: oscore_post_cases)
    case rejected
    with i show ?thesis by simp
  next
    case (undispatched q s1 p)
    with i d show ?thesis by metis
  next
    case (unprotected q s1 r1 p s2 e out len oc w)
    with i d [OF unprotected(3)] show ?thesis by (simp add: handshake_part_def)
  next
    case (sent q s1 r1 p s2 out len oc w)
    then have "s' = snd (resource_send (plat E) (oscore_step s2 oc w) res
        (oscore_packet (coap E) out len) addr)" by simp
    with i sent(2) d [OF sent(3)] show ?thesis by (simp add: handshake_part_def)
  qed simp
qed

lemma oscore_post_frame:
  assumes "oscore_post E s res req addr = (r, s')"
  shows "oscore_ready s' = oscore_ready s" "edhoc_ctx_active s' = edhoc_ctx_active s"
    "edhoc_mtx s' = edhoc_mtx s" "edhoc_ctx s' = edhoc_ctx s"
  using oscore_post_handshake [OF assms] by (simp_all add: handshake_part_def)

lemma serve_phase:
  assumes "session_ok E s" and z: "EDHOC_SUCCESS (edhoc E) = 0"
  shows "phase (snd (serve E n s c)) = next_phase (phase s) (service_event E s c)"
proof (cases c)
  case (fields h res req addr)
  obtain r s' where e: "serve E n s c = (r, s')" by fastforce
  have "phase s' = next_phase (phase s) (service_event E s c)"
  proof (cases h)
    case App_request
    with fields e have "app_request (coap E) (plat E) n s res req addr = (r, s')" by (simp add: serve_def)
    from phase_cong [OF app_request_edhoc_frame(1,2) [OF this]] App_request fields show ?thesis
      by (simp add: service_event_def)
  next
    case Edhoc_post
    with fields e have "edhoc_post E s res req addr = (r, s')" by (simp add: serve_def)
    from edhoc_post_phase [OF assms this] Edhoc_post fields show ?thesis by (simp add: service_event_def)
  next
    case Oscore_post
    with fields e have "oscore_post E s res req addr = (r, s')" by (simp add: serve_def)
    from phase_cong [OF oscore_post_frame(1,2) [OF this]] Oscore_post fields show ?thesis
      by (simp add: service_event_def)
  qed
  with e show ?thesis by simp
qed

interpretation session: refinement_step "\<lambda>s c. snd (serve E n s c)"
  "\<lambda>s. EDHOC_SUCCESS (edhoc E) = 0 \<and> session_ok E s" next_phase phase "service_event E" for E n
proof unfold_locales
  show "EDHOC_SUCCESS (edhoc E) = 0 \<and> session_ok E (snd (serve E n s c))"
    if "EDHOC_SUCCESS (edhoc E) = 0 \<and> session_ok E s" for s c
    using that serve_session_ok [of E s n c] by (metis prod.collapse)
  show "phase (snd (serve E n s c)) = next_phase (phase s) (service_event E s c)"
    if "EDHOC_SUCCESS (edhoc E) = 0 \<and> session_ok E s" for s c
    using that serve_phase by blast
qed

subsection \<open>Traces of the abstract session\<close>

definition no_msg1 :: "edhoc_event list \<Rightarrow> bool" where
  "no_msg1 es \<longleftrightarrow> (\<forall>b. Msg1 b \<notin> set es)"

text \<open>A completed handshake: an accepted message_1, nothing of the protocol in between, an accepted
  message_3, and no message_1 since.\<close>

definition handshake_done :: "edhoc_event list \<Rightarrow> bool" where
  "handshake_done tr \<longleftrightarrow> (\<exists>pre mid post. tr = pre @ Msg1 True # mid @ Msg3 True # post \<and>
     set mid \<subseteq> {Ignored} \<and> no_msg1 post)"

definition handshake_open :: "edhoc_event list \<Rightarrow> bool" where
  "handshake_open tr \<longleftrightarrow> (\<exists>pre mid. tr = pre @ Msg1 True # mid \<and> set mid \<subseteq> {Ignored})"

lemma run_ignored: "set mid \<subseteq> {Ignored} \<Longrightarrow> run next_phase p mid = p"
  by (induction mid) auto

lemma run_secured: "no_msg1 post \<Longrightarrow> run next_phase Secured post = Secured"
proof (induction post)
  case (Cons e post)
  moreover have "next_phase Secured e = Secured" using Cons.prems by (cases e) (auto simp: no_msg1_def)
  ultimately show ?case by (simp add: no_msg1_def)
qed simp

lemma run_open: "handshake_open tr \<Longrightarrow> run next_phase p tr = Await3"
  by (auto simp: handshake_open_def run_append run_ignored)

lemma run_done: "handshake_done tr \<Longrightarrow> run next_phase p tr = Secured"
  by (auto simp: handshake_done_def run_append run_ignored run_secured)

lemma handshake_open_snoc: "handshake_open tr \<Longrightarrow> handshake_open (tr @ [Ignored])"
  unfolding handshake_open_def by fastforce

lemma handshake_open_msg1: "handshake_open (tr @ [Msg1 True])"
  unfolding handshake_open_def by fastforce

lemma handshake_done_msg3: "handshake_open tr \<Longrightarrow> handshake_done (tr @ [Msg3 True])"
  unfolding handshake_done_def handshake_open_def no_msg1_def by fastforce

lemma handshake_done_snoc:
  assumes "handshake_done tr" and "\<forall>b. e \<noteq> Msg1 b"
  shows "handshake_done (tr @ [e])"
proof -
  obtain pre mid post where tr: "tr = pre @ Msg1 True # mid @ Msg3 True # post"
    "set mid \<subseteq> {Ignored}" "no_msg1 post"
    using assms(1) by (auto simp: handshake_done_def)
  moreover have "no_msg1 (post @ [e])" using tr(3) assms(2) by (auto simp: no_msg1_def)
  ultimately show ?thesis unfolding handshake_done_def by fastforce
qed

lemma run_from_idle:
  "(run next_phase Idle tr = Secured \<longrightarrow> handshake_done tr) \<and>
   (run next_phase Idle tr = Await3 \<longrightarrow> handshake_open tr)"
proof (induction tr rule: rev_induct)
  case Nil
  show ?case by simp
next
  case (snoc e tr)
  then show ?case
    by (cases "run next_phase Idle tr"; cases e)
      (auto simp: run_append intro: handshake_open_snoc handshake_open_msg1 handshake_done_msg3
        handshake_done_snoc)
qed

lemma secured_iff: "run next_phase Idle tr = Secured \<longleftrightarrow> handshake_done tr"
  using run_from_idle run_done by blast

lemma booted_phase: "booted s \<Longrightarrow> phase s = Idle"
  by (simp add: booted_def phase_def)

subsection \<open>A handshake on the concrete firmware, as service steps\<close>

definition msg1_call :: "(coap_msg, unit) call" where
  "msg1_call = (Edhoc_post, edhoc_resource, post_message_1, ())"

definition msg3_call :: "(coap_msg, unit) call" where
  "msg3_call = (Edhoc_post, edhoc_resource, post_message_3, ())"

lemma ref_booted: "booted ref_boot"
  by (simp add: booted_def ref_boot_def)

lemma ref_zero: "EDHOC_SUCCESS (edhoc ref_env) = 0"
  by (simp add: ref_edhoc_sel)

lemma serve_msg1: "ref_awaiting (snd (serve ref_env n s msg1_call))"
proof -
  obtain s1 where d: "edhoc_drive ref_env s True [0x03] 1 = (0, [0x41, 0x00], 2, s1)" and a: "ref_awaiting s1"
    using ref_drive_1 by blast
  obtain r s' where p: "edhoc_post ref_env s edhoc_resource post_message_1 () = (r, s')" by fastforce
  then have "ref_awaiting s'"
  proof (cases rule: edhoc_post_cases)
    case (sent b msg k out len s2 p' r0)
    then have "s' = snd (resource_send (plat ref_env) s1 edhoc_resource p' ())"
      using d by (simp add: framing_post_message_1)
    with a show ?thesis by (simp add: ref_awaiting_def)
  qed (use d a in \<open>auto simp: framing_post_message_1 ref_edhoc_sel\<close>)
  with p show ?thesis by (simp add: serve_def msg1_call_def)
qed

lemma serve_msg3: "ref_awaiting s \<Longrightarrow> oscore_ready (snd (serve ref_env n s msg3_call))"
proof -
  assume "ref_awaiting s"
  then obtain s1 where d: "edhoc_drive ref_env s False [0x2a] 1 = (0, [0x40], 1, s1)" "oscore_ready s1"
    using ref_drive_3 by blast
  obtain r s' where p: "edhoc_post ref_env s edhoc_resource post_message_3 () = (r, s')" by fastforce
  then have "oscore_ready s'"
  proof (cases rule: edhoc_post_cases)
    case (sent b msg k out len s2 p' r0)
    then have "s' = snd (resource_send (plat ref_env) s1 edhoc_resource p' ())"
      using d by (simp add: framing_post_message_3)
    with d show ?thesis by simp
  qed (use d in \<open>auto simp: framing_post_message_3 ref_edhoc_sel\<close>)
  with p show ?thesis by (simp add: serve_def msg3_call_def)
qed

definition ref_secured :: "(bool, coap_msg, unit, bool ref_ctx, nat, unit) edhoc_state" where
  "ref_secured = run (\<lambda>s c. snd (serve ref_env 256 s c)) ref_boot [msg1_call, msg3_call]"

lemma ref_secured_ready: "oscore_ready ref_secured"
  using serve_msg3 [OF serve_msg1] by (simp add: ref_secured_def)

lemma reachable_run: "reachable E n s \<Longrightarrow> reachable E n (run (\<lambda>s c. snd (serve E n s c)) s calls)"
proof (induction calls arbitrary: s)
  case (Cons c calls)
  have "reachable E n (snd (serve E n s c))"
    using Cons.prems by (rule reachable.call [where c = c]) (rule prod.collapse [symmetric])
  from Cons.IH [OF this] show ?case by simp
qed simp

lemma ref_secured_reachable: "reachable ref_env 256 ref_secured"
  unfolding ref_secured_def by (intro reachable_run reachable.boot ref_booted)

subsection \<open>What the service promises\<close>

text \<open>C3: each step of the service, whichever handler runs on whatever packet, moves the session
  exactly as the abstract three-phase machine says.\<close>

theorem service_refines_phases:
  assumes "reachable E n s" and "EDHOC_SUCCESS (edhoc E) = 0"
  shows "phase (snd (serve E n s c)) = next_phase (phase s) (service_event E s c)"
  using reachable_session_ok [OF assms] assms(2) by (rule serve_phase)

theorem service_refines_phases_witness:
  "phase (snd (serve ref_env 256 ref_boot msg1_call)) = Await3"
proof -
  have "phase (snd (serve ref_env 256 ref_boot msg1_call)) =
      next_phase (phase ref_boot) (service_event ref_env ref_boot msg1_call)"
    by (rule service_refines_phases) (simp_all add: reachable.boot ref_booted ref_edhoc_sel)
  moreover obtain s1 where "edhoc_drive ref_env ref_boot True [0x03] 1 = (0, [0x41, 0x00], 2, s1)"
    using ref_drive_1 by blast
  ultimately show ?thesis
    by (simp add: service_event_def msg1_call_def edhoc_event_def framing_post_message_1 ref_edhoc_sel)
qed

text \<open>C2: after any sequence of requests from boot, the OSCORE context is marked ready if and only if
  the trace holds a completed handshake: an accepted message_1, then an accepted message_3 with no
  EDHOC message in between, and no message_1 after it.\<close>

theorem oscore_ready_iff_handshake:
  assumes "booted s" and "EDHOC_SUCCESS (edhoc E) = 0"
  shows "oscore_ready (run (\<lambda>s c. snd (serve E n s c)) s calls) \<longleftrightarrow>
         handshake_done (trace (\<lambda>s c. snd (serve E n s c)) (service_event E) s calls)"
proof -
  have "phase (run (\<lambda>s c. snd (serve E n s c)) s calls) =
      run next_phase Idle (trace (\<lambda>s c. snd (serve E n s c)) (service_event E) s calls)"
    using session.run_refines [of E s n calls] booted_session_ok [OF assms(1), of E] booted_phase [OF assms(1)]
      assms(2) by simp
  then show ?thesis by (auto simp: phase_def simp flip: secured_iff split: if_splits)
qed

theorem oscore_ready_iff_handshake_witness:
  "handshake_done (trace (\<lambda>s c. snd (serve ref_env 256 s c)) (service_event ref_env) ref_boot
     [msg1_call, msg3_call])"
  using oscore_ready_iff_handshake [OF ref_booted ref_zero, of 256 "[msg1_call, msg3_call]"]
    ref_secured_ready unfolding ref_secured_def by blast

text \<open>C4: in every reachable state the OSCORE context and a running handshake exclude each other, and
  a ready context is one derived from the key material now in the static buffers; in particular the
  Sender ID it refers to is still the one it was initialised with.\<close>

theorem oscore_context_valid:
  assumes "reachable E n s" and "EDHOC_SUCCESS (edhoc E) = 0" and "oscore_ready s"
  shows "\<not> edhoc_ctx_active s \<and>
         derived (oscore E) (oscore_master_secret s) (oscore_master_salt s) (oscore_sender_id s)
           (oscore_recipient_id s) (oscore_ctx s)"
  using reachable_session_ok [OF assms(1,2)] assms(3) by (simp add: session_ok_def)

theorem oscore_context_valid_witness:
  "derived (oscore ref_env) (oscore_master_secret ref_secured) (oscore_master_salt ref_secured)
     (oscore_sender_id ref_secured) (oscore_recipient_id ref_secured) (oscore_ctx ref_secured)"
  using oscore_context_valid [OF ref_secured_reachable ref_zero ref_secured_ready] by blast

text \<open>C15: while the OSCORE context stays ready, no request to the EDHOC resource touches it or the key
  material behind it.\<close>

theorem edhoc_post_keeps_live_context:
  assumes "reachable E n s" and "EDHOC_SUCCESS (edhoc E) = 0" and "oscore_ready s"
    and "edhoc_post E s res req addr = (r, s')" and "oscore_ready s'"
  shows "oscore_part s' = oscore_part s"
proof -
  have idle: "\<not> edhoc_ctx_active s"
    using reachable_session_ok [OF assms(1,2)] assms(3) by (simp add: session_ok_def)
  have drive: "oscore_part t = oscore_part s"
    if "edhoc_drive E s b msg k = (rc, out, len, t)" "oscore_ready t" for b msg k rc out len t
    using that drive_message_1(1) [of E s msg k rc out len t] drive_message_3_idle [OF idle, of E msg k]
    by (cases b) auto
  from assms(4) show ?thesis
  proof (cases rule: edhoc_post_cases)
    case (sent b msg k out len s1 p r0)
    then have "s' = snd (resource_send (plat E) s1 res p addr)" by simp
    with assms(5) drive [OF sent(2)] show ?thesis by simp
  qed (use assms(5) drive in auto)
qed

theorem edhoc_post_keeps_live_context_witness:
  "\<exists>r s'. edhoc_post ref_env ref_secured edhoc_resource post_message_3 () = (r, s') \<and>
     oscore_part s' = oscore_part ref_secured"
proof -
  obtain r s' where p: "edhoc_post ref_env ref_secured edhoc_resource post_message_3 () = (r, s')"
    by fastforce
  have "\<not> edhoc_ctx_active ref_secured"
    using reachable_session_ok [OF ref_secured_reachable ref_zero] ref_secured_ready
    by (simp add: session_ok_def)
  from drive_message_3_idle [OF this, of ref_env "[0x2a]" 1] p have "s' = ref_secured"
    by (auto simp: ref_edhoc_sel framing_post_message_3 EINVAL_def elim!: edhoc_post_cases)
  with p edhoc_post_keeps_live_context [OF ref_secured_reachable ref_zero ref_secured_ready p]
    ref_secured_ready show ?thesis by blast
qed

subsection \<open>Authentication\<close>

text \<open>A context that awaits message_3 is configured as the responder's.\<close>

definition configured ::
  "('w, 'm, 'o, 'a, 'ec, 'oc, 'x, 'd, 'h) env \<Rightarrow> ('ec \<Rightarrow> ('w, 'x, 'd) edhoc_config) \<Rightarrow>
   ('w, 'm, 'a, 'ec, 'oc, 'x) edhoc_state \<Rightarrow> bool" where
  "configured E cfg s \<longleftrightarrow> (edhoc_ctx_active s \<longrightarrow> cfg (edhoc_ctx s) = responder_config E)"

lemma message_1_configured:
  assumes "config_laws (edhoc E) cfg" and "edhoc_message_1 E s msg n = (EDHOC_SUCCESS (edhoc E), out, len, s')"
  shows "cfg (edhoc_ctx s') = responder_config E"
proof -
  let ?S = "EDHOC_SUCCESS (edhoc E)"
  obtain rc1 s1 where 1: "edhoc_setup E (edhoc_reset E s) = (rc1, s1)" by fastforce
  obtain rc2 c2 w2 where 2:
    "edhoc_message_1_process (edhoc E) msg n (world s1) (edhoc_ctx s1) = (rc2, c2, w2)"
    by (metis prod_cases3)
  obtain rc3 o3 n3 c3 w3 where 3:
    "edhoc_message_2_compose (edhoc E) EDHOC_MSG_MAX w2 c2 = (rc3, o3, n3, c3, w3)"
    by (metis prod_cases5)
  from assms(2) 1 2 3 have ok: "rc1 = ?S" "rc2 = ?S" "rc3 = ?S" and s': "edhoc_ctx s' = c3"
    by (auto simp: edhoc_message_1_def on_ctx_def Let_def split: if_splits)
  have "cfg c3 = cfg c2" "cfg c2 = cfg (edhoc_ctx s1)"
    using assms(1) 2 3 ok unfolding config_laws_def configures_def Let_def id_def by blast+
  with setup_config [OF assms(1)] 1 ok s' show ?thesis by simp
qed

lemma drive_configured:
  assumes "config_laws (edhoc E) cfg" and "configured E cfg s"
    and "edhoc_drive E s b msg n = (rc, out, len, s')"
  shows "configured E cfg s'"
proof (cases b)
  case True
  with assms(3) obtain s1 where m: "edhoc_message_1 E (k_mutex_lock s) msg n = (rc, out, len, s1)"
    and s': "s' = k_mutex_unlock s1"
    by (auto simp: edhoc_drive_def Let_def split: prod.splits)
  with message_1_outcome(2) [OF m] message_1_configured [OF assms(1)] show ?thesis
    by (auto simp: configured_def)
next
  case False
  with drive_message_3(1) [of E s msg n rc out len s'] assms(3) show ?thesis by (auto simp: configured_def)
qed

lemma serve_configured:
  assumes "config_laws (edhoc E) cfg" and "configured E cfg s" and "serve E n s c = (r, s')"
  shows "configured E cfg s'"
proof (cases c)
  case (fields h res req addr)
  show ?thesis
  proof (cases h)
    case App_request
    with assms(3) fields have a: "app_request (coap E) (plat E) n s res req addr = (r, s')"
      by (simp add: serve_def)
    from app_request_edhoc_frame(2,5) [OF a] assms(2) show ?thesis by (simp add: configured_def)
  next
    case Edhoc_post
    with assms(3) fields have "edhoc_post E s res req addr = (r, s')" by (simp add: serve_def)
    then show ?thesis
    proof (cases rule: edhoc_post_cases)
      case (sent b msg k out len s1 p r0)
      then have "s' = snd (resource_send (plat E) s1 res p addr)" by simp
      with drive_configured [OF assms(1,2) sent(2)] show ?thesis by (simp add: configured_def)
    qed (use assms(2) drive_configured [OF assms(1,2)] in auto)
  next
    case Oscore_post
    with assms(3) fields have "oscore_post E s res req addr = (r, s')" by (simp add: serve_def)
    then have "edhoc_ctx_active s' = edhoc_ctx_active s \<and> edhoc_ctx s' = edhoc_ctx s"
      by (intro conjI oscore_post_frame(2,4))
    with assms(2) show ?thesis by (simp add: configured_def)
  qed
qed

lemma reachable_configured:
  assumes "reachable E n s" and "config_laws (edhoc E) cfg"
  shows "configured E cfg s"
  using assms
proof (induction rule: reachable.induct)
  case (boot s)
  then show ?case by (simp add: booted_def configured_def)
next
  case (call s c r s')
  then show ?case by (blast intro: serve_configured)
qed

lemma message_3_success:
  assumes "edhoc_message_3 E s msg n = (EDHOC_SUCCESS (edhoc E), out, len, s')"
    and "EDHOC_SUCCESS (edhoc E) = 0"
  shows "edhoc_ctx_active s \<and>
    (\<exists>c w. edhoc_message_3_process (edhoc E) msg n (world s) (edhoc_ctx s) = (EDHOC_SUCCESS (edhoc E), c, w))"
proof -
  obtain rc c w where "edhoc_message_3_process (edhoc E) msg n (world s) (edhoc_ctx s) = (rc, c, w)"
    by (metis prod_cases3)
  with assms show ?thesis
    by (auto simp: edhoc_message_3_def on_ctx_def EINVAL_def Let_def split: if_splits prod.splits)
qed

lemma drive_becomes_ready:
  assumes z: "EDHOC_SUCCESS (edhoc E) = 0" and "\<not> oscore_ready s" and "oscore_ready s'"
    and d: "edhoc_drive E s b msg n = (rc, out, len, s')"
  shows "\<not> b \<and> edhoc_ctx_active s \<and>
    (\<exists>c w. edhoc_message_3_process (edhoc E) msg n (world s) (edhoc_ctx s) = (EDHOC_SUCCESS (edhoc E), c, w))"
proof -
  have b: "\<not> b" using assms drive_message_1(1) [of E s msg n rc out len s'] by auto
  have a: "edhoc_ctx_active s"
    using assms b drive_message_3_idle [of s E msg n] by auto
  have "rc = 0" using drive_message_3(2) [of E s msg n rc out len s'] a b assms by simp
  with d b obtain s1 where "edhoc_message_3 E (k_mutex_lock s) msg n = (EDHOC_SUCCESS (edhoc E), out, len, s1)"
    by (auto simp: edhoc_drive_def Let_def z split: prod.splits)
  from message_3_success [OF this z] a b show ?thesis by simp
qed

text \<open>C1: an OSCORE context comes only from an authenticated Initiator. When a POST turns a session
  that was not ready into a ready one, the call of \<open>edhoc_message_3_process\<close> it made succeeded, and
  the identifier the peer presented there is a kid that denotes h'2a', the one the generated
  credentials hold.\<close>

theorem oscore_ready_authenticated:
  assumes "reachable E n s" and laws: "config_laws (edhoc E) cfg" "verify_law (edhoc E) cfg peer"
      "code_laws (edhoc E)"
    and hdr: "device_header dr cred_r pi cred_i = Some (creds_h E)"
    and "\<not> oscore_ready s" and "edhoc_post E s res req addr = (r, s')" and "oscore_ready s'"
  shows "\<exists>msg k c w id. framing (coap E) req = Inr (False, msg, k) \<and>
           edhoc_message_3_process (edhoc E) msg k (world s) (edhoc_ctx s) = (EDHOC_SUCCESS (edhoc E), c, w) \<and>
           peer c = Some id \<and> label id = EDHOC_COSE_HEADER_KID \<and> denoted_kid (key_id id) = [0x2a]"
proof -
  have z: "EDHOC_SUCCESS (edhoc E) = 0" using laws(3) by (simp add: code_laws_def)
  obtain b msg k rc out len s1 where f: "framing (coap E) req = Inr (b, msg, k)"
    and d: "edhoc_drive E s b msg k = (rc, out, len, s1)" and "oscore_ready s1"
    using assms(7)
  proof (cases rule: edhoc_post_cases)
    case (sent b msg n out len s1 p r0)
    then have "s' = snd (resource_send (plat E) s1 res p addr)" by simp
    with that sent(1,2) assms(8) show ?thesis by simp
  qed (use that assms(6,8) in auto)
  with drive_becomes_ready [OF z assms(6) _ d] obtain c w where b: "\<not> b" and "edhoc_ctx_active s"
    and m3: "edhoc_message_3_process (edhoc E) msg k (world s) (edhoc_ctx s) = (EDHOC_SUCCESS (edhoc E), c, w)"
    by blast
  with reachable_configured [OF assms(1) laws(1)]
  have "cf_creds (cfg (edhoc_ctx s)) = Some (responder_credentials E)"
    by (simp add: configured_def responder_config_def)
  with laws(2) m3 obtain id where id: "peer c = Some id" "well_formed_key_id (key_id id)"
    "fst (verify (responder_credentials E) id) = EDHOC_SUCCESS (edhoc E)"
    unfolding verify_law_def by blast
  have K: "kid_wire_int (ED_KID_I (creds_h E)) = Some (ED_KID_I_INT (creds_h E))"
    "ED_KID_I (creds_h E) = 0x2a"
    using device_header_kid [OF hdr] by auto
  have "names_peer (ED_KID_I (creds_h E)) (ED_KID_I_INT (creds_h E)) id"
    using responder.success_iff [of "edhoc E" "creds_h E" id] laws(3) id(3)
    by (simp add: responder_credentials_def code_laws_def)
  with responder.names_peer_denoted [OF K(1) id(2)] K(2) id(1) f b m3 show ?thesis by auto
qed

definition ref_await :: "(bool, coap_msg, unit, bool ref_ctx, nat, unit) edhoc_state" where
  "ref_await = run (\<lambda>s c. snd (serve ref_env 256 s c)) ref_boot [msg1_call]"

lemma ref_await_props: "reachable ref_env 256 ref_await" "ref_awaiting ref_await"
  unfolding ref_await_def by (intro reachable_run reachable.boot ref_booted) (simp add: serve_msg1)

theorem oscore_ready_authenticated_witness:
  "\<exists>msg k c w id. framing ref_lib post_message_3 = Inr (False, msg, k) \<and>
     edhoc_message_3_process ref_edhoc msg k (world ref_await) (edhoc_ctx ref_await) = (0, c, w) \<and>
     rc_peer c = Some id \<and> denoted_kid (key_id id) = [0x2a]"
proof -
  obtain r s' where p: "edhoc_post ref_env ref_await edhoc_resource post_message_3 () = (r, s')" by fastforce
  have r: "oscore_ready s'" using serve_msg3 [OF ref_await_props(2), of 256] p
    by (simp add: serve_def msg3_call_def)
  have "\<not> oscore_ready ref_await" using ref_await_props(2) by (simp add: ref_awaiting_def)
  from oscore_ready_authenticated [OF ref_await_props(1) _ _ _ _ this p r, of rc_config rc_peer]
  show ?thesis
    using ref_config_laws ref_verify_law ref_code_laws ref_device_header by (fastforce simp: ref_edhoc_sel)
qed

subsection \<open>The protected path\<close>

text \<open>C7: before a handshake has been completed since the last message_1, a request to the OSCORE
  resource is refused with ENOTCONN and has no effect at all: nothing is decrypted, dispatched or
  sent.\<close>

theorem oscore_post_needs_handshake:
  assumes "booted s0" and "EDHOC_SUCCESS (edhoc E) = 0"
    and "s = run (\<lambda>s c. snd (serve E n s c)) s0 calls"
    and "\<not> handshake_done (trace (\<lambda>s c. snd (serve E n s c)) (service_event E) s0 calls)"
  shows "oscore_post E s res req addr = (- ENOTCONN, s)"
proof -
  have "phase s = run next_phase Idle (trace (\<lambda>s c. snd (serve E n s c)) (service_event E) s0 calls)"
    using session.run_refines [of E s0 n calls] booted_session_ok [OF assms(1), of E]
      booted_phase [OF assms(1)] assms(2,3) by simp
  with assms(4) have "\<not> oscore_ready s" by (auto simp: phase_def simp flip: secured_iff split: if_splits)
  then show ?thesis by (rule oscore_post_idle)
qed

theorem oscore_post_needs_handshake_witness:
  "oscore_post ref_env ref_boot oscore_root_resource get_led () = (- ENOTCONN, ref_boot)"
  by (rule oscore_post_needs_handshake [OF ref_booted ref_zero, where n = 256 and calls = "[]"])
    (simp_all add: handshake_done_def)

lemma unat_ucast_512: "len \<le> (512 :: u32) \<Longrightarrow> unat (ucast len :: u16) = unat len"
  by (simp add: word_le_nat_alt unsigned_ucast_eq take_bit_eq_mod)

text \<open>C5: OSCORE is transparent: when the outer message unprotects and parses to an inner request, the
  answer computed for it is exactly the one the specification gives for the plaintext request, with
  the same effect on the LED; its protected form, of full length, is what is transmitted to the
  requester, or nothing is if it cannot be protected.\<close>

theorem oscore_post_transparent:
  assumes "coap_laws (coap E) V W" and "space_laws (coap E)" and "oscore_size_laws (oscore E)"
    and "oscore_ready s" and "inner_request E s req = (Inr q, s1)" and "uri_ok (coap E) q"
    and "oscore_post E s res req addr = (r, s')"
  shows "\<exists>p w2 e out len oc w. (V p, led_state s') = server_spec (led_state s) (V q) \<and>
           coap2oscore (oscore E) (oscore_sender_id s) (data p) (ucast (offset p)) OSCORE_BUF_MAX w2
             (oscore_ctx s1) = (e, out, len, oc, w) \<and>
           (if e = ok
            then \<exists>pkt. sent s' = sent s @ [(pkt, addr)] \<and> data pkt = out \<and> unat (offset pkt) = unat len
            else sent s' = sent s \<and> r = - EBADMSG)"
proof -
  note f1 = inner_request_frame [OF assms(5)]
  have d2: "oscore_sender_id s2 = oscore_sender_id s \<and> oscore_ctx s2 = oscore_ctx s1 \<and> sent s2 = sent s \<and>
      (V p, led_state s2) = server_spec (led_state s) (V q)"
    if "coap_server_dispatch_inner (coap E) (plat E) s1 q 256 = (r1, p, s2)" "0 \<le> r1" for r1 p s2
    using dispatch_edhoc_frame(4,5) [OF that(1)] dispatch_spec [OF assms(1,6) that] f1
    by (simp add: oscore_part_def)
  from assms(7) show ?thesis
  proof (cases rule: oscore_post_cases)
    case (undispatched q' s1' p)
    with assms(5) dispatch_fits [OF assms(1,2) _ undispatched(3)] show ?thesis by simp
  next
    case (unprotected q' s1' r1 p s2 e out len oc w)
    with assms(5) d2 [of r1 p s2] show ?thesis by fastforce
  next
    case (sent q' s1' r1 p s2 out len oc w)
    with assms(5) d2 [of r1 p s2] have
      c: "coap2oscore (oscore E) (oscore_sender_id s) (data p) (ucast (offset p)) OSCORE_BUF_MAX (world s2)
         (oscore_ctx s1) = (ok, out, len, oc, w)"
      and v: "(V p, led_state s2) = server_spec (led_state s) (V q)" "sent s2 = sent s" by auto
    let ?pkt = "oscore_packet (coap E) out len"
    have "s' = snd (resource_send (plat E) (oscore_step s2 oc w) res ?pkt addr)" using sent(6) by simp
    then have s': "sent s' = sent s @ [(?pkt, addr)]" "led_state s' = led_state s2"
      using v(2) by (simp_all add: resource_send_def split_beta)
    have "len \<le> OSCORE_BUF_MAX" using assms(3) c unfolding oscore_size_laws_def by blast
    then have "data ?pkt = out" "unat (offset ?pkt) = unat len"
      by (simp_all add: OSCORE_BUF_MAX_def unat_ucast_512 coap_packet.defs)
    with c v s' show ?thesis
      by (intro exI [of _ p] exI [of _ "world s2"] exI [of _ ok] exI [of _ out] exI [of _ len]
          exI [of _ oc] exI [of _ w] conjI) auto
  qed (use assms(4,5) in auto)
qed

lemma ref_inner_get_led:
  "\<exists>s1. inner_request ref_env s get_led = (Inr get_led, s1)"
proof -
  let ?bs = "[0x41, 0x01, 0x12, 0x35, 0x99, 0xb3, 0x6c, 0x65, 0x64] :: u8 list"
  have d: "data get_led = ?bs" "offset get_led = 9"
    by (simp_all add: get_led_def ref_request_def ref_parse_def)
  have "coap_packet_parse ref_lib ?bs 9 = (0, get_led)"
    by (simp add: ref_lib_def get_led_def ref_request_def ref_parse_def)
  then show ?thesis
    by (simp add: inner_request_def ref_oscore_def d OSCORE_BUF_MAX_def)
qed

theorem oscore_post_transparent_witness:
  "\<exists>r s' p. oscore_post ref_env ref_secured oscore_root_resource get_led () = (r, s') \<and>
     (ref_view p, led_state s') = server_spec (led_state ref_secured) (ref_view get_led)"
proof -
  obtain r s' where p: "oscore_post ref_env ref_secured oscore_root_resource get_led () = (r, s')"
    by fastforce
  obtain s1 where i: "inner_request ref_env ref_secured get_led = (Inr get_led, s1)"
    using ref_inner_get_led by blast
  have "coap_laws (coap ref_env) ref_view id" "space_laws (coap ref_env)" "oscore_size_laws (oscore ref_env)"
    "uri_ok (coap ref_env) get_led"
    by (simp_all add: ref_coap_laws ref_space_laws ref_oscore_size_laws uri_ok_ref)
  from oscore_post_transparent [OF this(1-3) ref_secured_ready i this(4) p] p show ?thesis by blast
qed

text \<open>C8: over OSCORE the LED changes only for a genuine request: if the handler changed it, the session
  was ready, the outer message unprotected successfully, and the inner message is a PUT of /led that
  asks for the new value.\<close>

theorem oscore_post_led_change:
  assumes "coap_laws (coap E) V W" and "oscore_post E s res req addr = (r, s')"
    and "led_state s' \<noteq> led_state s"
  shows "oscore_ready s \<and> (\<exists>q s1 bs. inner_request E s req = (Inr q, s1) \<and>
           m_path (V q) = [''led''] \<and> m_code (V q) = COAP_METHOD_PUT \<and>
           m_payload (V q) = Some bs \<and> onoff_spec bs = Some (led_state s'))"
proof -
  have d: "m_path (V q) = [''led''] \<and> m_code (V q) = COAP_METHOD_PUT \<and>
      (\<exists>bs. m_payload (V q) = Some bs \<and> onoff_spec bs = Some (led_state s2))"
    if "inner_request E s req = (Inr q, s1)" "led_state s2 \<noteq> led_state s"
      "coap_server_dispatch_inner (coap E) (plat E) s1 q 256 = (r1, p, s2)" for q s1 r1 p s2
    using dispatch_frame [OF assms(1) that(3)] inner_request_frame(5) [OF that(1)] that(2)
    by (auto simp: set_led_def bind_eq_Some_conv split: if_splits option.splits)
  from assms(2) show ?thesis
  proof (cases rule: oscore_post_cases)
    case rejected
    with assms(3) inner_request_frame(5) show ?thesis by blast
  next
    case (undispatched q s1 p)
    with d [OF undispatched(2) assms(3) undispatched(3)] show ?thesis by blast
  next
    case (unprotected q s1 r1 p s2 e out len oc w)
    with d [OF unprotected(2) _ unprotected(3)] assms(3) show ?thesis by auto
  next
    case (sent q s1 r1 p s2 out len oc w)
    then have "s' = snd (resource_send (plat E) (oscore_step s2 oc w) res
        (oscore_packet (coap E) out len) addr)" by simp
    then have "led_state s' = led_state s2" by simp
    with d [OF sent(2) _ sent(3)] sent(1,2) assms(3) show ?thesis by auto
  qed (use assms(3) in simp)
qed

lemma edhoc_post_led:
  assumes "edhoc_post E s res req addr = (r, s')"
  shows "led_state s' = led_state s"
  using assms
proof (cases rule: edhoc_post_cases)
  case (sent b msg n out len s1 p r0)
  then have "s' = snd (resource_send (plat E) s1 res p addr)" by simp
  with drive_frame(1) [OF sent(2)] show ?thesis by simp
qed (auto dest: drive_frame(1))

lemma ref_secured_led: "\<not> led_state ref_secured"
proof -
  have "led_state (snd (serve ref_env n s (Edhoc_post, res, req, ()))) = led_state s" for n s res req
    using edhoc_post_led [of ref_env s res req "()"] by (simp add: serve_def prod_eq_iff)
  then show ?thesis by (simp add: ref_secured_def msg1_call_def msg3_call_def ref_boot_def)
qed

lemma ref_inner_put_led:
  "\<exists>s1. inner_request ref_env s put_led_1 = (Inr put_led_1, s1)"
proof -
  let ?bs = "[0x41, 0x03, 0x12, 0x34, 0x99, 0xb3, 0x6c, 0x65, 0x64, 0xff, 0x31] :: u8 list"
  have d: "data put_led_1 = ?bs" "offset put_led_1 = 11"
    by (simp_all add: put_led_1_def ref_request_def ref_parse_def)
  have "coap_packet_parse ref_lib ?bs 11 = (0, put_led_1)"
    by (simp add: ref_lib_def put_led_1_def ref_request_def ref_parse_def)
  then show ?thesis
    by (simp add: inner_request_def ref_oscore_def d OSCORE_BUF_MAX_def)
qed

lemma ref_oscore_put_led: "led_state (snd (oscore_post ref_env ref_secured oscore_root_resource put_led_1 ()))"
proof -
  obtain r s' where p: "oscore_post ref_env ref_secured oscore_root_resource put_led_1 () = (r, s')"
    by fastforce
  obtain s1 where i: "inner_request ref_env ref_secured put_led_1 = (Inr put_led_1, s1)"
    using ref_inner_put_led by blast
  have "led_state s2" if "coap_server_dispatch_inner ref_lib ref_platform s1 put_led_1 256 = (r1, q, s2)"
    for r1 q s2
    using dispatch_frame [OF ref_coap_laws that] uri_ok_ref [of put_led_1]
    by (simp add: view_put_led_1 onoff_spec_def set_led_def coap_consts)
  with p i ref_secured_ready show ?thesis
    by (auto elim!: oscore_post_cases simp: resource_send_def split_beta)
qed

theorem oscore_post_led_change_witness:
  "\<exists>r s' q s1. oscore_post ref_env ref_secured oscore_root_resource put_led_1 () = (r, s') \<and>
     led_state s' \<noteq> led_state ref_secured \<and> inner_request ref_env ref_secured put_led_1 = (Inr q, s1) \<and>
     m_path (ref_view q) = [''led'']"
proof -
  obtain r s' where p: "oscore_post ref_env ref_secured oscore_root_resource put_led_1 () = (r, s')"
    by fastforce
  then have led: "led_state s'" using ref_oscore_put_led by simp
  have "coap_laws (coap ref_env) ref_view id" by (simp add: ref_coap_laws)
  from oscore_post_led_change [OF this p] led ref_secured_led p show ?thesis by auto
qed

subsection \<open>The LED over all paths\<close>

text \<open>
  The calls of an engine leave an observation \<open>lvl\<close> of the world alone; here the level of the LED pin.
\<close>

definition quiet :: "('w \<Rightarrow> 'v) \<Rightarrow> ('w \<Rightarrow> 'c \<Rightarrow> 'r \<times> 'c \<times> 'w) \<Rightarrow> bool" where
  "quiet lvl f \<longleftrightarrow> (\<forall>w c. lvl (snd (snd (f w c))) = lvl w)"

definition quiet_edhoc :: "('w, 'ec, 'x, 'd) libedhoc \<Rightarrow> ('w \<Rightarrow> 'v) \<Rightarrow> bool" where
  "quiet_edhoc L lvl \<longleftrightarrow>
     quiet lvl (edhoc_context_init L) \<and> quiet lvl (edhoc_context_deinit L) \<and>
     (\<forall>ms. quiet lvl (edhoc_set_methods L ms)) \<and> (\<forall>d n. quiet lvl (edhoc_set_cipher_suites L d n)) \<and>
     (\<forall>i. quiet lvl (edhoc_set_connection_id L i)) \<and> (\<forall>d. quiet lvl (edhoc_bind_keys L d)) \<and>
     (\<forall>x. quiet lvl (edhoc_bind_crypto L x)) \<and> (\<forall>cr. quiet lvl (edhoc_bind_credentials L cr)) \<and>
     (\<forall>msg n. quiet lvl (edhoc_message_1_process L msg n)) \<and>
     (\<forall>msg n. quiet lvl (edhoc_message_3_process L msg n)) \<and>
     (\<forall>cap w c rc out len c' w'. edhoc_message_2_compose L cap w c = (rc, out, len, c', w') \<longrightarrow> lvl w' = lvl w) \<and>
     (\<forall>cap w c rc out len c' w'. edhoc_message_4_compose L cap w c = (rc, out, len, c', w') \<longrightarrow> lvl w' = lvl w) \<and>
     (\<forall>x w c rc x' c' w'. edhoc_export_oscore_session L x w c = (rc, x', c', w') \<longrightarrow> lvl w' = lvl w)"

definition quiet_oscore :: "('w, 'oc) uoscore \<Rightarrow> ('w \<Rightarrow> 'v) \<Rightarrow> bool" where
  "quiet_oscore U lvl \<longleftrightarrow>
     (\<forall>params. quiet lvl (oscore_context_init U params)) \<and>
     (\<forall>sid bs n cap w c e out len c' w'. oscore2coap U sid bs n cap w c = (e, out, len, c', w') \<longrightarrow> lvl w' = lvl w) \<and>
     (\<forall>sid bs n cap w c e out len c' w'. coap2oscore U sid bs n cap w c = (e, out, len, c', w') \<longrightarrow> lvl w' = lvl w)"

lemma quiet_compose:
  assumes "quiet_edhoc L lvl"
  shows "edhoc_message_2_compose L cap w c = (rc, out, len, c', w') \<Longrightarrow> lvl w' = lvl w"
    and "edhoc_message_4_compose L cap w c = (rc, out, len, c', w') \<Longrightarrow> lvl w' = lvl w"
  using assms by (simp_all add: quiet_edhoc_def)

lemma on_ctx_quiet: "quiet lvl f \<Longrightarrow> lvl (world (snd (on_ctx f s))) = lvl (world s)"
  by (simp add: quiet_def on_ctx_def split_beta)

lemma on_ctx_quietD: "quiet lvl f \<Longrightarrow> on_ctx f s = (r, s') \<Longrightarrow> lvl (world s') = lvl (world s)"
  using on_ctx_quiet [of lvl f s] by simp

lemma edhoc_setup_quiet: "quiet_edhoc (edhoc E) lvl \<Longrightarrow> lvl (world (snd (edhoc_setup E s))) = lvl (world s)"
  by (simp add: edhoc_setup_def Let_def seq_ok_def on_ctx_quiet quiet_edhoc_def)

lemma edhoc_close_quiet: "quiet_edhoc (edhoc E) lvl \<Longrightarrow> lvl (world (edhoc_close E s)) = lvl (world s)"
  by (simp add: edhoc_close_def on_ctx_quiet quiet_edhoc_def)

lemma derive_quiet:
  assumes "quiet_edhoc (edhoc E) lvl" and "quiet_oscore (oscore E) lvl"
  shows "lvl (world (snd (derive_and_init_oscore E s))) = lvl (world s)"
proof -
  have o: "lvl w' = lvl w" if "oscore_context_init (oscore E) params w c = (e, c', w')" for params w c e c' w'
    using assms(2) that unfolding quiet_oscore_def quiet_def by (metis snd_conv)
  show ?thesis
    using assms(1) o by (auto simp: derive_and_init_oscore_def Let_def quiet_edhoc_def split: prod.splits)
qed

lemma message_1_quiet:
  assumes q: "quiet_edhoc (edhoc E) lvl" and m: "edhoc_message_1 E s msg n = (rc, out, len, s')"
  shows "lvl (world s') = lvl (world s)"
proof -
  obtain rc1 s1 where 1: "edhoc_setup E (edhoc_reset E s) = (rc1, s1)" by fastforce
  have l1: "lvl (world s1) = lvl (world s)"
    using edhoc_setup_quiet [OF q, of "edhoc_reset E s"] edhoc_close_quiet [OF q, of s] 1
    by (simp add: edhoc_reset_def split: if_splits)
  obtain rc2 c2 w2 where 2: "edhoc_message_1_process (edhoc E) msg n (world s1) (edhoc_ctx s1) = (rc2, c2, w2)"
    by (metis prod_cases3)
  obtain rc3 o3 n3 c3 w3 where 3:
    "edhoc_message_2_compose (edhoc E) EDHOC_MSG_MAX w2 c2 = (rc3, o3, n3, c3, w3)"
    by (metis prod_cases5)
  have l2: "lvl w2 = lvl (world s1)" using q 2 unfolding quiet_edhoc_def quiet_def by (metis snd_conv)
  have l3: "lvl w3 = lvl w2" by (rule quiet_compose(1) [OF q 3])
  from m 1 2 3 l1 l2 l3 show ?thesis
    by (auto simp: edhoc_message_1_def on_ctx_def Let_def edhoc_close_quiet [OF q] split: if_splits)
qed

lemma message_3_quiet:
  assumes q: "quiet_edhoc (edhoc E) lvl" "quiet_oscore (oscore E) lvl"
    and m: "edhoc_message_3 E s msg n = (rc, out, len, s')"
  shows "lvl (world s') = lvl (world s)"
proof -
  obtain rc1 c1 w1 where 1: "edhoc_message_3_process (edhoc E) msg n (world s) (edhoc_ctx s) = (rc1, c1, w1)"
    by (metis prod_cases3)
  obtain rc2 o2 n2 c2 w2 where 2:
    "edhoc_message_4_compose (edhoc E) EDHOC_MSG_MAX w1 c1 = (rc2, o2, n2, c2, w2)"
    by (metis prod_cases5)
  obtain rc3 s3 where 3: "derive_and_init_oscore E (s\<lparr>edhoc_ctx := c2, world := w2\<rparr>) = (rc3, s3)"
    by fastforce
  have l1: "lvl w1 = lvl (world s)" using q(1) 1 unfolding quiet_edhoc_def quiet_def by (metis snd_conv)
  have l2: "lvl w2 = lvl w1" by (rule quiet_compose(2) [OF q(1) 2])
  have l3: "lvl (world s3) = lvl w2" using derive_quiet [OF q, of "s\<lparr>edhoc_ctx := c2, world := w2\<rparr>"] 3 by simp
  from m 1 2 3 l1 l2 l3 show ?thesis
    by (auto simp: edhoc_message_3_def on_ctx_def Let_def edhoc_close_quiet [OF q(1)] split: if_splits)
qed

lemma drive_quiet:
  assumes "quiet_edhoc (edhoc E) lvl" "quiet_oscore (oscore E) lvl"
    and "edhoc_drive E s b msg n = (rc, out, len, s')"
  shows "lvl (world s') = lvl (world s)"
proof -
  from assms(3) obtain s1 where "s' = k_mutex_unlock s1"
    "edhoc_message_1 E (k_mutex_lock s) msg n = (rc, out, len, s1) \<or>
     edhoc_message_3 E (k_mutex_lock s) msg n = (rc, out, len, s1)"
    by (auto simp: edhoc_drive_def Let_def split: prod.splits if_splits)
  with message_1_quiet [OF assms(1)] message_3_quiet [OF assms(1,2)] show ?thesis
    by (fastforce simp: k_mutex_lock_def k_mutex_unlock_def)
qed

text \<open>What every handler keeps: the pin's level is \<open>led_state\<close>.\<close>

definition pin_safe :: "('w, 'm, 'o, 'a, 'ec, 'oc, 'x, 'd, 'h) env \<Rightarrow> ('w \<Rightarrow> bool) \<Rightarrow> bool" where
  "pin_safe E lvl \<longleftrightarrow> gpio_laws (plat E) lvl \<and> quiet_edhoc (edhoc E) lvl \<and> quiet_oscore (oscore E) lvl"

lemma pin_mirrors_cong:
  "lvl (world s') = lvl (world s) \<Longrightarrow> led_state s' = led_state s \<Longrightarrow> pin_mirrors lvl s \<Longrightarrow> pin_mirrors lvl s'"
  by (simp add: pin_mirrors_def)

lemma resource_send_mirrors:
  assumes "gpio_laws P lvl" and "resource_send P s res p addr = (r, s')" and "pin_mirrors lvl s"
  shows "pin_mirrors lvl s'"
proof (rule pin_mirrors_cong [OF _ _ assms(3)])
  have "lvl (snd (coap_resource_send P (world s) res p addr)) = lvl (world s)"
    using assms(1) by (simp add: gpio_laws_def)
  with assms(2) show "lvl (world s') = lvl (world s)"
    by (auto simp: resource_send_def split: prod.splits)
  show "led_state s' = led_state s" using assms(2)
    by (auto simp: resource_send_def split: prod.splits)
qed

lemma quiet_oscore_steps:
  assumes "quiet_oscore U lvl"
  shows "oscore2coap U sid bs n cap w c = (e, out, len, c', w') \<Longrightarrow> lvl w' = lvl w"
    and "coap2oscore U sid bs n cap w c = (e, out, len, c', w') \<Longrightarrow> lvl w' = lvl w"
  using assms by (simp_all add: quiet_oscore_def)

lemma oscore_step_mirrors:
  assumes "quiet_oscore U lvl" and "pin_mirrors lvl s"
    and "oscore2coap U sid bs n cap (world s) oc = (e, out, len, oc', w) \<or>
         coap2oscore U sid bs n cap (world s) oc = (e, out, len, oc', w)"
  shows "pin_mirrors lvl (oscore_step s oc' w)"
proof -
  have "lvl w = lvl (world s)" using assms(3) quiet_oscore_steps [OF assms(1)] by metis
  with assms(2) show ?thesis by (simp add: pin_mirrors_def)
qed

lemma edhoc_post_mirrors:
  assumes "pin_safe E lvl" and "pin_mirrors lvl s" and "edhoc_post E s res req addr = (r, s')"
  shows "pin_mirrors lvl s'"
proof -
  have d: "pin_mirrors lvl s1" if "edhoc_drive E s b msg n = (rc, out, len, s1)" for b msg n rc out len s1
    using pin_mirrors_cong [of lvl s1 s, OF drive_quiet [OF _ _ that] drive_frame(1) [OF that] assms(2)] assms(1)
    by (simp add: pin_safe_def)
  show ?thesis
    using assms(3)
  proof (cases rule: edhoc_post_cases)
    case (sent b msg n out len s1 p r0)
    from assms(1) have "gpio_laws (plat E) lvl" by (simp add: pin_safe_def)
    from resource_send_mirrors [OF this sent(5) d [OF sent(2)]] show ?thesis .
  qed (use assms(2) d in auto)
qed

lemma oscore_post_mirrors:
  assumes "pin_safe E lvl" and "pin_mirrors lvl s" and "oscore_post E s res req addr = (r, s')"
  shows "pin_mirrors lvl s'"
proof -
  from assms(1) have g: "gpio_laws (plat E) lvl" and q: "quiet_oscore (oscore E) lvl"
    by (simp_all add: pin_safe_def)
  have i: "pin_mirrors lvl s1" if "inner_request E s req = (x, s1)" for x s1
    using inner_request_step [OF that] oscore_step_mirrors [OF q assms(2)] by blast
  note d = dispatch_mirrors [OF g i]
  show ?thesis
    using assms(3)
  proof (cases rule: oscore_post_cases)
    case (undispatched x s1 p)
    then show ?thesis by (blast intro: d)
  next
    case (unprotected x s1 r1 p s2 e out len oc w)
    from oscore_step_mirrors [OF q d [OF unprotected(2,3)]] unprotected(5,8) show ?thesis by blast
  next
    case (sent x s1 r1 p s2 out len oc w)
    have "pin_mirrors lvl (oscore_step s2 oc w)"
      using oscore_step_mirrors [OF q d [OF sent(2,3)]] sent(5) by blast
    from resource_send_mirrors [OF g sent(6) this] show ?thesis .
  qed (use assms(2) i in auto)
qed

lemma serve_mirrors:
  assumes "pin_safe E lvl" and "pin_mirrors lvl s"
  shows "pin_mirrors lvl (snd (serve E n s c))"
proof -
  obtain h res req addr where c: "c = (h, res, req, addr)" by (metis prod_cases4)
  obtain r s' where s': "serve E n s c = (r, s')" by fastforce
  have "pin_mirrors lvl s'"
  proof (cases h)
    case App_request
    with app_pin.step_inv [of "plat E" lvl s "coap E" n "(res, req, addr)"] s' c assms show ?thesis
      by (simp add: serve_def pin_safe_def)
  next
    case Edhoc_post
    with s' c edhoc_post_mirrors [OF assms] show ?thesis by (simp add: serve_def)
  next
    case Oscore_post
    with s' c oscore_post_mirrors [OF assms] show ?thesis by (simp add: serve_def)
  qed
  with s' show ?thesis by simp
qed

interpretation service_pin: invariant_step
  "\<lambda>s c. snd (serve E n s c)" "\<lambda>s. pin_safe E lvl \<longrightarrow> pin_mirrors lvl s" for E n lvl
  by unfold_locales (simp add: serve_mirrors)

text \<open>C25: once \<open>led_init\<close> has configured the pin, over every sequence of requests, whichever handlers
  serve them and whether they come in plaintext or inside OSCORE, the level of the LED pin is
  \<open>led_state\<close>, the value GET /led reports, as long as the GPIO driver works and the libraries leave
  the pin alone.\<close>

theorem service_led_is_pin_level:
  assumes "gpio_laws (plat E) lvl" and "quiet_edhoc (edhoc E) lvl" and "quiet_oscore (oscore E) lvl"
    and "booted s0" and "led_init (plat E) s0 = (0, s)"
  shows "lvl (world (run (\<lambda>s c. snd (serve E n s c)) s calls)) =
         led_state (run (\<lambda>s c. snd (serve E n s c)) s calls)"
proof -
  have "pin_safe E lvl" using assms(1-3) by (simp add: pin_safe_def)
  moreover have "pin_mirrors lvl s"
    using assms(4) by (intro led_init_mirrors [OF assms(1) _ assms(5)]) (simp add: booted_def)
  ultimately have "pin_mirrors lvl (run (\<lambda>s c. snd (serve E n s c)) s calls)"
    using service_pin.run_inv [of E lvl s n calls] by blast
  then show ?thesis by (simp add: pin_mirrors_def)
qed

lemma ref_quiet: "quiet_edhoc ref_edhoc lvl" "quiet_oscore ref_oscore lvl"
  by (auto simp: quiet_edhoc_def quiet_oscore_def quiet_def ref_edhoc_def ref_set_def ref_oscore_def
      ref_message_3_def Let_def split: option.splits if_splits)

theorem service_led_is_pin_level_witness:
  "world (run (\<lambda>s c. snd (serve ref_env 256 s c)) ref_boot
     [msg1_call, msg3_call, (Oscore_post, oscore_root_resource, put_led_1, ())])"
proof -
  let ?calls = "[msg1_call, msg3_call, (Oscore_post, oscore_root_resource, put_led_1, ())]"
  have i: "led_init (plat ref_env) ref_boot = (0, ref_boot)"
    by (simp add: led_init_def ref_platform_def ref_boot_def)
  have g: "gpio_laws (plat ref_env) id" by (simp add: gpio_laws_def ref_platform_def)
  have "quiet_edhoc (edhoc ref_env) id" "quiet_oscore (oscore ref_env) id" by (simp_all add: ref_quiet)
  from service_led_is_pin_level [OF g this ref_booted i, of 256 ?calls] ref_oscore_put_led
  show ?thesis by (simp add: ref_secured_def serve_def)
qed

subsection \<open>What the handlers transmit\<close>

text \<open>The size of the buffer each handler builds its response in.\<close>

fun send_buffer :: "u16 \<Rightarrow> coap_handler \<Rightarrow> u16" where
  "send_buffer n App_request = n"
| "send_buffer n Edhoc_post = 256"
| "send_buffer n Oscore_post = 512"

text \<open>
  The contract all handlers share: a negative result and silence, or exactly one packet to the
  requester, within the handler's buffer.
\<close>

definition one_or_error ::
  "u16 \<Rightarrow> 'a \<Rightarrow> ('w, 'm, 'a, 'z) server_state_scheme \<Rightarrow> int \<times> ('w, 'm, 'a, 'z) server_state_scheme \<Rightarrow> bool" where
  "one_or_error cap addr s x \<longleftrightarrow>
     (fst x < 0 \<and> sent (snd x) = sent s) \<or> (\<exists>p. sent (snd x) = sent s @ [(p, addr)] \<and> within cap p)"

lemma one_or_error_send:
  "within cap p \<Longrightarrow> sent t = sent s \<Longrightarrow> one_or_error cap addr s (resource_send P t res p addr)"
  by (auto simp: one_or_error_def resource_send_def split_beta)

lemma one_or_error_fail: "r < 0 \<Longrightarrow> sent t = sent s \<Longrightarrow> one_or_error cap addr s (r, t)"
  by (simp add: one_or_error_def)

lemma app_request_sends:
  assumes "coap_laws C V W" and "space_laws C"
  shows "one_or_error n addr s (app_request C P n s res req addr)"
proof -
  obtain r p t where d: "coap_server_dispatch_inner C P s req n = (r, p, t)"
    by (cases "coap_server_dispatch_inner C P s req n")
  note sent = dispatch_silent [OF assms(1) d] and buf = dispatch_within [OF assms d]
  show ?thesis
    using d sent buf by (auto simp: app_request_def not_less intro: one_or_error_send one_or_error_fail)
qed

lemma reply_within:
  assumes "coap_laws C V W" and "space_laws C" and "edhoc_reply C req out len = (r, p)" and "0 \<le> r"
  shows "within 256 p"
proof -
  obtain tkl tok where tok: "coap_header_get_token C req = (tkl, tok)" by fastforce
  then have tk: "token_ok tkl tok" using coap_laws_token [OF assms(1) tok] by (simp add: token_ok_def)
  show ?thesis
  proof (cases "0 < len")
    case True
    with assms(3) build_part_within [OF assms(2) tk _ assms(4)] show ?thesis by (simp add: reply_build [OF tok])
  next
    case False
    with assms(3,4) obtain r1 where "coap_packet_init C 256 COAP_VERSION_1 COAP_TYPE_ACK tkl tok
        COAP_RESPONSE_CODE_CHANGED (coap_header_get_id C req) = (r1, p)" "0 \<le> r1"
      by (auto simp: reply_build [OF tok] chk_def prod_eq_iff split: if_splits)
    with init_within [OF assms(2) tk] show ?thesis by blast
  qed
qed

lemma edhoc_post_sends:
  assumes "coap_laws (coap E) V W" and "space_laws (coap E)"
  shows "one_or_error 256 addr s (edhoc_post E s res req addr)"
proof -
  obtain r s' where p: "edhoc_post E s res req addr = (r, s')" by fastforce
  then have "one_or_error 256 addr s (r, s')"
  proof (cases rule: edhoc_post_cases)
    case malformed
    with framing_error show ?thesis by (fastforce simp: EINVAL_def intro: one_or_error_fail)
  next
    case (failed b msg n rc out len)
    with drive_frame(2) [OF failed(2)] show ?thesis by (simp add: EBADMSG_def one_or_error_fail)
  next
    case (unsent b msg n out len q)
    with drive_frame(2) [OF unsent(2)] show ?thesis by (simp add: one_or_error_fail)
  next
    case (sent b msg n out len s1 q r0)
    from one_or_error_send [OF reply_within [OF assms sent(3,4)] drive_frame(2) [OF sent(2)]] sent(5)
    show ?thesis by metis
  qed
  with p show ?thesis by simp
qed

lemma oscore_post_sends:
  assumes "coap_laws (coap E) V W" and "oscore_size_laws (oscore E)"
  shows "one_or_error 512 addr s (oscore_post E s res req addr)"
proof -
  obtain r s' where p: "oscore_post E s res req addr = (r, s')" by fastforce
  have quiet: "sent s2 = sent s" if "inner_request E s req = (Inr q, s1)"
    "coap_server_dispatch_inner (coap E) (plat E) s1 q 256 = (r1, p, s2)" for q s1 r1 p s2
    using inner_request_frame [OF that(1)] dispatch_silent [OF assms(1) that(2)] by simp
  from p have "one_or_error 512 addr s (r, s')"
  proof (cases rule: oscore_post_cases)
    case idle
    then show ?thesis by (simp add: ENOTCONN_def one_or_error_fail)
  next
    case rejected
    then have "r < 0" by (auto simp: inner_request_def Let_def errno_defs split: prod.splits if_splits)
    with inner_request_frame [OF rejected(2)] show ?thesis by (simp add: one_or_error_fail)
  next
    case (undispatched q s1 p)
    with quiet [OF undispatched(2,3)] show ?thesis by (simp add: one_or_error_fail)
  next
    case (unprotected q s1 r1 p s2 e out len oc w)
    with quiet [OF unprotected(2,3)] show ?thesis by (simp add: EBADMSG_def one_or_error_fail)
  next
    case (sent q s1 r1 p s2 out len oc w)
    have "len \<le> OSCORE_BUF_MAX" using assms(2) sent(5) unfolding oscore_size_laws_def by blast
    then have "within 512 (oscore_packet (coap E) out len)"
      by (simp add: within_def OSCORE_BUF_MAX_def unat_ucast_512 coap_packet.defs word_le_nat_alt)
    from one_or_error_send [OF this, of "oscore_step s2 oc w" s addr "plat E" res] quiet [OF sent(2,3)] sent(6)
    show ?thesis by simp
  qed
  with p show ?thesis by simp
qed

text \<open>C26: every handler either returns a negative error and transmits nothing, or transmits exactly one
  packet to the requester, well-formed in the buffer it was built in: the message buffer of the
  service for plaintext requests, 256 bytes for EDHOC, 512 for OSCORE.\<close>

theorem serve_sends_in_buffer:
  assumes "coap_laws (coap E) V W" and "space_laws (coap E)" and "oscore_size_laws (oscore E)"
    and "serve E n s (h, res, req, addr) = (r, s')"
  shows "(r < 0 \<and> sent s' = sent s) \<or>
         (\<exists>p. sent s' = sent s @ [(p, addr)] \<and> max_len p = send_buffer n h \<and>
              unat (offset p) \<le> unat (max_len p))"
proof -
  have "one_or_error (send_buffer n h) addr s (serve E n s (h, res, req, addr))"
    by (cases h) (simp_all add: serve_def app_request_sends [OF assms(1,2)] edhoc_post_sends [OF assms(1,2)]
        oscore_post_sends [OF assms(1,3)])
  with assms(4) show ?thesis by (auto simp: one_or_error_def within_def)
qed

theorem serve_sends_in_buffer_witness:
  "\<exists>r s' p. serve ref_env 64 ref_boot (App_request, led_resource, get_led, ()) = (r, s') \<and>
     sent s' = sent ref_boot @ [(p, ())] \<and> max_len p = 64 \<and> unat (offset p) \<le> 64"
proof -
  obtain r s' where v: "serve ref_env 64 ref_boot (App_request, led_resource, get_led, ()) = (r, s')"
    by fastforce
  have laws: "coap_laws (coap ref_env) ref_view id" "space_laws (coap ref_env)" "oscore_size_laws (oscore ref_env)"
    by (simp_all add: ref_coap_laws ref_space_laws ref_oscore_size_laws)
  have "r = 0"
    using v dispatch_get_led [of ref_boot]
    by (auto simp: serve_def app_request_def resource_send_def ref_platform_def)
  with serve_sends_in_buffer [OF laws v] v show ?thesis by auto
qed

end
