(* ===== verification/Host_Client.thy ===== *)
theory Host_Client
  imports Edhoc_Oscore Complex_Main
begin

text \<open>
  host_client/src/client.cpp: the EDHOC Initiator and OSCORE client on the host. The CoAP PDU class
  (cantcoap), the socket and the initiator half of libedhoc are parameters. Modelled: the two request
  functions with their static counters, the set-up of the context and the handshake of \<open>main\<close> up to
  the OSCORE context, with every early return, and the clock readings in between. Printing is left
  out; the latency loop and the rest of \<open>main\<close> are in \<open>Client_Main\<close>.
\<close>

subsection \<open>cantcoap, the socket and the initiator's half of libedhoc\<close>

record 'p cantcoap =
  pdu_new :: 'p
  setVersion :: "u8 \<Rightarrow> 'p \<Rightarrow> 'p"
  setType :: "u8 \<Rightarrow> 'p \<Rightarrow> 'p"
  setCode :: "u8 \<Rightarrow> 'p \<Rightarrow> 'p"
  setToken :: "u8 list \<Rightarrow> nat \<Rightarrow> 'p \<Rightarrow> 'p"
  setMessageID :: "u16 \<Rightarrow> 'p \<Rightarrow> 'p"
  setURI :: "string \<Rightarrow> nat \<Rightarrow> 'p \<Rightarrow> 'p"
  setPayload :: "u8 list \<Rightarrow> nat \<Rightarrow> 'p \<Rightarrow> 'p"
  getPDUPointer :: "'p \<Rightarrow> u8 list"
  getPDULength :: "'p \<Rightarrow> nat"
  pdu_of_bytes :: "u8 list \<Rightarrow> nat \<Rightarrow> 'p"
  pdu_validate :: "'p \<Rightarrow> bool"
  getPayloadLength :: "'p \<Rightarrow> u32"
  getPayloadPointer :: "'p \<Rightarrow> u8 list"

record 'w sock_lib =
  send :: "'w \<Rightarrow> u8 list \<Rightarrow> nat \<Rightarrow> int \<times> 'w"
  recv :: "'w \<Rightarrow> nat \<Rightarrow> int \<times> u8 list \<times> 'w"
  MAXLINE :: nat

text \<open>
  The rest of the host: the clock, PSA crypto, and the socket's set-up, receive timeout (in seconds)
  and closing. \<open>double\<close> rounds a real number to a double: an operation on doubles is the exact one,
  rounded.
\<close>

record 'w host =
  clock_gettime :: "'w \<Rightarrow> (int \<times> int) \<times> 'w"
  psa_crypto_init :: "'w \<Rightarrow> int \<times> 'w"
  PSA_SUCCESS :: int
  sock_init :: "string \<Rightarrow> 'w \<Rightarrow> int \<times> 'w"
  set_rcvtimeo :: "nat \<Rightarrow> 'w \<Rightarrow> 'w"
  close :: "'w \<Rightarrow> 'w"
  double :: "real \<Rightarrow> real"

definition now_ms :: "'w host \<Rightarrow> 'w \<Rightarrow> real \<times> 'w" where
  "now_ms H w =
     (let ((tv_sec, tv_nsec), w) = clock_gettime H w; D = double H
      in (D (D (D (of_int tv_sec) * 1000) + D (D (of_int tv_nsec) / 1000000)), w))"

record ('w, 'ec) libedhoc_initiator =
  edhoc_message_1_compose :: "u32 \<Rightarrow> 'w \<Rightarrow> 'ec \<Rightarrow> int \<times> u8 list \<times> u32 \<times> 'ec \<times> 'w"
  edhoc_message_2_process :: "u8 list \<Rightarrow> u32 \<Rightarrow> 'w \<Rightarrow> 'ec \<Rightarrow> int \<times> 'ec \<times> 'w"
  edhoc_message_3_compose :: "u32 \<Rightarrow> 'w \<Rightarrow> 'ec \<Rightarrow> int \<times> u8 list \<times> u32 \<times> 'ec \<times> 'w"
  edhoc_message_4_process :: "u8 list \<Rightarrow> u32 \<Rightarrow> 'w \<Rightarrow> 'ec \<Rightarrow> int \<times> 'ec \<times> 'w"

definition COAP_CONFIRMABLE :: u8 where "COAP_CONFIRMABLE = 0"
definition MSG_MAX :: u32 where "MSG_MAX = 256"
definition OSCORE_MAX :: u32 where "OSCORE_MAX = 512"

text \<open>The function-local statics of the two request functions, and the world.\<close>

record 'w client_state =
  post_mid :: u16
  post_token :: u32
  req_mid :: u16
  req_token :: u32
  cworld :: 'w

definition edhoc_post_statics :: "u16 \<times> u32" where
  "edhoc_post_statics = (0, 0)"

definition oscore_request_statics :: "u16 \<times> u32" where
  "oscore_request_statics = (256, 0x1000)"

definition client_init :: "'w \<Rightarrow> 'w client_state" where
  "client_init w = \<lparr>post_mid = fst edhoc_post_statics, post_token = snd edhoc_post_statics,
     req_mid = fst oscore_request_statics, req_token = snd oscore_request_statics, cworld = w\<rparr>"

declare edhoc_post_statics_def [simp] oscore_request_statics_def [simp]

text \<open>The bytes of a 32-bit word in memory, on a little-endian host.\<close>

definition le_bytes32 :: "u32 \<Rightarrow> u8 list" where
  "le_bytes32 v = map (\<lambda>i. ucast (drop_bit (8 * i) v)) [0, 1, 2, 3]"

text \<open>edhoc_config.h: the compile-time limits of libedhoc in the client.\<close>

record libedhoc_config =
  LIBEDHOC_ENABLE :: bool
  KEY_ID_LEN :: nat
  MAX_NR_OF_CIPHER_SUITES :: nat
  MAX_LEN_OF_CONN_ID :: nat
  MAX_LEN_OF_ECC_KEY :: nat
  MAX_LEN_OF_MAC :: nat
  MAX_NR_OF_EAD_TOKENS :: nat
  MAX_LEN_OF_CRED_KEY_ID :: nat
  MAX_LEN_OF_HASH_ALG :: nat
  MAX_NR_OF_CERTS_IN_X509_CHAIN :: nat
  LIBEDHOC_LOG_LEVEL :: nat
  MEM_BACKEND :: nat

definition edhoc_config :: libedhoc_config where
  "edhoc_config = \<lparr>LIBEDHOC_ENABLE = True, KEY_ID_LEN = 4, MAX_NR_OF_CIPHER_SUITES = 1, MAX_LEN_OF_CONN_ID = 1,
     MAX_LEN_OF_ECC_KEY = 32, MAX_LEN_OF_MAC = 32, MAX_NR_OF_EAD_TOKENS = 0, MAX_LEN_OF_CRED_KEY_ID = 1,
     MAX_LEN_OF_HASH_ALG = 1, MAX_NR_OF_CERTS_IN_X509_CHAIN = 2, LIBEDHOC_LOG_LEVEL = 2, MEM_BACKEND = 0\<rparr>"

subsection \<open>Requests\<close>

definition post_pdu :: "'p cantcoap \<Rightarrow> u32 \<Rightarrow> u16 \<Rightarrow> u8 list \<Rightarrow> nat \<Rightarrow> 'p" where
  "post_pdu X token mid payload len =
     setPayload X payload len (setURI X ''.well-known/edhoc'' 17 (setMessageID X mid
       (setToken X (le_bytes32 token) 4 (setCode X COAP_METHOD_POST (setType X COAP_CONFIRMABLE
         (setVersion X 1 (pdu_new X)))))))"

definition client_edhoc_post ::
  "'p cantcoap \<Rightarrow> 'w sock_lib \<Rightarrow> 'w client_state \<Rightarrow> u8 list \<Rightarrow> nat \<Rightarrow> u8 list \<Rightarrow> u32 \<Rightarrow>
   int \<times> u8 list \<times> u32 \<times> 'w client_state" where
  "client_edhoc_post X S s payload len resp resp_len =
     (let token = post_token s + 1;
          pdu = post_pdu X token (post_mid s) payload len;
          s = s\<lparr>post_token := token, post_mid := post_mid s + 1\<rparr>;
          (r, w) = send S (cworld s) (getPDUPointer X pdu) (getPDULength X pdu);
          s = s\<lparr>cworld := w\<rparr>
      in if r < 0 then (-1, resp, resp_len, s)
         else
           let (n, buf, w) = recv S (cworld s) (MAXLINE S);
               s = s\<lparr>cworld := w\<rparr>
           in if n < 0 then (-1, resp, resp_len, s)
              else
                let rx = pdu_of_bytes X buf (nat n)
                in if \<not> pdu_validate X rx then (-1, resp, resp_len, s)
                   else
                     let pl = getPayloadLength X rx
                     in if resp_len < pl then (-1, resp, resp_len, s)
                        else (0, take (unat pl) (getPayloadPointer X rx) @ drop (unat pl) resp, pl, s))"

definition request_pdu :: "'p cantcoap \<Rightarrow> u8 \<Rightarrow> u32 \<Rightarrow> u16 \<Rightarrow> string \<Rightarrow> u8 list option \<Rightarrow> nat \<Rightarrow> 'p" where
  "request_pdu X code token mid uri payload payload_len =
     (let pdu = setURI X uri (length uri) (setMessageID X mid (setToken X (le_bytes32 token) 4
                  (setCode X code (setType X COAP_CONFIRMABLE (setVersion X 1 (pdu_new X))))))
      in case payload of
           None \<Rightarrow> pdu
         | Some p \<Rightarrow> if payload_len = 0 then pdu else setPayload X p payload_len pdu)"

text \<open>
  Returns the code, the inner response if there is one, the value behind \<open>rtt_ms\<close> (\<open>None\<close> is the NULL
  pointer), the OSCORE context and the state.
\<close>

definition oscore_request ::
  "'p cantcoap \<Rightarrow> 'w sock_lib \<Rightarrow> 'w host \<Rightarrow> ('w, 'oc) uoscore \<Rightarrow> u8 list \<Rightarrow> 'w client_state \<Rightarrow> 'oc \<Rightarrow> u8 \<Rightarrow>
   string \<Rightarrow> u8 list option \<Rightarrow> nat \<Rightarrow> real option \<Rightarrow>
   int \<times> 'p option \<times> real option \<times> 'oc \<times> 'w client_state" where
  "oscore_request X S H Q sid s osc code uri payload payload_len rtt_ms =
     (let token = req_token s + 1;
          pdu = request_pdu X code token (req_mid s) uri payload payload_len;
          s = s\<lparr>req_token := token, req_mid := req_mid s + 1\<rparr>;
          (e, out, len, osc, w) = coap2oscore Q sid (getPDUPointer X pdu) (of_nat (getPDULength X pdu))
             OSCORE_MAX (cworld s) osc;
          s = s\<lparr>cworld := w\<rparr>
      in if e \<noteq> ok then (-1, None, rtt_ms, osc, s)
         else
           let (t0, w) = now_ms H (cworld s);
               (r, w) = send S w out (unat len);
               s = s\<lparr>cworld := w\<rparr>
           in if r < 0 then (-1, None, rtt_ms, osc, s)
              else
                let (n, buf, w) = recv S (cworld s) (MAXLINE S);
                    s = s\<lparr>cworld := w\<rparr>
                in if n < 0 then (-1, None, rtt_ms, osc, s)
                   else
                     let (rtt_ms, s) =
                           (case rtt_ms of
                              None \<Rightarrow> (None, s)
                            | Some _ \<Rightarrow> let (t1, w) = now_ms H (cworld s)
                                        in (Some (double H (t1 - t0)), s\<lparr>cworld := w\<rparr>));
                         (e, cbuf, clen, osc, w) = oscore2coap Q sid buf (of_int n) OSCORE_MAX (cworld s) osc;
                         s = s\<lparr>cworld := w\<rparr>
                     in if e \<noteq> ok \<and> e \<noteq> first_request_after_reboot then (-1, None, rtt_ms, osc, s)
                        else
                          let rx = pdu_of_bytes X cbuf (unat clen)
                          in if \<not> pdu_validate X rx then (-1, None, rtt_ms, osc, s)
                             else (0, Some rx, rtt_ms, osc, s))"

subsection \<open>The handshake\<close>

text \<open>What the client is linked with.\<close>

record ('w, 'p, 'ec, 'oc, 'x, 'd) client_env =
  cl_coap :: "'p cantcoap"
  cl_sock :: "'w sock_lib"
  cl_host :: "'w host"
  cl_edhoc :: "('w, 'ec, 'x, 'd) libedhoc"
  cl_initiator :: "('w, 'ec) libedhoc_initiator"
  cl_oscore :: "('w, 'oc) uoscore"
  cl_creds :: edhoc_creds_client_h

definition initiator_credentials :: "('w, 'p, 'ec, 'oc, 'x, 'd) client_env \<Rightarrow> 'w edhoc_credentials" where
  "initiator_credentials E = \<lparr>fetch = client_cred_fetch (cl_edhoc E) (cl_creds E),
                              verify = client_cred_verify (cl_edhoc E) (cl_creds E)\<rparr>"

definition initiator_cid :: "('w, 'p, 'ec, 'oc, 'x, 'd) client_env \<Rightarrow> edhoc_connection_id" where
  "initiator_cid E = \<lparr>cid_encode_type = EDHOC_CID_TYPE_ONE_BYTE_INTEGER,
                      int_value = CL_C_I_INT (cl_creds E)\<rparr>"

text \<open>A call on the client's context; \<open>main\<close> keeps the context and the world side by side.\<close>

definition call_ctx :: "('w \<Rightarrow> 'ec \<Rightarrow> int \<times> 'ec \<times> 'w) \<Rightarrow> 'ec \<times> 'w \<Rightarrow> int \<times> ('ec \<times> 'w)" where
  "call_ctx f cw = (let (r, c, w) = f (snd cw) (fst cw) in (r, (c, w)))"

definition client_setup ::
  "('w, 'p, 'ec, 'oc, 'x, 'd) client_env \<Rightarrow> 'ec \<times> 'w \<Rightarrow> int \<times> ('ec \<times> 'w)" where
  "client_setup E cw =
     (let L = cl_edhoc E; S = EDHOC_SUCCESS L in
      seq_ok S (call_ctx (edhoc_context_init L) cw) (\<lambda>cw.
      seq_ok S (call_ctx (edhoc_set_methods L [EDHOC_METHOD_3]) cw) (\<lambda>cw.
      seq_ok S (call_ctx (edhoc_set_cipher_suites L (edhoc_cipher_suite_0_get_suite L) 1) cw) (\<lambda>cw.
      seq_ok S (call_ctx (edhoc_set_connection_id L (initiator_cid E)) cw) (\<lambda>cw.
      seq_ok S (call_ctx (edhoc_bind_keys L (edhoc_cipher_suite_0_get_keys L)) cw) (\<lambda>cw.
      seq_ok S (call_ctx (edhoc_bind_crypto L (edhoc_cipher_suite_0_get_crypto L)) cw) (\<lambda>cw.
      call_ctx (edhoc_bind_credentials L (initiator_credentials E)) cw)))))))"

text \<open>
  One exchange of the handshake: compose a message, prefix it with one byte, post it, and process the
  answer. \<open>None\<close> is an early return of \<open>main\<close> with status 1. The source has it twice, with 0xf5,
  message_1 and message_2, and with the byte of C_R, message_3 and message_4.
\<close>

definition exchange ::
  "('w, 'p, 'ec, 'oc, 'x, 'd) client_env \<Rightarrow> (u32 \<Rightarrow> 'w \<Rightarrow> 'ec \<Rightarrow> int \<times> u8 list \<times> u32 \<times> 'ec \<times> 'w) \<Rightarrow>
   u8 \<Rightarrow> (u8 list \<Rightarrow> u32 \<Rightarrow> 'w \<Rightarrow> 'ec \<Rightarrow> int \<times> 'ec \<times> 'w) \<Rightarrow> 'ec \<Rightarrow> u8 list \<Rightarrow> 'w client_state \<Rightarrow>
   ('ec \<times> u8 list) option \<times> 'w client_state" where
  "exchange E compose mark process c resp s =
     (let S = EDHOC_SUCCESS (cl_edhoc E);
          (ret, msg, msg_len, c, w) = compose MSG_MAX (cworld s) c;
          s = s\<lparr>cworld := w\<rparr>
      in if ret \<noteq> S then (None, s)
         else
           let framed = mark # take (unat msg_len) msg;
               (r, resp, resp_len, s) = client_edhoc_post (cl_coap E) (cl_sock E) s framed
                 (unat msg_len + 1) resp MSG_MAX
           in if r \<noteq> 0 then (None, s)
              else
                let (ret, c, w) = process resp resp_len (cworld s) c;
                    s = s\<lparr>cworld := w\<rparr>
                in if ret \<noteq> S then (None, s) else (Some (c, resp), s))"

text \<open>
  From the set-up to the OSCORE context: the context, the Sender ID buffer it refers to and the time
  the handshake took. \<open>c0\<close>, \<open>osc0\<close>, \<open>resp0\<close> and \<open>x0\<close> are the uninitialised locals.
\<close>

definition client_handshake ::
  "('w, 'p, 'ec, 'oc, 'x, 'd) client_env \<Rightarrow> 'ec \<Rightarrow> 'oc \<Rightarrow> u8 list \<Rightarrow> oscore_export \<Rightarrow> 'w client_state \<Rightarrow>
   ('oc \<times> u8 list \<times> real) option \<times> 'w client_state" where
  "client_handshake E c0 osc0 resp0 x0 s =
     (let L = cl_edhoc E; I = cl_initiator E;
          (ret, c, w) = client_setup E (c0, cworld s);
          s = s\<lparr>cworld := w\<rparr>
      in if ret \<noteq> EDHOC_SUCCESS L then (None, s)
         else
           let (t_hs0, w) = now_ms (cl_host E) (cworld s); s = s\<lparr>cworld := w\<rparr> in
         case exchange E (edhoc_message_1_compose I) 0xf5 (edhoc_message_2_process I) c resp0 s of
           (None, s) \<Rightarrow> (None, s)
         | (Some (c, resp), s) \<Rightarrow>
             (case exchange E (edhoc_message_3_compose I) (cid_to_cbor (CL_C_R_INT (cl_creds E)))
                     (edhoc_message_4_process I) c resp s of
                (None, s) \<Rightarrow> (None, s)
              | (Some (c, resp), s) \<Rightarrow>
                  let (ret, x, c, w) = edhoc_export_oscore_session L
                         (x0\<lparr>ex_sender_id_len := 0, ex_recipient_id_len := 0\<rparr>) (cworld s) c;
                      s = s\<lparr>cworld := w\<rparr>
                  in if ret \<noteq> EDHOC_SUCCESS L then (None, s)
                     else
                       let (_, c, w) = edhoc_context_deinit L (cworld s) c;
                           params = oscore_params (ex_secret x) (ex_salt x) (ex_sender_id x) (ex_sender_id_len x)
                             (ex_recipient_id x) (ex_recipient_id_len x);
                           (e, osc, w) = oscore_context_init (cl_oscore E) params w osc0;
                           s = s\<lparr>cworld := w\<rparr>
                       in if e \<noteq> ok then (None, s)
                          else
                            let (t, w) = now_ms (cl_host E) (cworld s)
                            in (Some (osc, ex_sender_id x, double (cl_host E) (t - t_hs0)), s\<lparr>cworld := w\<rparr>)))"

subsection \<open>Laws of the PDU class and interoperation with the device\<close>

text \<open>The segments of a path, as \<open>setURI\<close> turns them into Uri-Path options.\<close>

fun segments :: "string \<Rightarrow> string \<Rightarrow> string list" where
  "segments acc [] = [rev acc]"
| "segments acc (c # cs) = (if c = CHR ''/'' then rev acc # segments [] cs else segments (c # acc) cs)"

text \<open>
  \<open>M\<close> reads the message a PDU stands for: each setter sets its part, and a received PDU that validates
  holds its payload.
\<close>

definition pdu_laws :: "'p cantcoap \<Rightarrow> ('p \<Rightarrow> coap_msg) \<Rightarrow> bool" where
  "pdu_laws X M \<longleftrightarrow>
     M (pdu_new X) = \<lparr>m_type = 0, m_code = 0, m_id = 0, m_token = [], m_path = [], m_payload = None\<rparr> \<and>
     (\<forall>v p. M (setVersion X v p) = M p) \<and>
     (\<forall>t p. M (setType X t p) = (M p)\<lparr>m_type := t\<rparr>) \<and>
     (\<forall>c p. M (setCode X c p) = (M p)\<lparr>m_code := c\<rparr>) \<and>
     (\<forall>tok n p. n \<le> length tok \<longrightarrow> n \<le> 8 \<longrightarrow> M (setToken X tok n p) = (M p)\<lparr>m_token := take n tok\<rparr>) \<and>
     (\<forall>i p. M (setMessageID X i p) = (M p)\<lparr>m_id := i\<rparr>) \<and>
     (\<forall>u p. M (setURI X u (length u) p) = (M p)\<lparr>m_path := segments [] u\<rparr>) \<and>
     (\<forall>bs n p. 0 < n \<longrightarrow> n \<le> length bs \<longrightarrow> M (setPayload X bs n p) = (M p)\<lparr>m_payload := Some (take n bs)\<rparr>) \<and>
     (\<forall>p. pdu_validate X p \<longrightarrow> unat (getPayloadLength X p) \<le> length (getPayloadPointer X p))"

text \<open>The bytes of a PDU, parsed by the device's CoAP library, are the message it stands for.\<close>

definition wire_law ::
  "'p cantcoap \<Rightarrow> ('p \<Rightarrow> coap_msg) \<Rightarrow> ('m, 'o) coap_lib \<Rightarrow> ('m coap_packet_scheme \<Rightarrow> coap_msg) \<Rightarrow> bool" where
  "wire_law X M C V \<longleftrightarrow>
     (\<forall>pdu r p. coap_packet_parse C (getPDUPointer X pdu) (of_nat (getPDULength X pdu)) = (r, p) \<longrightarrow> 0 \<le> r \<longrightarrow>
        V p = M pdu)"

lemma post_pdu_message:
  assumes "pdu_laws X M" and "0 < n" and "n \<le> length bs"
  shows "M (post_pdu X token mid bs n) =
    \<lparr>m_type = COAP_CONFIRMABLE, m_code = COAP_METHOD_POST, m_id = mid, m_token = le_bytes32 token,
     m_path = edhoc_path, m_payload = Some (take n bs)\<rparr>"
proof -
  have seg: "length ''.well-known/edhoc'' = 17" "segments [] ''.well-known/edhoc'' = edhoc_path"
    by (simp_all add: edhoc_path_def)
  have "M (setURI X u (length u) p) = (M p)\<lparr>m_path := segments [] u\<rparr>" for u p
    using assms(1) unfolding pdu_laws_def by blast
  from this [of "''.well-known/edhoc''", unfolded seg]
  have uri: "M (setURI X ''.well-known/edhoc'' 17 p) = (M p)\<lparr>m_path := edhoc_path\<rparr>" for p .
  show ?thesis
    using assms by (simp add: post_pdu_def uri pdu_laws_def le_bytes32_def)
qed

lemma exchange_framing:
  assumes "pdu_laws X M" and "wire_law X M C V" and "coap_laws C V W"
    and "msg \<noteq> []" and "length msg \<le> 256"
    and "coap_packet_parse C (getPDUPointer X (post_pdu X token mid (mark # msg) (length msg + 1)))
           (of_nat (getPDULength X (post_pdu X token mid (mark # msg) (length msg + 1)))) = (r, p)" "0 \<le> r"
  shows "m_path (V p) = edhoc_path" "m_code (V p) = COAP_METHOD_POST"
    "framing C p = edhoc_unframe (Some (mark # msg)) (of_nat (length (mark # msg)))"
proof -
  have "V p = M (post_pdu X token mid (mark # msg) (length msg + 1))"
    using assms(2,6,7) by (simp add: wire_law_def)
  then have v: "V p = \<lparr>m_type = COAP_CONFIRMABLE, m_code = COAP_METHOD_POST, m_id = mid,
      m_token = le_bytes32 token, m_path = edhoc_path, m_payload = Some (mark # msg)\<rparr>"
    using post_pdu_message [OF assms(1), of "length msg + 1" "mark # msg" token mid] by simp
  then show "m_path (V p) = edhoc_path" "m_code (V p) = COAP_METHOD_POST" by simp_all
  show "framing C p = edhoc_unframe (Some (mark # msg)) (of_nat (length (mark # msg)))"
    by (simp add: framing_def coap_laws_payload(1) [OF assms(3)] v)
qed

lemma client_header_c_r: "client_header di cred_i pr cred_r = Some K \<Longrightarrow> CL_C_R_INT K = -8"
  by (auto simp: client_header_def C_R_INT_def)

text \<open>What the client hands libedhoc fits its compile-time limits: one suite, one-byte identifiers and kid.\<close>

lemma client_within_config:
  assumes "client_header di cred_i pr cred_r = Some K" and "client_cred_fetch L K w creds = (r, creds', w')"
  shows "length (cbor_enc (CInt (CL_C_I_INT K))) \<le> MAX_LEN_OF_CONN_ID edhoc_config"
    "length (cbor_enc (CInt (CL_C_R_INT K))) \<le> MAX_LEN_OF_CONN_ID edhoc_config"
    "unat (key_id_bstr_length (key_id creds')) \<le> MAX_LEN_OF_CRED_KEY_ID edhoc_config"
proof -
  have "CL_C_I_INT K = C_I_INT" "CL_C_R_INT K = C_R_INT" using assms(1) by (auto simp: client_header_def)
  then show "length (cbor_enc (CInt (CL_C_I_INT K))) \<le> MAX_LEN_OF_CONN_ID edhoc_config"
    "length (cbor_enc (CInt (CL_C_R_INT K))) \<le> MAX_LEN_OF_CONN_ID edhoc_config"
    by (simp_all add: C_I_INT_def C_R_INT_def edhoc_config_def cbor_head_def)
  show "unat (key_id_bstr_length (key_id creds')) \<le> MAX_LEN_OF_CRED_KEY_ID edhoc_config"
    using assms(2) by (auto simp: client_cred_fetch_def Let_def edhoc_config_def split: prod.splits if_splits)
qed

lemma client_framing:
  assumes "pdu_laws X M" and "wire_law X M C V" and "coap_laws C V W"
    and "client_header di cred_i pr cred_r = Some K"
    and "msg \<noteq> []" and "length msg \<le> 256" and "mark = 0xf5 \<or> mark = cid_to_cbor (CL_C_R_INT K)"
    and "coap_packet_parse C (getPDUPointer X (post_pdu X token mid (mark # msg) (length msg + 1)))
           (of_nat (getPDULength X (post_pdu X token mid (mark # msg) (length msg + 1)))) = (r, p)" "0 \<le> r"
  shows "m_path (V p) = edhoc_path \<and> m_code (V p) = COAP_METHOD_POST \<and>
         framing C p = Inr (mark = 0xf5, msg, of_nat (length msg))"
proof -
  note e = exchange_framing [OF assms(1-3,5,6,8,9)]
  note c_r = client_header_c_r [OF assms(4)]
  have "edhoc_unframe (Some (mark # msg)) (of_nat (length (mark # msg))) =
      Inr (mark = 0xf5, msg, of_nat (length msg))"
  proof (cases "mark = 0xf5")
    case True
    with unframe_message_1 [of msg] assms(6) show ?thesis by simp
  next
    case False
    with assms(7) c_r cid_encodes [of "-8"] have m: "cbor_enc (CInt (-8)) = [mark]" by simp
    with unframe_message_3 [of "CInt (-8)" msg] assms(5,6) False show ?thesis by simp
  qed
  with e show ?thesis by simp
qed

text \<open>C19: the two ends agree on the framing: the datagram the client sends for a composed message, parsed
  by the device, is a POST to /.well-known/edhoc that the device takes for message_1 when the client
  marked it 0xf5, and for message_3 when the client marked it with C_R, and it recovers exactly the
  composed bytes.\<close>

theorem client_message_understood:
  assumes "pdu_laws X M" and "wire_law X M C V" and "coap_laws C V W"
    and "client_header di cred_i pr cred_r = Some K"
    and "msg \<noteq> []" and "length msg \<le> 256" and "mark = 0xf5 \<or> mark = cid_to_cbor (CL_C_R_INT K)"
    and "coap_packet_parse C (getPDUPointer X (post_pdu X token mid (mark # msg) (length msg + 1)))
           (of_nat (getPDULength X (post_pdu X token mid (mark # msg) (length msg + 1)))) = (r, p)" "0 \<le> r"
  shows "m_path (V p) = edhoc_path \<and> m_code (V p) = COAP_METHOD_POST \<and>
         framing C p = Inr (mark = 0xf5, msg, of_nat (length msg))"
  using assms by (rule client_framing)

text \<open>
  A PDU class whose PDUs are messages, with an encoder for confirmable messages with a four-byte token
  and a path of short segments; it gives an empty datagram for anything else.
\<close>

definition plain_msg :: "coap_msg \<Rightarrow> bool" where
  "plain_msg m \<longleftrightarrow> m_type m = 0 \<and> length (m_token m) = 4 \<and> length (m_path m) \<le> 4 \<and>
     (\<forall>seg \<in> set (m_path m). length seg < 13) \<and>
     (\<forall>bs. m_payload m = Some bs \<longrightarrow> bs \<noteq> [] \<and> length bs \<le> 300)"

text \<open>Uri-Path options after an option of number \<open>d\<close>, and the payload with its marker.\<close>

fun encode_path :: "nat \<Rightarrow> string list \<Rightarrow> u8 list" where
  "encode_path d [] = []"
| "encode_path d (seg # segs) = of_nat (16 * (11 - d) + length seg) # bytes seg @ encode_path 11 segs"

definition encode_payload :: "u8 list option \<Rightarrow> u8 list" where
  "encode_payload pl = (case pl of None \<Rightarrow> [] | Some bs \<Rightarrow> 0xff # bs)"

definition msg_bytes :: "coap_msg \<Rightarrow> u8 list" where
  "msg_bytes m = [0x44, m_code m, ucast (drop_bit 8 (m_id m)), ucast (m_id m)] @ m_token m @
     encode_path 0 (m_path m) @ encode_payload (m_payload m)"

definition ref_cantcoap :: "coap_msg cantcoap" where
  "ref_cantcoap = \<lparr>
     pdu_new = \<lparr>m_type = 0, m_code = 0, m_id = 0, m_token = [], m_path = [], m_payload = None\<rparr>,
     setVersion = (\<lambda>v m. m), setType = (\<lambda>t m. m\<lparr>m_type := t\<rparr>), setCode = (\<lambda>c m. m\<lparr>m_code := c\<rparr>),
     setToken = (\<lambda>tok n m. m\<lparr>m_token := take n tok\<rparr>), setMessageID = (\<lambda>i m. m\<lparr>m_id := i\<rparr>),
     setURI = (\<lambda>u n m. m\<lparr>m_path := segments [] (take n u)\<rparr>),
     setPayload = (\<lambda>bs n m. m\<lparr>m_payload := Some (take n bs)\<rparr>),
     getPDUPointer = msg_bytes, getPDULength = (\<lambda>m. if plain_msg m then length (msg_bytes m) else 0),
     pdu_of_bytes = (\<lambda>bs n. ref_decode (take n bs)), pdu_validate = (\<lambda>m. True),
     getPayloadLength = (\<lambda>m. of_nat (length (case m_payload m of None \<Rightarrow> [] | Some bs \<Rightarrow> bs))),
     getPayloadPointer = (\<lambda>m. case m_payload m of None \<Rightarrow> [] | Some bs \<Rightarrow> bs)\<rparr>"

lemma ref_pdu_laws: "pdu_laws ref_cantcoap id"
  by (simp add: pdu_laws_def ref_cantcoap_def unat_of_nat)

lemma be16_id: "push_bit 8 (ucast (ucast (drop_bit 8 i) :: u8)) OR ucast (ucast i :: u8) = (i :: u16)"
  by (intro bit_word_eqI) (auto simp: bit_simps)

lemma option_byte:
  assumes "d = 0 \<or> d = 11" and "n < 13"
  shows "unat (drop_bit 4 (of_nat (16 * (11 - d) + n) :: u8)) = 11 - d" "unat ((of_nat (16 * (11 - d) + n) :: u8) AND 15) = n"
    "(of_nat (16 * (11 - d) + n) :: u8) \<noteq> 0xff"
proof -
  define b :: u8 where "b = of_nat (16 * (11 - d) + n)"
  have "16 * (11 - d) + n < 256" using assms by auto
  then have u: "unat b = 16 * (11 - d) + n" unfolding b_def unat_of_nat by simp
  have "unat (drop_bit 4 b) = unat b div 16" by (simp add: unsigned_drop_bit_eq drop_bit_eq_div unat_div)
  then show "unat (drop_bit 4 (of_nat (16 * (11 - d) + n) :: u8)) = 11 - d"
    unfolding b_def [symmetric] using assms(2) u by simp
  have "b AND 15 = take_bit 4 b" by (simp add: take_bit_eq_mask mask_eq_exp_minus_1)
  then have "unat (b AND 15) = unat b mod 16" by (simp add: unsigned_take_bit_eq take_bit_eq_mod unat_mod)
  then show "unat ((of_nat (16 * (11 - d) + n) :: u8) AND 15) = n"
    unfolding b_def [symmetric] using assms(2) u by simp
  have "unat b \<noteq> unat (0xff :: u8)" using assms u by auto
  then show "(of_nat (16 * (11 - d) + n) :: u8) \<noteq> 0xff" unfolding b_def [symmetric] by metis
qed

lemma char_bytes: "map (\<lambda>x. char_of (unat x)) (bytes s) = s"
  by (induction s) (simp_all add: unat_of_nat)

lemma options_encode:
  assumes "d = 0 \<or> d = 11" and "\<forall>seg \<in> set segs. length seg < 13"
  shows "ref_options d (encode_path d segs @ encode_payload pl) = (segs, pl)"
  using assms
proof (induction segs arbitrary: d)
  case Nil
  show ?case by (simp add: encode_payload_def split: option.splits)
next
  case (Cons seg segs)
  with option_byte [of d "length seg"] Cons.IH [of 11] show ?case by (auto simp: Let_def char_bytes)
qed

lemma length_encode_path: "\<forall>seg \<in> set segs. length seg < 13 \<Longrightarrow> length (encode_path d segs) \<le> 13 * length segs"
proof (induction segs arbitrary: d)
  case (Cons seg segs)
  then have "length (encode_path 11 segs) \<le> 13 * length segs" "length seg < 13" by simp_all
  then show ?case by simp
qed simp

lemma decode_msg:
  assumes "plain_msg m"
  shows "ref_decode (msg_bytes m) = m"
proof -
  obtain a b c d where tok: "m_token m = [a, b, c, d]"
    using assms by (auto simp: plain_msg_def numeral_eq_Suc length_Suc_conv)
  have "ref_options 0 (encode_path 0 (m_path m) @ encode_payload (m_payload m)) = (m_path m, m_payload m)"
    using assms by (intro options_encode) (auto simp: plain_msg_def)
  with assms show ?thesis
    by (cases m) (simp add: msg_bytes_def ref_decode_def Let_def be16_id tok plain_msg_def)
qed

lemma plain_msg_length: "plain_msg m \<Longrightarrow> length (msg_bytes m) < 65536"
  using length_encode_path [of "m_path m" 0]
  by (auto simp: plain_msg_def msg_bytes_def encode_payload_def split: option.splits)

lemma ref_wire_law: "wire_law ref_cantcoap id ref_lib ref_view"
  unfolding wire_law_def
proof (intro allI impI)
  fix pdu r p
  assume p: "coap_packet_parse ref_lib (getPDUPointer ref_cantcoap pdu)
      (of_nat (getPDULength ref_cantcoap pdu)) = (r, p)" and "0 \<le> r"
  then have m: "plain_msg pdu"
    by (auto simp: ref_lib_def ref_cantcoap_def ref_parse_def EINVAL_def split: if_splits)
  with p plain_msg_length [OF m] have "coap_packet.more p = ref_decode (msg_bytes pdu)"
    by (auto simp: ref_lib_def ref_cantcoap_def ref_parse_def unat_of_nat_u16)
  with decode_msg [OF m] m show "ref_view p = id pdu"
    by (cases "m_payload pdu") (auto simp: ref_view_def plain_msg_def)
qed

theorem client_message_understood_witness:
  "\<exists>r p. coap_packet_parse ref_lib (getPDUPointer ref_cantcoap (post_pdu ref_cantcoap 1 0 [0xf5, 0x03] 2))
       (of_nat (getPDULength ref_cantcoap (post_pdu ref_cantcoap 1 0 [0xf5, 0x03] 2))) = (r, p) \<and> 0 \<le> r \<and>
     framing ref_lib p = Inr (True, [0x03], 1)"
proof -
  let ?pdu = "post_pdu ref_cantcoap 1 0 [0xf5, 0x03] (length [0x03 :: u8] + 1)"
  obtain r p where p: "coap_packet_parse ref_lib (getPDUPointer ref_cantcoap ?pdu)
       (of_nat (getPDULength ref_cantcoap ?pdu)) = (r, p)" by fastforce
  have "?pdu = \<lparr>m_type = COAP_CONFIRMABLE, m_code = COAP_METHOD_POST, m_id = 0, m_token = le_bytes32 1,
     m_path = edhoc_path, m_payload = Some [0xf5, 0x03]\<rparr>"
    using post_pdu_message [OF ref_pdu_laws, of "length [0x03 :: u8] + 1" "[0xf5, 0x03]" 1 0] by simp
  then have "plain_msg ?pdu"
    by (simp add: plain_msg_def COAP_CONFIRMABLE_def le_bytes32_def edhoc_path_def)
  moreover have "length (msg_bytes ?pdu) = 29"
    unfolding \<open>?pdu = _\<close> by (simp add: msg_bytes_def encode_payload_def edhoc_path_def le_bytes32_def)
  ultimately have "0 \<le> r" using p by (auto simp: ref_lib_def ref_cantcoap_def ref_parse_def)
  with client_message_understood [OF ref_pdu_laws ref_wire_law ref_coap_laws ref_client_header _ _ _ p] p
  show ?thesis by (fastforce simp: numeral_2_eq_2)
qed

subsection \<open>Counters and buffers\<close>

lemma client_edhoc_post_counters:
  "client_edhoc_post X S s payload len resp resp_len = (r, resp', resp_len', s') \<Longrightarrow>
   post_mid s' = post_mid s + 1 \<and> post_token s' = post_token s + 1 \<and>
   req_mid s' = req_mid s \<and> req_token s' = req_token s"
  by (auto simp: client_edhoc_post_def Let_def split: prod.splits if_splits)

text \<open>
  A POST on the wire: what is sent are the bytes of a confirmable POST to /.well-known/edhoc with the
  static message ID and the next token, and what is received, if it is a valid CoAP message whose
  payload fits, is that payload.
\<close>

definition edhoc_request :: "u16 \<Rightarrow> u32 \<Rightarrow> u8 list \<Rightarrow> coap_msg" where
  "edhoc_request mid token bs = \<lparr>m_type = COAP_CONFIRMABLE, m_code = COAP_METHOD_POST, m_id = mid,
     m_token = le_bytes32 token, m_path = [''.well-known'', ''edhoc''], m_payload = Some bs\<rparr>"

definition posted ::
  "'p cantcoap \<Rightarrow> ('p \<Rightarrow> coap_msg) \<Rightarrow> 'w sock_lib \<Rightarrow> 'w client_state \<Rightarrow> u8 list \<Rightarrow> int \<Rightarrow> 'w \<Rightarrow> bool" where
  "posted X M S s bs q w \<longleftrightarrow> (\<exists>pdu. M pdu = edhoc_request (post_mid s) (post_token s + 1) bs \<and>
     send S (cworld s) (getPDUPointer X pdu) (getPDULength X pdu) = (q, w))"

definition received_payload :: "'p cantcoap \<Rightarrow> 'w sock_lib \<Rightarrow> 'w \<Rightarrow> u32 \<Rightarrow> u8 list option \<times> 'w" where
  "received_payload X S w cap =
     (let (n, buf, w') = recv S w (MAXLINE S);
          rx = pdu_of_bytes X buf (nat n); pl = getPayloadLength X rx
      in (if 0 \<le> n \<and> pdu_validate X rx \<and> pl \<le> cap then Some (take (unat pl) (getPayloadPointer X rx)) else None,
          w'))"

lemma post_pdu_posted:
  assumes "pdu_laws X M" and "0 < len" and "len \<le> length payload"
    and "send S (cworld s) (getPDUPointer X (post_pdu X (post_token s + 1) (post_mid s) payload len))
      (getPDULength X (post_pdu X (post_token s + 1) (post_mid s) payload len)) = (q, w)"
  shows "posted X M S s (take len payload) q w"
  unfolding posted_def edhoc_request_def using post_pdu_message [OF assms(1-3)] assms(4)
  by (metis edhoc_path_def)

lemma client_edhoc_post_run:
  assumes "pdu_laws X M" and "0 < len" and "len \<le> length payload"
    and "client_edhoc_post X S s payload len resp resp_len = (r, resp', resp_len', s')"
  obtains q w where "posted X M S s (take len payload) q w" "q < 0" "r = -1" "resp' = resp" "resp_len' = resp_len"
      "cworld s' = w"
  | q w where "posted X M S s (take len payload) q w" "0 \<le> q" "received_payload X S w resp_len = (None, cworld s')"
      "r = -1" "resp' = resp" "resp_len' = resp_len"
  | q w bs where "posted X M S s (take len payload) q w" "0 \<le> q" "received_payload X S w resp_len = (Some bs, cworld s')"
      "r = 0" "resp' = bs @ drop (length bs) resp" "unat resp_len' = length bs" "resp_len' \<le> resp_len"
proof -
  let ?pdu = "post_pdu X (post_token s + 1) (post_mid s) payload len"
  obtain q w where q: "send S (cworld s) (getPDUPointer X ?pdu) (getPDULength X ?pdu) = (q, w)" by fastforce
  from post_pdu_posted [OF assms(1-3) q] have p: "posted X M S s (take len payload) q w" .
  obtain n buf w' where n: "recv S w (MAXLINE S) = (n, buf, w')" by (metis prod_cases3)
  define rx where "rx = pdu_of_bytes X buf (nat n)"
  define pl where "pl = getPayloadLength X rx"
  define bad where "bad \<longleftrightarrow> n < 0 \<or> \<not> pdu_validate X rx \<or> resp_len < pl"
  have eq: "(r, resp', resp_len', s') =
      (let s = s\<lparr>post_token := post_token s + 1, post_mid := post_mid s + 1\<rparr>
       in if q < 0 then (-1, resp, resp_len, s\<lparr>cworld := w\<rparr>)
          else if bad then (-1, resp, resp_len, s\<lparr>cworld := w'\<rparr>)
          else (0, take (unat pl) (getPayloadPointer X rx) @ drop (unat pl) resp, pl, s\<lparr>cworld := w'\<rparr>))"
    using assms(4) by (auto simp: client_edhoc_post_def Let_def q n rx_def pl_def bad_def split: if_splits)
  have rec: "received_payload X S w resp_len = (if bad then None else Some (take (unat pl) (getPayloadPointer X rx)), w')"
    by (auto simp: received_payload_def n rx_def pl_def bad_def Let_def)
  consider "q < 0" | "0 \<le> q" bad | "0 \<le> q" "\<not> bad" by linarith
  then show thesis
  proof cases
    case 1
    with eq show thesis by (intro that(1) [OF p]) (simp_all add: Let_def)
  next
    case 2
    with eq rec show thesis by (intro that(2) [OF p]) (auto simp: Let_def)
  next
    case 3
    then have "unat pl \<le> length (getPayloadPointer X rx)" "pl \<le> resp_len"
      using assms(1) by (auto simp: pdu_laws_def pl_def bad_def)
    with 3 eq rec show thesis by (intro that(3) [OF p]) (auto simp: Let_def)
  qed
qed

text \<open>C33: the client's \<open>edhoc_post\<close> sends one datagram, the bytes of a confirmable POST of its payload to
  /.well-known/edhoc whose message ID and token are those of its counters, which it advances by one.
  It returns 0 exactly when a valid CoAP message whose payload fits the capacity was received, and
  then the buffer starts with that payload and the length is its length. Whatever the device
  answers, nothing is written past the returned length, which is within the capacity, and a failure
  leaves the buffer alone.\<close>

theorem client_edhoc_post_bounds:
  assumes "pdu_laws X M" and "unat resp_len \<le> length resp" and "0 < len" and "len \<le> length payload"
    and "client_edhoc_post X S s payload len resp resp_len = (r, resp', resp_len', s')"
  shows "\<exists>q w. posted X M S s (take len payload) q w \<and>
    post_mid s' = post_mid s + 1 \<and> post_token s' = post_token s + 1 \<and>
    (if q < 0 then r = -1 \<and> cworld s' = w
     else received_payload X S w resp_len = (if r = 0 then Some (take (unat resp_len') resp') else None, cworld s')) \<and>
    (r = 0 \<or> r = -1 \<and> resp' = resp \<and> resp_len' = resp_len) \<and>
    resp_len' \<le> resp_len \<and> length resp' = length resp \<and> drop (unat resp_len') resp' = drop (unat resp_len') resp"
proof -
  note c = client_edhoc_post_counters [OF assms(5)]
  from assms(1,3-5) show ?thesis
  proof (cases rule: client_edhoc_post_run)
    case (1 q w)
    with c show ?thesis by (intro exI [of _ q] exI [of _ w]) simp
  next
    case (2 q w)
    with c show ?thesis by (intro exI [of _ q] exI [of _ w]) simp
  next
    case (3 q w bs)
    then have "length bs \<le> length resp" using assms(2) by (simp add: word_le_nat_alt)
    with 3 c show ?thesis by (intro exI [of _ q] exI [of _ w]) simp
  qed
qed

text \<open>A peer that answers every datagram with a 2.04 carrying two bytes.\<close>

definition ref_sock :: "unit sock_lib" where
  "ref_sock = \<lparr>send = (\<lambda>w bs n. (int n, w)),
     recv = (\<lambda>w n. (7, [0x60, 0x44, 0, 0, 0xff, 0x41, 0x00], w)), MAXLINE = 1024\<rparr>"

lemma ref_received_payload: "received_payload ref_cantcoap ref_sock w 256 = (Some [0x41, 0x00], ())"
  by (simp add: received_payload_def ref_sock_def ref_cantcoap_def ref_decode_def Let_def)

theorem client_edhoc_post_bounds_witness:
  "\<exists>resp' s'. client_edhoc_post ref_cantcoap ref_sock (client_init ()) [0xf5, 0x03] 2 (replicate 256 7) 256 =
     (0, resp', 2, s') \<and> resp' = [0x41, 0x00] @ replicate 254 7 \<and> post_mid s' = 1"
proof -
  obtain r resp' n s' where p: "client_edhoc_post ref_cantcoap ref_sock (client_init ()) [0xf5, 0x03] 2
      (replicate 256 7) 256 = (r, resp', n, s')" by (metis prod_cases4)
  have n: "r = 0" "n = 2"
    using p by (simp_all add: client_edhoc_post_def ref_sock_def ref_cantcoap_def ref_decode_def Let_def)
  have "0 \<le> q" if "posted ref_cantcoap id ref_sock t bs q w" for t bs q w
    using that by (auto simp: posted_def ref_sock_def)
  then obtain w where w: "received_payload ref_cantcoap ref_sock w 256 = (Some (take 2 resp'), cworld s')"
    "drop 2 resp' = drop 2 (replicate 256 7)" "post_mid s' = post_mid (client_init ()) + 1"
    using client_edhoc_post_bounds [OF ref_pdu_laws _ _ _ p] n by (fastforce simp: not_less [symmetric])
  have "resp' = [0x41, 0x00] @ replicate 254 7"
    using w(1,2) ref_received_payload [of w] append_take_drop_id [of 2 resp'] by simp
  then show ?thesis using p n w(3) by (simp add: client_init_def)
qed

subsection \<open>The handshake as a whole\<close>

text \<open>A composed message is not empty, within the capacity and within the returned bytes.\<close>

definition composes :: "(u32 \<Rightarrow> 'w \<Rightarrow> 'ec \<Rightarrow> int \<times> u8 list \<times> u32 \<times> 'ec \<times> 'w) \<Rightarrow> int \<Rightarrow> bool" where
  "composes f success \<longleftrightarrow> (\<forall>cap w c msg len c' w'. f cap w c = (success, msg, len, c', w') \<longrightarrow>
     0 < len \<and> len \<le> cap \<and> unat len \<le> length msg)"

text \<open>
  One successful exchange: a message is composed, posted behind its mark, and the payload received
  in answer is what is processed, in the response buffer.
\<close>

definition exchanged ::
  "('w, 'p, 'ec, 'oc, 'x, 'd) client_env \<Rightarrow> ('p \<Rightarrow> coap_msg) \<Rightarrow>
   (u32 \<Rightarrow> 'w \<Rightarrow> 'ec \<Rightarrow> int \<times> u8 list \<times> u32 \<times> 'ec \<times> 'w) \<Rightarrow> u8 \<Rightarrow>
   (u8 list \<Rightarrow> u32 \<Rightarrow> 'w \<Rightarrow> 'ec \<Rightarrow> int \<times> 'ec \<times> 'w) \<Rightarrow>
   'ec \<Rightarrow> u8 list \<Rightarrow> 'w client_state \<Rightarrow> 'ec \<Rightarrow> u8 list \<Rightarrow> 'w client_state \<Rightarrow> bool" where
  "exchanged E M compose mark process c resp s c' resp' s' \<longleftrightarrow>
     (\<exists>msg len c1 w1 q w2 bs w3.
        compose 256 (cworld s) c = (EDHOC_SUCCESS (cl_edhoc E), msg, len, c1, w1) \<and>
        posted (cl_coap E) M (cl_sock E) (s\<lparr>cworld := w1\<rparr>) (mark # take (unat len) msg) q w2 \<and> 0 \<le> q \<and>
        received_payload (cl_coap E) (cl_sock E) w2 256 = (Some bs, w3) \<and> resp' = bs @ drop (length bs) resp \<and>
        process resp' (of_nat (length bs)) w3 c1 = (EDHOC_SUCCESS (cl_edhoc E), c', cworld s') \<and>
        post_mid s' = post_mid s + 1 \<and> post_token s' = post_token s + 1)"

lemma exchange_exchanged:
  assumes "pdu_laws (cl_coap E) M" and "composes compose (EDHOC_SUCCESS (cl_edhoc E))"
    and "exchange E compose mark process c resp s = (Some (c', resp'), s')"
  shows "exchanged E M compose mark process c resp s c' resp' s'"
proof -
  let ?S = "EDHOC_SUCCESS (cl_edhoc E)"
  obtain ret msg len c1 w1 where 1: "compose MSG_MAX (cworld s) c = (ret, msg, len, c1, w1)"
    by (metis prod_cases5)
  let ?s = "s\<lparr>cworld := w1\<rparr>" and ?bs = "mark # take (unat len) msg"
  obtain r resp2 len2 s2 where 2: "client_edhoc_post (cl_coap E) (cl_sock E) ?s ?bs (Suc (unat len)) resp MSG_MAX =
      (r, resp2, len2, s2)" by (metis prod_cases4)
  obtain ret3 c3 w3 where 3: "process resp2 len2 (cworld s2) c1 = (ret3, c3, w3)" by (metis prod_cases3)
  from assms(3) have ok: "ret = ?S" "r = 0" "ret3 = ?S" "c' = c3" "resp' = resp2" "s' = s2\<lparr>cworld := w3\<rparr>"
    by (simp_all add: exchange_def 1 2 3 Let_def split: if_splits)
  have "unat len \<le> length msg" using assms(2) 1 ok(1) unfolding composes_def by blast
  then have l: "Suc (unat len) \<le> length ?bs" "take (Suc (unat len)) ?bs = ?bs" by simp_all
  note c = client_edhoc_post_counters [OF 2]
  obtain q w bs where p: "posted (cl_coap E) M (cl_sock E) ?s ?bs q w" "0 \<le> q"
    "received_payload (cl_coap E) (cl_sock E) w 256 = (Some bs, cworld s2)"
    "resp2 = bs @ drop (length bs) resp" "unat len2 = length bs"
    using assms(1) zero_less_Suc l(1) 2
    by (cases rule: client_edhoc_post_run) (use ok(2) l(2) in \<open>auto simp: MSG_MAX_def\<close>)
  moreover have "len2 = of_nat (unat len2)" by simp
  ultimately have "len2 = of_nat (length bs)" by metis
  with p 1 3 ok c show ?thesis unfolding exchanged_def MSG_MAX_def by fastforce
qed

text \<open>The calls of a successful handshake, in order.\<close>

lemma client_handshake_run:
  assumes "client_handshake E c0 osc0 resp0 x0 s = (Some (osc, sid, hs_ms), s')"
  obtains c w t0 w0 c1 resp1 s1 c2 resp2 s2 x c3 w3 r4 c4 w4 w5 t1 w6 where
    "client_setup E (c0, cworld s) = (EDHOC_SUCCESS (cl_edhoc E), c, w)" "now_ms (cl_host E) w = (t0, w0)"
    "exchange E (edhoc_message_1_compose (cl_initiator E)) 0xf5 (edhoc_message_2_process (cl_initiator E)) c resp0
       (s\<lparr>cworld := w0\<rparr>) = (Some (c1, resp1), s1)"
    "exchange E (edhoc_message_3_compose (cl_initiator E)) (cid_to_cbor (CL_C_R_INT (cl_creds E)))
       (edhoc_message_4_process (cl_initiator E)) c1 resp1 s1 = (Some (c2, resp2), s2)"
    "edhoc_export_oscore_session (cl_edhoc E) (x0\<lparr>ex_sender_id_len := 0, ex_recipient_id_len := 0\<rparr>) (cworld s2) c2 =
       (EDHOC_SUCCESS (cl_edhoc E), x, c3, w3)"
    "edhoc_context_deinit (cl_edhoc E) w3 c3 = (r4, c4, w4)"
    "oscore_context_init (cl_oscore E) (oscore_params (ex_secret x) (ex_salt x) sid (ex_sender_id_len x)
       (ex_recipient_id x) (ex_recipient_id_len x)) w4 osc0 = (ok, osc, w5)"
    "now_ms (cl_host E) w5 = (t1, w6)" "s' = s2\<lparr>cworld := w6\<rparr>"
    "sid = ex_sender_id x" "hs_ms = double (cl_host E) (t1 - t0)"
proof -
  let ?S = "EDHOC_SUCCESS (cl_edhoc E)" and ?I = "cl_initiator E"
  obtain ret c w where 0: "client_setup E (c0, cworld s) = (ret, c, w)" by (metis prod_cases3)
  obtain t0 w0 where t: "now_ms (cl_host E) w = (t0, w0)" by fastforce
  obtain e1 s1 where 1: "exchange E (edhoc_message_1_compose ?I) 0xf5 (edhoc_message_2_process ?I) c resp0
      (s\<lparr>cworld := w0\<rparr>) = (e1, s1)" by fastforce
  from assms 0 t 1 obtain c1 resp1 where e1: "e1 = Some (c1, resp1)"
    by (cases e1) (auto simp: client_handshake_def Let_def split: if_splits)
  obtain e2 s2 where 2: "exchange E (edhoc_message_3_compose ?I) (cid_to_cbor (CL_C_R_INT (cl_creds E)))
      (edhoc_message_4_process ?I) c1 resp1 s1 = (e2, s2)" by fastforce
  from assms 0 t 1 e1 2 obtain c2 resp2 where e2: "e2 = Some (c2, resp2)"
    by (cases e2) (auto simp: client_handshake_def Let_def split: if_splits)
  obtain ret3 x c3 w3 where 3: "edhoc_export_oscore_session (cl_edhoc E)
      (x0\<lparr>ex_sender_id_len := 0, ex_recipient_id_len := 0\<rparr>) (cworld s2) c2 = (ret3, x, c3, w3)"
    by (metis prod_cases4)
  obtain r4 c4 w4 where 4: "edhoc_context_deinit (cl_edhoc E) w3 c3 = (r4, c4, w4)" by (metis prod_cases3)
  obtain e osc' w5 where 5: "oscore_context_init (cl_oscore E) (oscore_params (ex_secret x) (ex_salt x)
      (ex_sender_id x) (ex_sender_id_len x) (ex_recipient_id x) (ex_recipient_id_len x)) w4 osc0 = (e, osc', w5)"
    by (metis prod_cases3)
  obtain t1 w6 where t1: "now_ms (cl_host E) w5 = (t1, w6)" by fastforce
  from assms 0 t 1 e1 2 e2 3 4 5 t1 have f: "ret3 = ?S" "e = ok" "osc' = osc" "sid = ex_sender_id x"
    "s' = s2\<lparr>cworld := w6\<rparr>" "hs_ms = double (cl_host E) (t1 - t0)"
    by (auto simp: client_handshake_def Let_def split: if_splits)
  from assms 0 t 1 e1 2 e2 3 have "ret = ?S" "ret3 = ?S"
    by (auto simp: client_handshake_def Let_def split: if_splits)
  with 0 t 1 e1 2 e2 3 4 5 t1 f show thesis by (intro that) simp_all
qed

text \<open>C32: the client comes out of the handshake with an OSCORE context only if everything succeeded, each
  step on the outcome of the one before: message_1 was composed in the configured context and posted
  behind 0xf5, message_2 processed from the payload received in answer, message_3 composed and posted
  behind C_R, message_4 (the key confirmation) processed from the payload received in answer, the
  session exported, and the context initialised from it with the exported Sender ID buffer still
  behind it. Exactly two messages were posted, and the time is measured around all of it.\<close>

theorem client_handshake_complete:
  assumes "pdu_laws (cl_coap E) M"
    and "composes (edhoc_message_1_compose (cl_initiator E)) (EDHOC_SUCCESS (cl_edhoc E))"
    and "composes (edhoc_message_3_compose (cl_initiator E)) (EDHOC_SUCCESS (cl_edhoc E))"
    and "client_handshake E c0 osc0 resp0 x0 s = (Some (osc, sid, hs_ms), s')"
  shows "\<exists>c w t0 w0 c1 resp1 s1 c2 resp2 s2 x c3 w3 r4 c4 w4 w5 t1.
    client_setup E (c0, cworld s) = (EDHOC_SUCCESS (cl_edhoc E), c, w) \<and> now_ms (cl_host E) w = (t0, w0) \<and>
    exchanged E M (edhoc_message_1_compose (cl_initiator E)) 0xf5 (edhoc_message_2_process (cl_initiator E))
      c resp0 (s\<lparr>cworld := w0\<rparr>) c1 resp1 s1 \<and>
    exchanged E M (edhoc_message_3_compose (cl_initiator E)) (cid_to_cbor (CL_C_R_INT (cl_creds E)))
      (edhoc_message_4_process (cl_initiator E)) c1 resp1 s1 c2 resp2 s2 \<and>
    edhoc_export_oscore_session (cl_edhoc E) (x0\<lparr>ex_sender_id_len := 0, ex_recipient_id_len := 0\<rparr>) (cworld s2) c2 =
      (EDHOC_SUCCESS (cl_edhoc E), x, c3, w3) \<and>
    edhoc_context_deinit (cl_edhoc E) w3 c3 = (r4, c4, w4) \<and>
    oscore_context_init (cl_oscore E) (oscore_params (ex_secret x) (ex_salt x) sid (ex_sender_id_len x)
      (ex_recipient_id x) (ex_recipient_id_len x)) w4 osc0 = (ok, osc, w5) \<and> sid = ex_sender_id x \<and>
    now_ms (cl_host E) w5 = (t1, cworld s') \<and> hs_ms = double (cl_host E) (t1 - t0) \<and>
    post_mid s' = post_mid s + 2"
  using assms(4)
proof (rule client_handshake_run)
  fix c w t0 w0 c1 resp1 s1 c2 resp2 s2 x c3 w3 r4 c4 w4 w5 t1 w6
  let ?S = "EDHOC_SUCCESS (cl_edhoc E)" and ?I = "cl_initiator E"
  assume 0: "client_setup E (c0, cworld s) = (?S, c, w)" "now_ms (cl_host E) w = (t0, w0)"
    and 1: "exchange E (edhoc_message_1_compose ?I) 0xf5 (edhoc_message_2_process ?I) c resp0
      (s\<lparr>cworld := w0\<rparr>) = (Some (c1, resp1), s1)"
    and 2: "exchange E (edhoc_message_3_compose ?I) (cid_to_cbor (CL_C_R_INT (cl_creds E)))
      (edhoc_message_4_process ?I) c1 resp1 s1 = (Some (c2, resp2), s2)"
    and 3: "edhoc_export_oscore_session (cl_edhoc E) (x0\<lparr>ex_sender_id_len := 0, ex_recipient_id_len := 0\<rparr>)
      (cworld s2) c2 = (?S, x, c3, w3)" "edhoc_context_deinit (cl_edhoc E) w3 c3 = (r4, c4, w4)"
      "oscore_context_init (cl_oscore E) (oscore_params (ex_secret x) (ex_salt x) sid (ex_sender_id_len x)
       (ex_recipient_id x) (ex_recipient_id_len x)) w4 osc0 = (ok, osc, w5)"
    and 4: "now_ms (cl_host E) w5 = (t1, w6)" "s' = s2\<lparr>cworld := w6\<rparr>" "sid = ex_sender_id x"
      "hs_ms = double (cl_host E) (t1 - t0)"
  note x1 = exchange_exchanged [OF assms(1,2) 1] and x2 = exchange_exchanged [OF assms(1,3) 2]
  then have "post_mid s' = post_mid s + 2" using 4(2) by (auto simp: exchanged_def)
  moreover have "now_ms (cl_host E) w5 = (t1, cworld s')" using 4 by simp
  ultimately show ?thesis using 0 x1 x2 3 4(3,4) by blast
qed

text \<open>A host whose clock stands still and which computes exactly.\<close>

definition ref_host :: "unit host" where
  "ref_host = \<lparr>clock_gettime = (\<lambda>w. ((7, 500000), w)), psa_crypto_init = (\<lambda>w. (0, w)), PSA_SUCCESS = 0,
     sock_init = (\<lambda>h w. (0, w)), set_rcvtimeo = (\<lambda>n w. w), close = id, double = id\<rparr>"

text \<open>A client with this peer whose process calls accept only the two bytes.\<close>

definition ref_client :: "(unit, coap_msg, unit ref_ctx, nat, unit, unit) client_env" where
  "ref_client = \<lparr>cl_coap = ref_cantcoap,
     cl_sock = ref_sock, cl_host = ref_host,
     cl_edhoc = ref_edhoc,
     cl_initiator = \<lparr>edhoc_message_1_compose = (\<lambda>cap w c. (if cap = 0 then -1 else 0, [0x03], 1, c, w)),
       edhoc_message_2_process = (\<lambda>msg n w c. (if take (unat n) msg = [0x41, 0x00] then 0 else -1, c, w)),
       edhoc_message_3_compose = (\<lambda>cap w c. (if cap = 0 then -1 else 0, [0x2a], 1, c, w)),
       edhoc_message_4_process = (\<lambda>msg n w c. (if take (unat n) msg = [0x41, 0x00] then 0 else -1, c, w))\<rparr>,
     cl_oscore = ref_oscore, cl_creds = ref_client_h\<rparr>"

lemma ref_exchange:
  "compose MSG_MAX (cworld s) c = (0, msg, 1, c, cworld s) \<Longrightarrow>
   (\<And>msg n w c. process msg n w c = (if take (unat n) msg = [0x41, 0x00] then 0 else -1, c, w)) \<Longrightarrow>
   \<exists>resp' s'. exchange ref_client compose mark process c resp s = (Some (c, resp'), s')"
  by (simp add: exchange_def client_edhoc_post_def ref_client_def ref_sock_def ref_edhoc_sel Let_def ref_cantcoap_def
      ref_decode_def MSG_MAX_def)

lemma ref_client_setup: "\<exists>c w. client_setup ref_client cw = (0, c, w)"
  by (simp add: client_setup_def ref_client_def seq_ok_def call_ctx_def ref_edhoc_def ref_set_def Let_def)

definition ref_c0 :: "unit ref_ctx" where
  "ref_c0 = \<lparr>rc_config = empty_config, rc_peer = None\<rparr>"

definition ref_x0 :: oscore_export where
  "ref_x0 = \<lparr>ex_secret = replicate 16 0, ex_salt = replicate 8 0, ex_sender_id = replicate 8 0,
     ex_sender_id_len = 0, ex_recipient_id = replicate 8 0, ex_recipient_id_len = 0\<rparr>"

lemma ref_handshake:
  "\<exists>osc sid hs_ms s'. client_handshake ref_client ref_c0 0 (replicate 256 0) ref_x0 s = (Some (osc, sid, hs_ms), s')"
proof -
  let ?I = "cl_initiator ref_client"
  obtain c w where 0: "client_setup ref_client (ref_c0, cworld s) = (0, c, w)" using ref_client_setup by blast
  have 1: "\<exists>resp' s'. exchange ref_client (edhoc_message_1_compose ?I) mark
      (edhoc_message_2_process ?I) c resp s = (Some (c, resp'), s')" for mark c resp s
    by (rule ref_exchange) (simp_all add: ref_client_def MSG_MAX_def)
  have 2: "\<exists>resp' s'. exchange ref_client (edhoc_message_3_compose ?I) mark
      (edhoc_message_4_process ?I) c resp s = (Some (c, resp'), s')" for mark c resp s
    by (rule ref_exchange) (simp_all add: ref_client_def MSG_MAX_def)
  obtain resp1 s1 where x1: "exchange ref_client (edhoc_message_1_compose ?I) 0xf5
      (edhoc_message_2_process ?I) c (replicate 256 0) (s\<lparr>cworld := w\<rparr>) = (Some (c, resp1), s1)" using 1 by blast
  obtain resp2 s2 where x2: "exchange ref_client (edhoc_message_3_compose ?I)
      (cid_to_cbor (CL_C_R_INT (cl_creds ref_client))) (edhoc_message_4_process ?I) c resp1 s1 =
      (Some (c, resp2), s2)" using 2 by blast
  have t: "now_ms (cl_host ref_client) w = (7000 + 1 / 2, w)" for w
    by (simp add: now_ms_def ref_client_def ref_host_def)
  show ?thesis
    using 0 x1 x2 t by (simp add: client_handshake_def Let_def) (simp add: ref_client_def
        ref_edhoc_def ref_set_def ref_oscore_def)
qed

theorem client_handshake_complete_witness:
  "\<exists>osc sid hs_ms s'. client_handshake ref_client ref_c0 0 (replicate 256 0) ref_x0 (client_init ()) =
     (Some (osc, sid, hs_ms), s') \<and> post_mid s' = 2"
proof -
  obtain osc sid hs_ms s' where h: "client_handshake ref_client ref_c0 0 (replicate 256 0) ref_x0 (client_init ()) =
     (Some (osc, sid, hs_ms), s')" using ref_handshake by blast
  have "pdu_laws (cl_coap ref_client) id"
    "composes (edhoc_message_1_compose (cl_initiator ref_client)) (EDHOC_SUCCESS (cl_edhoc ref_client))"
    "composes (edhoc_message_3_compose (cl_initiator ref_client)) (EDHOC_SUCCESS (cl_edhoc ref_client))"
    by (simp_all add: ref_client_def ref_pdu_laws composes_def ref_edhoc_sel word_le_nat_alt unat_gt_0 Suc_le_eq)
  from client_handshake_complete [OF this h] h show ?thesis by (auto simp: client_init_def)
qed

subsection \<open>Message IDs of the protected requests\<close>

text \<open>A request as \<open>main\<close> issues it: code, path, payload and its length; the state is the context and statics.\<close>

type_synonym request = "u8 \<times> string \<times> u8 list option \<times> nat"

definition request_step ::
  "('w, 'p, 'ec, 'oc, 'x, 'd) client_env \<Rightarrow> u8 list \<Rightarrow> 'oc \<times> 'w client_state \<Rightarrow> request \<Rightarrow> 'oc \<times> 'w client_state" where
  "request_step E sid st q =
     (case (st, q) of ((osc, s), (code, uri, payload, payload_len)) \<Rightarrow>
        let (r, rx, _, osc, s) = oscore_request (cl_coap E) (cl_sock E) (cl_host E) (cl_oscore E) sid s osc code uri
              payload payload_len None
        in (osc, s))"

text \<open>The demo of \<open>main\<close> after the handshake.\<close>

definition demo_requests :: "request list" where
  "demo_requests = [(COAP_METHOD_GET, ''hello'', None, 0), (COAP_METHOD_GET, ''led'', None, 0),
     (COAP_METHOD_PUT, ''led'', Some (bytes ''1''), 1), (COAP_METHOD_GET, ''led'', None, 0),
     (COAP_METHOD_PUT, ''led'', Some (bytes ''0''), 1)]"

lemma oscore_request_mid:
  "oscore_request X S H Q sid s osc code uri payload n rtt = (r, rx, rtt', osc', s') \<Longrightarrow> req_mid s' = req_mid s + 1"
  by (auto simp: oscore_request_def Let_def split: prod.splits if_splits option.splits)

lemma request_step_mid: "req_mid (snd (request_step E sid st q)) = req_mid (snd st) + 1"
  by (auto simp: request_step_def oscore_request_mid split: prod.splits)

lemma request_mids:
  "trace (request_step E sid) (\<lambda>st q. req_mid (snd st)) st qs =
   map (\<lambda>i. req_mid (snd st) + of_nat i) [0..<length qs]"
proof (induction qs arbitrary: st)
  case (Cons q qs)
  have "[0..<length (q # qs)] = 0 # map Suc [0..<length qs]"
    by (simp add: map_Suc_upt upt_conv_Cons del: upt_Suc)
  with Cons.IH [of "request_step E sid st q"] show ?case
    by (simp add: request_step_mid o_def add.assoc)
qed simp

text \<open>Whatever each exchange comes to (lost, refused or answered), up to 65536 protected requests in a
  row carry pairwise different message IDs, so the device never takes one for a retransmission of
  another.\<close>

lemma request_ids_distinct:
  assumes "length qs \<le> 65536"
  shows "distinct (trace (request_step E sid) (\<lambda>st q. req_mid (snd st)) st qs)"
proof -
  have "inj_on (\<lambda>i. req_mid (snd st) + of_nat i :: u16) {0..<length qs}"
  proof (rule inj_onI)
    fix i j assume i: "i \<in> {0..<length qs}" and j: "j \<in> {0..<length qs}"
      and "req_mid (snd st) + of_nat i = (req_mid (snd st) + of_nat j :: u16)"
    then have "unat (of_nat i :: u16) = unat (of_nat j :: u16)" by simp
    then show "i = j" using i j assms by (simp add: unat_of_nat_u16)
  qed
  then show ?thesis by (simp add: request_mids distinct_map)
qed

end
