(* ===== verification/Client_Bench.thy ===== *)
theory Client_Bench
  imports Host_Client
begin

text \<open>
  host_client/src/client.cpp, \<open>bench_endpoint\<close>: the latency loop over protected requests, with its
  warm-up and its losses, and the statistics it prints. Double arithmetic is exact arithmetic on
  reals followed by the host's rounding; the exponent range of doubles is taken to be unbounded, as
  the values are milliseconds.
\<close>

subsection \<open>Rounding to doubles\<close>

definition lround :: "real \<Rightarrow> int" where
  "lround x = (if 0 \<le> x then \<lfloor>x + 1 / 2\<rfloor> else - \<lfloor>- x + 1 / 2\<rfloor>)"

text \<open>
  What the statistics rely on: rounding is monotone, leaves a double and its double alone, and the
  multiples of one half up to \<open>2\<^sup>5\<^sup>3\<close> are doubles.
\<close>

definition double_laws :: "(real \<Rightarrow> real) \<Rightarrow> bool" where
  "double_laws D \<longleftrightarrow> mono D \<and> (\<forall>x. D (D x) = D x) \<and> (\<forall>x. D (2 * D x) = 2 * D x) \<and>
     (\<forall>n::nat. n \<le> 2 ^ 53 \<longrightarrow> D (real n / 2) = real n / 2)"

subsection \<open>The loop\<close>

definition INT_MAX :: int where "INT_MAX = 2147483647"
definition INT_MIN :: int where "INT_MIN = - 2147483648"

text \<open>
  The body of the loop at index \<open>i\<close>, and \<open>for (int i = 0; i < count + warmup; i++)\<close> from \<open>i\<close> on, with
  \<open>bound\<close> for \<open>count + warmup\<close>: the samples, the losses, the OSCORE context and the state.
\<close>

type_synonym ('w, 'oc) bench_state = "real list \<times> int \<times> 'oc \<times> 'w client_state"

definition bench_iteration ::
  "('w, 'p, 'ec, 'oc, 'x, 'd) client_env \<Rightarrow> u8 list \<Rightarrow> request \<Rightarrow> int \<Rightarrow> int \<Rightarrow> ('w, 'oc) bench_state \<Rightarrow>
   ('w, 'oc) bench_state" where
  "bench_iteration E sid q warmup i st =
     (case (st, q) of ((rtts, losses, osc, s), (code, uri, payload, payload_len)) \<Rightarrow>
        let (r, _, rtt, osc, s) = oscore_request (cl_coap E) (cl_sock E) (cl_host E) (cl_oscore E) sid s osc
              code uri payload payload_len (Some (-1))
        in if i < warmup then (rtts, losses, osc, s)
           else if r \<noteq> 0 \<or> the rtt < 0 then (rtts, losses + 1, osc, s)
           else (rtts @ [the rtt], losses, osc, s))"

function bench_loop ::
  "('w, 'p, 'ec, 'oc, 'x, 'd) client_env \<Rightarrow> u8 list \<Rightarrow> request \<Rightarrow> int \<Rightarrow> int \<Rightarrow> int \<Rightarrow> ('w, 'oc) bench_state \<Rightarrow>
   ('w, 'oc) bench_state" where
  "bench_loop E sid q bound warmup i st =
     (if i < bound then bench_loop E sid q bound warmup (i + 1) (bench_iteration E sid q warmup i st) else st)"
  by pat_completeness auto

termination
  by (relation "measure (\<lambda>(E, sid, q, bound, warmup, i, st). nat (bound - i))") auto

declare bench_loop.simps [simp del]

subsection \<open>The statistics\<close>

record stats =
  st_n :: nat
  st_min :: real
  st_mean :: real
  st_med :: real
  st_p95 :: real
  st_p99 :: real
  st_max :: real
  st_sd :: real

text \<open>\<open>(size_t)std::lround(c * (double)(n - 1))\<close>, with the literal \<open>c\<close> a double.\<close>

definition percentile :: "(real \<Rightarrow> real) \<Rightarrow> real \<Rightarrow> nat \<Rightarrow> nat" where
  "percentile D c n = nat (lround (D (D c * D (real (n - 1)))))"

definition bench_stats :: "(real \<Rightarrow> real) \<Rightarrow> real list \<Rightarrow> stats" where
  "bench_stats D rtts =
     (let rtts = sort rtts; n = length rtts;
          sum = foldl (\<lambda>sum v. D (sum + v)) 0 rtts;
          mean = D (sum / D (real n));
          var = foldl (\<lambda>var v. D (var + D (D (v - mean) * D (v - mean)))) 0 rtts;
          sd = D (sqrt (D (var / D (real n))));
          med = (if n mod 2 \<noteq> 0 then rtts ! (n div 2)
                 else D (D (rtts ! (n div 2 - 1) + rtts ! (n div 2)) / 2));
          p95 = percentile D (95 / 100) n;
          p99 = percentile D (99 / 100) n
      in \<lparr>st_n = n, st_min = rtts ! 0, st_mean = mean, st_med = med, st_p95 = rtts ! p95,
          st_p99 = rtts ! p99, st_max = rtts ! (n - 1), st_sd = sd\<rparr>)"

text \<open>
  What becomes of a run: \<open>reserve\<close> throws \<open>std::length_error\<close> on a negative count (it converts to a
  huge size), which nothing catches; \<open>count + warmup\<close> may overflow, which is undefined; otherwise a
  line is printed.
\<close>

datatype bench_report = Length_error | Undefined | No_responses int | Report stats int

definition bench_endpoint ::
  "('w, 'p, 'ec, 'oc, 'x, 'd) client_env \<Rightarrow> u8 list \<Rightarrow> request \<Rightarrow> int \<Rightarrow> int \<Rightarrow> 'oc \<Rightarrow> 'w client_state \<Rightarrow>
   bench_report \<times> 'oc \<times> 'w client_state" where
  "bench_endpoint E sid q count warmup osc s =
     (if count < 0 then (Length_error, osc, s)
      else if INT_MAX < count + warmup then (Undefined, osc, s)
      else let (rtts, losses, osc, s) = bench_loop E sid q (count + warmup) warmup 0 ([], 0, osc, s)
           in if rtts = [] then (No_responses losses, osc, s)
              else (Report (bench_stats (double (cl_host E)) rtts) losses, osc, s))"

subsection \<open>How many samples\<close>

lemma bench_iteration_counts:
  assumes "bench_iteration E sid q warmup i (rtts, losses, osc, s) = (rtts', losses', osc', s')"
  shows "int (length rtts') + losses' = int (length rtts) + losses + (if i < warmup then 0 else 1)"
    "losses \<le> losses'" "(\<forall>v \<in> set rtts. 0 \<le> v) \<Longrightarrow> (\<forall>v \<in> set rtts'. 0 \<le> v)"
    "req_mid s' = req_mid s + 1"
  using assms by (auto simp: bench_iteration_def oscore_request_mid Let_def split: prod.splits if_splits)

text \<open>The samples and the losses together are the iterations after the warm-up; no sample is negative.\<close>

lemma bench_loop_counts:
  assumes "bench_loop E sid q bound warmup i st = (rtts', losses', osc', s')"
    and "st = (rtts, losses, osc, s)" and "\<forall>v \<in> set rtts. 0 \<le> v"
  shows "int (length rtts') + losses' = int (length rtts) + losses + max 0 (bound - max i warmup) \<and>
         losses \<le> losses' \<and> (\<forall>v \<in> set rtts'. 0 \<le> v) \<and>
         req_mid s' = req_mid s + of_nat (nat (bound - i))"
  using assms
proof (induction E sid q bound warmup i st arbitrary: rtts losses osc s rule: bench_loop.induct)
  case (1 E sid q bound warmup i st)
  show ?case
  proof (cases "i < bound")
    case False
    with 1 show ?thesis by (simp add: bench_loop.simps)
  next
    case True
    obtain rtts1 losses1 osc1 s1 where b: "bench_iteration E sid q warmup i (rtts, losses, osc, s) =
        (rtts1, losses1, osc1, s1)" by (metis prod_cases4)
    note c = bench_iteration_counts [OF b]
    have "bench_loop E sid q bound warmup (i + 1) (rtts1, losses1, osc1, s1) = (rtts', losses', osc', s')"
      using 1 True b by (simp add: bench_loop.simps [of E sid q bound warmup i])
    from 1(1) [OF True, unfolded 1(3) b, OF this refl c(3) [OF 1(4)]]
    have IH: "int (length rtts') + losses' = int (length rtts1) + losses1 + max 0 (bound - max (i + 1) warmup)"
      "losses1 \<le> losses'" "\<forall>v \<in> set rtts'. 0 \<le> v"
      "req_mid s' = req_mid s1 + of_nat (nat (bound - (i + 1)))" by blast+
    have "nat (bound - i) = Suc (nat (bound - (i + 1)))" using True by simp
    with IH c(1,2,4) True show ?thesis by (auto simp: max_def)
  qed
qed

text \<open>Every sample is a double.\<close>

lemma oscore_request_rtt:
  "oscore_request X S H Q sid s osc code uri payload n (Some v) = (0, rx, rtt', osc', s') \<Longrightarrow>
   \<exists>t. rtt' = Some (double H t)"
  by (auto simp: oscore_request_def Let_def split: prod.splits if_splits)

lemma bench_iteration_doubles:
  assumes "double_laws (double (cl_host E))"
    and "bench_iteration E sid q warmup i (rtts, losses, osc, s) = (rtts', losses', osc', s')"
    and "\<forall>v \<in> set rtts. double (cl_host E) v = v"
  shows "\<forall>v \<in> set rtts'. double (cl_host E) v = v"
  using assms
  by (auto simp: bench_iteration_def double_laws_def Let_def split: prod.splits if_splits
      dest!: oscore_request_rtt)

lemma bench_loop_doubles:
  assumes "double_laws (double (cl_host E))"
    and "bench_loop E sid q bound warmup i st = (rtts', losses', osc', s')"
    and "\<forall>v \<in> set (fst st). double (cl_host E) v = v"
  shows "\<forall>v \<in> set rtts'. double (cl_host E) v = v"
  using assms
proof (induction E sid q bound warmup i st rule: bench_loop.induct)
  case (1 E sid q bound warmup i st)
  show ?case
  proof (cases "i < bound")
    case False
    with 1 show ?thesis by (simp add: bench_loop.simps)
  next
    case True
    have "\<forall>v \<in> set (fst (bench_iteration E sid q warmup i st)). double (cl_host E) v = v"
      using bench_iteration_doubles [OF 1(2)] 1(4) by (metis prod_cases4 fst_conv)
    with 1 True show ?thesis by (simp add: bench_loop.simps [of E sid q bound warmup i])
  qed
qed

subsection \<open>Order statistics\<close>

lemma double_lawsD:
  assumes "double_laws D"
  shows "x \<le> y \<Longrightarrow> D x \<le> D y" "D (D x) = D x" "D (2 * D x) = 2 * D x"
    "n \<le> 2 ^ 53 \<Longrightarrow> D (real n / 2) = real n / 2" "n < 2 ^ 52 \<Longrightarrow> D (real n) = real n"
    "D 0 = 0" "D 1 = 1" "D (1 / 2) = 1 / 2"
proof -
  have h: "D (real n / 2) = real n / 2" if "n \<le> 2 ^ 53" for n
    using assms that by (simp add: double_laws_def)
  show "x \<le> y \<Longrightarrow> D x \<le> D y" "D (D x) = D x" "D (2 * D x) = 2 * D x"
    using assms by (simp_all add: double_laws_def monoD)
  show "n \<le> 2 ^ 53 \<Longrightarrow> D (real n / 2) = real n / 2" by (rule h)
  show "n < 2 ^ 52 \<Longrightarrow> D (real n) = real n" using h [of "2 * n"] by simp
  show "D 0 = 0" "D 1 = 1" "D (1 / 2) = 1 / 2" using h [of 0] h [of 2] h [of 1] by simp_all
qed

lemma lround_mono: "0 \<le> x \<Longrightarrow> x \<le> y \<Longrightarrow> lround x \<le> lround y"
  by (simp add: lround_def floor_mono)

lemma lround_nat: "lround (real n) = int n"
  by (simp add: lround_def floor_eq_iff)

lemma lround_half: "lround (real n / 2) = int ((n + 1) div 2)"
proof -
  have "real n / 2 + 1 / 2 = real (n + 1) / real 2" by (simp add: add_divide_distrib)
  then show ?thesis
    using floor_divide_of_nat_eq [of "n + 1" 2, where ?'a = real]
    by (simp add: lround_def add_divide_distrib add.commute)
qed

lemma percentile_bounds:
  assumes "double_laws D" and "0 < n" and "n < 2 ^ 52" and "1 / 2 \<le> c" and "c \<le> 1"
  shows "n div 2 \<le> percentile D c n" "percentile D c n \<le> n - 1"
proof -
  note D = double_lawsD [OF assms(1)]
  have m: "D (real (n - 1)) = real (n - 1)" using assms(3) by (intro D(5)) simp
  have c: "1 / 2 \<le> D c" "D c \<le> 1" using D(1) [OF assms(4)] D(1) [OF assms(5)] D(7,8) by simp_all
  have lo: "real (n - 1) / 2 \<le> D (D c * real (n - 1))"
  proof -
    have "real (n - 1) / 2 \<le> D c * real (n - 1)" using mult_right_mono [OF c(1), of "real (n - 1)"] by simp
    from D(1) [OF this] show ?thesis using assms(3) by (simp add: D(4))
  qed
  have hi: "D (D c * real (n - 1)) \<le> real (n - 1)"
  proof -
    have "D c * real (n - 1) \<le> real (n - 1)" using mult_right_mono [OF c(2), of "real (n - 1)"] by simp
    from D(1) [OF this] show ?thesis using m by simp
  qed
  have "int (n div 2) \<le> lround (D (D c * real (n - 1)))"
    using lround_mono [OF _ lo] lround_half [of "n - 1"] assms(2) by simp
  then show "n div 2 \<le> percentile D c n" using m by (simp add: percentile_def)
  have "lround (D (D c * real (n - 1))) \<le> int (n - 1)"
    using lround_mono [OF _ hi] lround_nat [of "n - 1"] lo order_trans [OF _ lo, of 0] by simp
  then show "percentile D c n \<le> n - 1" using m by (simp add: percentile_def)
qed

lemma percentile_mono:
  assumes "double_laws D" and "0 < n" and "n < 2 ^ 52" and "1 / 2 \<le> c" and "c \<le> d"
  shows "percentile D c n \<le> percentile D d n"
proof -
  note D = double_lawsD [OF assms(1)]
  have m: "D (real (n - 1)) = real (n - 1)" using assms(3) by (intro D(5)) simp
  have "1 / 2 \<le> D c" using D(1) [OF assms(4)] D(8) by simp
  then have "0 \<le> D c * real (n - 1)" by simp
  from D(1) [OF this] have 0: "0 \<le> D (D c * real (n - 1))" by (simp add: D(6))
  have "D c * real (n - 1) \<le> D d * real (n - 1)" by (intro mult_right_mono D(1) assms(5)) simp
  from lround_mono [OF 0 D(1) [OF this]] show ?thesis using m by (simp add: percentile_def nat_mono)
qed

lemma midpoint_bounds:
  assumes "double_laws D" and "D a = a" and "D b = b" and "a \<le> b"
  shows "a \<le> D (D (a + b) / 2)" "D (D (a + b) / 2) \<le> b"
proof -
  note D = double_lawsD [OF assms(1)]
  have d: "D (2 * a) = 2 * a" "D (2 * b) = 2 * b" using D(3) [of a] D(3) [of b] assms by simp_all
  have "2 * a \<le> D (a + b)" using D(1) [of "2 * a" "a + b"] d assms(4) by simp
  then have "a \<le> D (a + b) / 2" by simp
  from D(1) [OF this] show "a \<le> D (D (a + b) / 2)" by (simp add: assms)
  have "D (a + b) \<le> 2 * b" using D(1) [of "a + b" "2 * b"] d assms(4) by simp
  then have "D (a + b) / 2 \<le> b" by simp
  from D(1) [OF this] show "D (D (a + b) / 2) \<le> b" by (simp add: assms)
qed

lemma bench_stats_order:
  assumes D: "double_laws D" and "rtts \<noteq> []" and n: "length rtts < 2 ^ 52" and "\<forall>v \<in> set rtts. D v = v"
  shows "st_min (bench_stats D rtts) \<le> st_med (bench_stats D rtts)"
    "st_med (bench_stats D rtts) \<le> st_p95 (bench_stats D rtts)"
    "st_p95 (bench_stats D rtts) \<le> st_p99 (bench_stats D rtts)"
    "st_p99 (bench_stats D rtts) \<le> st_max (bench_stats D rtts)"
proof -
  define xs where "xs = sort rtts"
  define k where "k = length rtts"
  have k: "0 < k" "length xs = k" "k < 2 ^ 52" using assms by (auto simp: k_def xs_def)
  have le: "xs ! i \<le> xs ! j" if "i \<le> j" "j < k" for i j
    using that k by (simp add: xs_def sorted_nth_mono)
  have dbl: "D (xs ! i) = xs ! i" if "i < k" for i
    using assms(4) that k nth_mem [of i xs] by (simp add: xs_def)
  let ?p = "percentile D (95 / 100) k" and ?q = "percentile D (99 / 100) k"
  have p: "k div 2 \<le> ?p" "?p \<le> ?q" "?q \<le> k - 1"
    using percentile_bounds [OF D k(1,3)] percentile_mono [OF D k(1,3)] by simp_all
  then have lt: "?p < k" "?q < k" "k - 1 < k" using k(1) by simp_all
  note chain = le [OF p(1) lt(1)] le [OF p(2) lt(2)] le [OF p(3) lt(3)]
  define med where "med = (if k mod 2 \<noteq> 0 then xs ! (k div 2)
    else D (D (xs ! (k div 2 - 1) + xs ! (k div 2)) / 2))"
  have half: "k div 2 - 1 < k" "k div 2 < k" using k by auto
  have mid: "xs ! (k div 2 - 1) \<le> D (D (xs ! (k div 2 - 1) + xs ! (k div 2)) / 2)"
    "D (D (xs ! (k div 2 - 1) + xs ! (k div 2)) / 2) \<le> xs ! (k div 2)"
    using midpoint_bounds [OF D dbl [OF half(1)] dbl [OF half(2)] le] half(2) by simp_all
  have med: "xs ! 0 \<le> med" "med \<le> xs ! (k div 2)"
    using mid le [of 0 "k div 2"] le [of 0 "k div 2 - 1"] half by (auto simp: med_def)
  have s: "st_min (bench_stats D rtts) = xs ! 0" "st_med (bench_stats D rtts) = med"
    "st_p95 (bench_stats D rtts) = xs ! ?p" "st_p99 (bench_stats D rtts) = xs ! ?q"
    "st_max (bench_stats D rtts) = xs ! (k - 1)"
    by (simp_all add: bench_stats_def Let_def xs_def k_def med_def)
  show "st_min (bench_stats D rtts) \<le> st_med (bench_stats D rtts)"
    "st_med (bench_stats D rtts) \<le> st_p95 (bench_stats D rtts)"
    "st_p95 (bench_stats D rtts) \<le> st_p99 (bench_stats D rtts)"
    "st_p99 (bench_stats D rtts) \<le> st_max (bench_stats D rtts)"
    unfolding s using med chain by linarith+
qed

subsection \<open>What the benchmark reports\<close>

text \<open>The iterations that count: all after the warm-up.\<close>

definition samples :: "int \<Rightarrow> int \<Rightarrow> int" where
  "samples count warmup = (if 0 \<le> warmup then count else max 0 (count + warmup))"

lemma bench_endpoint_run:
  assumes "bench_endpoint E sid q count warmup osc s = (rep, osc', s')"
    and "0 \<le> count" and "count + warmup \<le> INT_MAX"
  obtains rtts losses where
    "bench_loop E sid q (count + warmup) warmup 0 ([], 0, osc, s) = (rtts, losses, osc', s')"
    "rep = (if rtts = [] then No_responses losses else Report (bench_stats (double (cl_host E)) rtts) losses)"
    "int (length rtts) + losses = samples count warmup" "0 \<le> losses" "\<forall>v \<in> set rtts. 0 \<le> v"
    "req_mid s' = req_mid s + of_nat (nat (count + warmup))"
proof -
  obtain rtts losses osc1 s1 where l:
    "bench_loop E sid q (count + warmup) warmup 0 ([], 0, osc, s) = (rtts, losses, osc1, s1)"
    by (metis prod_cases4)
  with assms have r: "osc1 = osc'" "s1 = s'"
    "rep = (if rtts = [] then No_responses losses else Report (bench_stats (double (cl_host E)) rtts) losses)"
    by (simp_all add: bench_endpoint_def split: if_splits)
  note c = bench_loop_counts [OF l refl]
  have "int (length rtts) + losses = samples count warmup" "0 \<le> losses" "\<forall>v \<in> set rtts. 0 \<le> v"
    "req_mid s' = req_mid s + of_nat (nat (count + warmup))"
    using c assms(2) r(2) by (auto simp: samples_def max_def)
  with l r that show thesis by blast
qed

text \<open>C35: the benchmark of an endpoint issues exactly \<open>count + warmup\<close> requests and accounts for each one
  after the warm-up, as a sample or as a loss, whatever the exchanges come to; it dies with an
  uncaught exception exactly for a negative count.\<close>

theorem bench_accounts_for_requests:
  assumes "bench_endpoint E sid q count warmup osc s = (rep, osc', s')" and "count + warmup \<le> INT_MAX"
  shows "(rep = Length_error \<longleftrightarrow> count < 0) \<and> rep \<noteq> Undefined \<and>
     (0 \<le> count \<longrightarrow> req_mid s' = req_mid s + of_nat (nat (count + warmup))) \<and>
     (\<forall>losses. rep = No_responses losses \<longrightarrow> losses = samples count warmup) \<and>
     (\<forall>st losses. rep = Report st losses \<longrightarrow> 0 < st_n st \<and> 0 \<le> losses \<and>
        int (st_n st) + losses = samples count warmup)"
proof (cases "count < 0")
  case True
  with assms show ?thesis by (auto simp: bench_endpoint_def)
next
  case False
  then have "0 \<le> count" by simp
  from bench_endpoint_run [OF assms(1) this assms(2)] obtain rtts losses where
    "rep = (if rtts = [] then No_responses losses else Report (bench_stats (double (cl_host E)) rtts) losses)"
    "int (length rtts) + losses = samples count warmup" "0 \<le> losses"
    "req_mid s' = req_mid s + of_nat (nat (count + warmup))" by blast
  moreover have "st_n (bench_stats D rtts) = length rtts" for D by (simp add: bench_stats_def Let_def)
  ultimately show ?thesis using False by auto
qed

text \<open>C36: the figures of a report are in order: none is negative, and minimum, median, 95th and 99th
  percentile and maximum do not decrease; and the percentile indices are within the vector, however
  doubles round.\<close>

theorem bench_report_ordered:
  assumes "double_laws (double (cl_host E))" and "count \<le> INT_MAX"
    and "bench_endpoint E sid q count warmup osc s = (Report st losses, osc', s')"
  shows "0 \<le> st_min st \<and> st_min st \<le> st_med st \<and> st_med st \<le> st_p95 st \<and> st_p95 st \<le> st_p99 st \<and>
         st_p99 st \<le> st_max st \<and>
         percentile (double (cl_host E)) (95 / 100) (st_n st) < st_n st \<and>
         percentile (double (cl_host E)) (99 / 100) (st_n st) < st_n st"
proof -
  have c: "0 \<le> count" "count + warmup \<le> INT_MAX"
    using assms(3) by (auto simp: bench_endpoint_def split: if_splits)
  from bench_endpoint_run [OF assms(3) c] obtain rtts where
    l: "bench_loop E sid q (count + warmup) warmup 0 ([], 0, osc, s) = (rtts, losses, osc', s')"
    and r: "rtts \<noteq> []" "st = bench_stats (double (cl_host E)) rtts"
    and n: "int (length rtts) + losses = samples count warmup" "0 \<le> losses" and pos: "\<forall>v \<in> set rtts. 0 \<le> v"
    by (metis bench_report.distinct(11) bench_report.inject(2))
  have "\<forall>v \<in> set rtts. double (cl_host E) v = v" using bench_loop_doubles [OF assms(1) l] by simp
  moreover have "int (length rtts) \<le> INT_MAX" using n c assms(2) by (auto simp: samples_def split: if_splits)
  then have len: "length rtts < 2 ^ 52" by (simp add: INT_MAX_def)
  ultimately have "st_min st \<le> st_med st" "st_med st \<le> st_p95 st" "st_p95 st \<le> st_p99 st" "st_p99 st \<le> st_max st"
    using bench_stats_order [OF assms(1) r(1)] r(2) by simp_all
  moreover have "0 \<le> st_min st"
    using pos r nth_mem [of 0 "sort rtts"] by (simp add: bench_stats_def Let_def)
  moreover have n: "st_n st = length rtts" "0 < length rtts" using r by (simp_all add: bench_stats_def Let_def)
  have "percentile (double (cl_host E)) c (st_n st) < st_n st" if "1 / 2 \<le> c" "c \<le> 1" for c
    unfolding n(1) using percentile_bounds(2) [OF assms(1) n(2) len that] n(2) by linarith
  then have "percentile (double (cl_host E)) (95 / 100) (st_n st) < st_n st"
    "percentile (double (cl_host E)) (99 / 100) (st_n st) < st_n st" by simp_all
  ultimately show ?thesis by blast
qed

text \<open>A host that computes with ten binary places.\<close>

definition fixed :: "real \<Rightarrow> real" where
  "fixed x = of_int \<lfloor>x * 1024 + 1 / 2\<rfloor> / 1024"

lemma fixed_grid: "fixed (of_int k / 1024) = of_int k / 1024"
  by (simp add: fixed_def floor_eq_iff)

lemma fixed_laws: "double_laws fixed"
proof -
  have "mono fixed" by (intro monoI) (simp add: fixed_def divide_right_mono floor_mono)
  moreover have "fixed (fixed x) = fixed x" for x
    using fixed_grid [of "\<lfloor>x * 1024 + 1 / 2\<rfloor>"] by (simp add: fixed_def)
  moreover have "fixed (2 * fixed x) = 2 * fixed x" for x
    using fixed_grid [of "2 * \<lfloor>x * 1024 + 1 / 2\<rfloor>"] by (simp add: fixed_def)
  moreover have "fixed (real n / 2) = real n / 2" for n
    using fixed_grid [of "int (512 * n)"] by simp
  ultimately show ?thesis by (simp add: double_laws_def)
qed

definition bench_client :: "(unit, coap_msg, unit ref_ctx, nat, unit, unit) client_env" where
  "bench_client = ref_client\<lparr>cl_host := ref_host\<lparr>double := fixed\<rparr>\<rparr>"

lemma bench_client_iteration:
  "\<exists>osc' s'. bench_iteration bench_client [] (COAP_METHOD_GET, ''led'', None, 0) warmup i (rtts, losses, osc, s) =
     (if i < warmup then rtts else rtts @ [0], losses, osc', s')"
  by (simp add: bench_iteration_def oscore_request_def bench_client_def ref_client_def ref_sock_def ref_host_def
      ref_oscore_def ref_cantcoap_def request_pdu_def now_ms_def plain_msg_def msg_bytes_def le_bytes32_def encode_payload_def coap_consts Let_def
      fixed_def OSCORE_MAX_def)

lemma bench_client_run:
  "\<exists>osc' s'. bench_endpoint bench_client [] (COAP_METHOD_GET, ''led'', None, 0) 2 1 0 (client_init ()) =
     (Report (bench_stats fixed [0, 0]) 0, osc', s')"
proof -
  let ?it = "bench_iteration bench_client [] (COAP_METHOD_GET, ''led'', None, 0) 1"
  obtain o1 s1 where 1: "?it 0 ([], 0, 0, client_init ()) = ([], 0, o1, s1)"
    using bench_client_iteration [of 1 0 "[]" 0 0 "client_init ()"] by auto
  obtain o2 s2 where 2: "?it 1 ([], 0, o1, s1) = ([0], 0, o2, s2)"
    using bench_client_iteration [of 1 1 "[]" 0 o1 s1] by auto
  obtain o3 s3 where 3: "?it 2 ([0], 0, o2, s2) = ([0, 0], 0, o3, s3)"
    using bench_client_iteration [of 1 2 "[0]" 0 o2 s2] by auto
  show ?thesis
    by (simp add: bench_endpoint_def bench_loop.simps 1 2 3 INT_MAX_def)
      (simp add: bench_client_def ref_host_def)
qed

theorem bench_accounts_for_requests_witness:
  "\<exists>st osc' s'. bench_endpoint bench_client [] (COAP_METHOD_GET, ''led'', None, 0) 2 1 0 (client_init ()) =
     (Report st 0, osc', s') \<and> int (st_n st) + 0 = samples 2 1 \<and> req_mid s' = 259"
proof -
  obtain osc' s' where b: "bench_endpoint bench_client [] (COAP_METHOD_GET, ''led'', None, 0) 2 1 0
      (client_init ()) = (Report (bench_stats fixed [0, 0]) 0, osc', s')" using bench_client_run by blast
  from bench_accounts_for_requests [OF b] b show ?thesis by (simp add: INT_MAX_def client_init_def)
qed

theorem bench_report_ordered_witness:
  "\<exists>st osc' s'. bench_endpoint bench_client [] (COAP_METHOD_GET, ''led'', None, 0) 2 1 0 (client_init ()) =
     (Report st 0, osc', s') \<and> 0 \<le> st_min st \<and> st_p99 st \<le> st_max st"
proof -
  obtain osc' s' where b: "bench_endpoint bench_client [] (COAP_METHOD_GET, ''led'', None, 0) 2 1 0
      (client_init ()) = (Report (bench_stats fixed [0, 0]) 0, osc', s')" using bench_client_run by blast
  have "double_laws (double (cl_host bench_client))"
    using fixed_laws by (simp add: bench_client_def ref_host_def)
  from bench_report_ordered [OF this _ b] b show ?thesis by (simp add: INT_MAX_def)
qed

end
