(* ===== verification/Client_Main.thy ===== *)
theory Client_Main
  imports Client_Bench
begin

text \<open>
  host_client/src/client.cpp, \<open>main\<close>: the command line, the set-up of PSA crypto and the socket, the
  handshake, and the demo or the benchmark after it, with the exit status of each path.
\<close>

subsection \<open>The command line\<close>

text \<open>
  \<open>atoi\<close> of the C library: white space, a sign, the digits up to the first other character. A value
  that does not fit an \<open>int\<close> is undefined behaviour, here \<open>None\<close>.
\<close>

definition isspace :: "char \<Rightarrow> bool" where
  "isspace c \<longleftrightarrow> c = CHR '' '' \<or> (9 \<le> (of_char c :: nat) \<and> (of_char c :: nat) \<le> 13)"

definition isdigit :: "char \<Rightarrow> bool" where
  "isdigit c \<longleftrightarrow> 48 \<le> (of_char c :: nat) \<and> (of_char c :: nat) \<le> 57"

definition digits_value :: "string \<Rightarrow> int" where
  "digits_value ds = foldl (\<lambda>v c. 10 * v + (int (of_char c) - 48)) 0 ds"

definition atoi :: "string \<Rightarrow> int option" where
  "atoi s =
     (let s = dropWhile isspace s;
          (neg, s) = (case s of
             c # t \<Rightarrow> if c = CHR ''-'' then (True, t) else if c = CHR ''+'' then (False, t) else (False, s)
           | [] \<Rightarrow> (False, s));
          v = digits_value (takeWhile isdigit s);
          v = (if neg then - v else v)
      in if INT_MIN \<le> v \<and> v \<le> INT_MAX then Some v else None)"

record options =
  bench :: bool
  count :: int
  warmup :: int
  g_host :: string

definition default_options :: options where
  "default_options = \<lparr>bench = False, count = 1000, warmup = 50, g_host = ''192.0.2.1''\<rparr>"

text \<open>The loop over \<open>argv\<close> from index 1; \<open>argv[i][0]\<close> of an empty argument is the NUL.\<close>

fun parse_args :: "string list \<Rightarrow> options \<Rightarrow> options option" where
  "parse_args [] opt = Some opt"
| "parse_args (a # rest) opt =
     (if a = ''--bench'' then parse_args rest (opt\<lparr>bench := True\<rparr>)
      else if a = ''--count'' \<and> rest \<noteq> []
           then Option.bind (atoi (hd rest)) (\<lambda>v. parse_args (tl rest) (opt\<lparr>count := v\<rparr>))
      else if a = ''--warmup'' \<and> rest \<noteq> []
           then Option.bind (atoi (hd rest)) (\<lambda>v. parse_args (tl rest) (opt\<lparr>warmup := v\<rparr>))
      else if a = [] \<or> hd a \<noteq> CHR ''-'' then parse_args rest (opt\<lparr>g_host := a\<rparr>)
      else parse_args rest opt)"

subsection \<open>main\<close>

text \<open>How the process ends: with a status, by an uncaught exception, or in undefined behaviour.\<close>

datatype outcome = Exit int | Aborted | Undefined_behaviour

definition bench_requests :: "request list" where
  "bench_requests = [(COAP_METHOD_GET, ''hello'', None, 0), (COAP_METHOD_GET, ''led'', None, 0),
     (COAP_METHOD_PUT, ''led'', Some (bytes ''1''), 1)]"

text \<open>The three benchmarks in turn; an exception or undefined behaviour ends the program there.\<close>

fun bench_all ::
  "('w, 'p, 'ec, 'oc, 'x, 'd) client_env \<Rightarrow> u8 list \<Rightarrow> options \<Rightarrow> request list \<Rightarrow> 'oc \<Rightarrow> 'w client_state \<Rightarrow>
   outcome option \<times> bench_report list \<times> 'oc \<times> 'w client_state" where
  "bench_all E sid opt [] osc s = (None, [], osc, s)"
| "bench_all E sid opt (q # qs) osc s =
     (case bench_endpoint E sid q (count opt) (warmup opt) osc s of
        (Length_error, osc, s) \<Rightarrow> (Some Aborted, [], osc, s)
      | (Undefined, osc, s) \<Rightarrow> (Some Undefined_behaviour, [], osc, s)
      | (rep, osc, s) \<Rightarrow> let (out, reps, osc, s) = bench_all E sid opt qs osc s in (out, rep # reps, osc, s))"

definition client_main ::
  "('w, 'p, 'ec, 'oc, 'x, 'd) client_env \<Rightarrow> 'ec \<Rightarrow> 'oc \<Rightarrow> u8 list \<Rightarrow> oscore_export \<Rightarrow> string list \<Rightarrow>
   'w client_state \<Rightarrow> outcome \<times> bench_report list \<times> 'w client_state" where
  "client_main E c0 osc0 resp0 x0 args s =
     (let H = cl_host E in
      case parse_args args default_options of
        None \<Rightarrow> (Undefined_behaviour, [], s)
      | Some opt \<Rightarrow>
          let (r, w) = psa_crypto_init H (cworld s); s = s\<lparr>cworld := w\<rparr>
          in if r \<noteq> PSA_SUCCESS H then (Exit 1, [], s)
             else
               let (r, w) = sock_init H (g_host opt) (cworld s); s = s\<lparr>cworld := w\<rparr>
               in if r < 0 then (Exit 1, [], s)
                  else
                    let s = s\<lparr>cworld := set_rcvtimeo H 5 (cworld s)\<rparr>
                    in (case client_handshake E c0 osc0 resp0 x0 s of
                          (None, s) \<Rightarrow> (Exit 1, [], s)
                        | (Some (osc, sid, hs_ms), s) \<Rightarrow>
                            if bench opt
                            then let s = s\<lparr>cworld := set_rcvtimeo H 2 (cworld s)\<rparr>;
                                     (out, reps, osc, s) = bench_all E sid opt bench_requests osc s
                                 in (case out of
                                       Some out \<Rightarrow> (out, reps, s)
                                     | None \<Rightarrow> (Exit 0, reps, s\<lparr>cworld := close H (cworld s)\<rparr>))
                            else let (osc, s) = run (request_step E sid) (osc, s) demo_requests
                                 in (Exit 0, [], s\<lparr>cworld := close H (cworld s)\<rparr>)))"

subsection \<open>Decimal numbers\<close>

fun decimal :: "nat \<Rightarrow> string" where
  "decimal n = (if n < 10 then [char_of (48 + n)] else decimal (n div 10) @ [char_of (48 + n mod 10)])"

declare decimal.simps [simp del]

definition show_int :: "int \<Rightarrow> string" where
  "show_int i = (if i < 0 then CHR ''-'' # decimal (nat (- i)) else decimal (nat i))"

lemma digit_char: "n < 10 \<Longrightarrow> (of_char (char_of (48 + n :: nat)) :: nat) = 48 + n"
  by simp

lemma decimal_digits: "decimal n \<noteq> [] \<and> (\<forall>c \<in> set (decimal n). isdigit c)"
proof (induction n rule: decimal.induct)
  case (1 n)
  have "isdigit (char_of (48 + n mod 10))" by (simp add: isdigit_def)
  with 1 show ?case by (subst (1 2) decimal.simps) (auto simp: isdigit_def)
qed

lemma decimal_value: "digits_value (decimal n) = int n"
proof (induction n rule: decimal.induct)
  case (1 n)
  have "digits_value (decimal (n div 10) @ [char_of (48 + n mod 10)]) = int n" if "\<not> n < 10"
    using 1 that digit_char [of "n mod 10"] by (simp add: digits_value_def zdiv_int zmod_int)
  then show ?case by (subst decimal.simps) (simp add: digits_value_def)
qed

lemma isdigit_simps: "isdigit c \<Longrightarrow> \<not> isspace c \<and> c \<noteq> CHR ''-'' \<and> c \<noteq> CHR ''+''"
  by (auto simp: isdigit_def isspace_def)

lemma atoi_decimal: "INT_MIN \<le> i \<Longrightarrow> i \<le> INT_MAX \<Longrightarrow> atoi (show_int i) = Some i"
proof -
  assume i: "INT_MIN \<le> i" "i \<le> INT_MAX"
  have t: "takeWhile isdigit (decimal n) = decimal n" for n
    using decimal_digits [of n] by (simp add: takeWhile_eq_all_conv)
  show ?thesis
  proof (cases "i < 0")
    case True
    with i show ?thesis by (simp add: atoi_def show_int_def isspace_def t decimal_value del: takeWhile_eq_all_conv)
  next
    case False
    obtain c cs where d: "decimal (nat i) = c # cs" "isdigit c"
      using decimal_digits [of "nat i"] by (cases "decimal (nat i)") auto
    with isdigit_simps [OF d(2)] False i t [of "nat i"] decimal_value [of "nat i"] show ?thesis
      by (simp add: atoi_def show_int_def del: takeWhile_eq_all_conv)
  qed
qed

subsection \<open>Command lines\<close>

text \<open>
  The arguments the tool documents, a \<open>Flag\<close> being an option it does not know and ignores; how they
  are written, and what they mean.
\<close>

datatype arg = Host string | Bench | Count int | Warmup int | Flag string

fun valid_arg :: "arg \<Rightarrow> bool" where
  "valid_arg (Host h) \<longleftrightarrow> h = [] \<or> hd h \<noteq> CHR ''-''"
| "valid_arg (Count v) \<longleftrightarrow> INT_MIN \<le> v \<and> v \<le> INT_MAX"
| "valid_arg (Warmup v) \<longleftrightarrow> INT_MIN \<le> v \<and> v \<le> INT_MAX"
| "valid_arg (Flag f) \<longleftrightarrow> f \<noteq> [] \<and> hd f = CHR ''-'' \<and> f \<notin> {''--bench'', ''--count'', ''--warmup''}"
| "valid_arg Bench \<longleftrightarrow> True"

fun render_arg :: "arg \<Rightarrow> string list" where
  "render_arg (Host h) = [h]"
| "render_arg Bench = [''--bench'']"
| "render_arg (Count v) = [''--count'', show_int v]"
| "render_arg (Warmup v) = [''--warmup'', show_int v]"
| "render_arg (Flag f) = [f]"

fun apply_arg :: "arg \<Rightarrow> options \<Rightarrow> options" where
  "apply_arg (Host h) opt = opt\<lparr>g_host := h\<rparr>"
| "apply_arg Bench opt = opt\<lparr>bench := True\<rparr>"
| "apply_arg (Count v) opt = opt\<lparr>count := v\<rparr>"
| "apply_arg (Warmup v) opt = opt\<lparr>warmup := v\<rparr>"
| "apply_arg (Flag f) opt = opt"

lemma parse_render_arg: "valid_arg a \<Longrightarrow> parse_args (render_arg a @ rest) opt = parse_args rest (apply_arg a opt)"
  by (cases a) (auto simp: atoi_decimal)

text \<open>A value option at the very end, with no value after it, is ignored.\<close>

lemma parse_dangling: "tail \<in> {[], [''--count''], [''--warmup'']} \<Longrightarrow> parse_args tail opt = Some opt"
  by auto

text \<open>C40: every documented command line is parsed to what it means: the options take effect from left to
  right, the last one of a kind wins, unknown options and a final --count or --warmup without a value
  are ignored.\<close>

theorem parse_args_roundtrip:
  assumes "\<forall>a \<in> set line. valid_arg a" and "tail \<in> {[], [''--count''], [''--warmup'']}"
  shows "parse_args (concat (map render_arg line) @ tail) opt = Some (fold apply_arg line opt)"
  using assms(1)
proof (induction line arbitrary: opt)
  case Nil
  with parse_dangling [OF assms(2)] show ?case by simp
next
  case (Cons a line)
  with parse_render_arg [of a "concat (map render_arg line) @ tail"] show ?case by simp
qed

theorem parse_args_roundtrip_witness:
  "parse_args (concat (map render_arg [Bench, Count 20, Host ''192.0.2.7'', Flag ''-v'', Count (- 3)]) @ [''--warmup''])
     default_options = Some \<lparr>bench = True, count = - 3, warmup = 50, g_host = ''192.0.2.7''\<rparr>"
  using parse_args_roundtrip [of "[Bench, Count 20, Host ''192.0.2.7'', Flag ''-v'', Count (- 3)]" "[''--warmup'']"
      default_options]
  by (simp add: INT_MIN_def INT_MAX_def default_options_def)

subsection \<open>Exit status\<close>

lemma bench_all_outcome:
  assumes "bench_all E sid opt qs osc s = (out, reps, osc', s')"
  shows "out = (if qs = [] then None else if count opt < 0 then Some Aborted
           else if INT_MAX < count opt + warmup opt then Some Undefined_behaviour else None)"
  using assms
proof (induction qs arbitrary: osc s out reps osc' s')
  case (Cons q qs)
  obtain rep osc1 s1 where b: "bench_endpoint E sid q (count opt) (warmup opt) osc s = (rep, osc1, s1)"
    by (metis prod_cases3)
  obtain out2 reps2 osc2 s2 where r: "bench_all E sid opt qs osc1 s1 = (out2, reps2, osc2, s2)"
    by (metis prod_cases4)
  have "rep = Length_error \<longleftrightarrow> count opt < 0"
    "rep = Undefined \<longleftrightarrow> \<not> count opt < 0 \<and> INT_MAX < count opt + warmup opt"
    using b by (auto simp: bench_endpoint_def split: if_splits prod.splits)
  with Cons.prems b r Cons.IH [OF r] show ?case by (cases rep) (auto split: if_splits)
qed simp

lemma bench_all_requests:
  assumes "bench_all E sid opt qs osc s = (out, reps, osc', s')"
  shows "req_mid s' = req_mid s +
    (if count opt < 0 \<or> INT_MAX < count opt + warmup opt then 0
     else of_nat (length qs * nat (count opt + warmup opt)))"
  using assms
proof (induction qs arbitrary: osc s out reps osc' s')
  case (Cons q qs)
  obtain rep osc1 s1 where b: "bench_endpoint E sid q (count opt) (warmup opt) osc s = (rep, osc1, s1)"
    by (metis prod_cases3)
  obtain out2 reps2 osc2 s2 where r: "bench_all E sid opt qs osc1 s1 = (out2, reps2, osc2, s2)"
    by (metis prod_cases4)
  show ?case
  proof (cases "count opt < 0 \<or> INT_MAX < count opt + warmup opt")
    case True
    then have "s1 = s \<and> (rep = Length_error \<or> rep = Undefined)"
      using b by (auto simp: bench_endpoint_def split: if_splits)
    with Cons.prems b True show ?thesis by auto
  next
    case False
    then have "0 \<le> count opt" "count opt + warmup opt \<le> INT_MAX" by simp_all
    from bench_endpoint_run [OF b this] obtain rtts :: "real list" and losses where
      "req_mid s1 = req_mid s + of_nat (nat (count opt + warmup opt))" and
      rep: "rep = (if rtts = [] then No_responses losses
              else Report (bench_stats (double (cl_host E)) rtts) losses)" by metis
    moreover have "s' = s2" using Cons.prems b r rep by (cases rep) (auto split: if_splits)
    ultimately show ?thesis using Cons.IH [OF r] False by (simp add: algebra_simps)
  qed
qed simp

lemma exchange_req: "exchange E compose mark process c resp s = (e, s') \<Longrightarrow> req_mid s' = req_mid s"
  by (auto simp: exchange_def Let_def dest!: client_edhoc_post_counters split: prod.splits if_splits)

lemma handshake_req: "client_handshake E c0 osc0 resp0 x0 s = (h, s') \<Longrightarrow> req_mid s' = req_mid s"
  by (auto simp: client_handshake_def Let_def dest!: exchange_req split: prod.splits if_splits option.splits)

lemma demo_req: "run (request_step E sid) st qs = (osc', s') \<Longrightarrow> req_mid s' = req_mid (snd st) + of_nat (length qs)"
proof (induction qs arbitrary: st)
  case (Cons q qs)
  from Cons.IH [of "request_step E sid st q"] Cons.prems show ?case by (simp add: request_step_mid algebra_simps)
qed simp

text \<open>What \<open>main\<close> does once the handshake is complete.\<close>

lemma client_main_secured:
  assumes "parse_args args default_options = Some opt"
    and "psa_crypto_init (cl_host E) (cworld s) = (PSA_SUCCESS (cl_host E), w1)"
    and "sock_init (cl_host E) (g_host opt) w1 = (r2, w2)" "0 \<le> r2"
    and "client_handshake E c0 osc0 resp0 x0 (s\<lparr>cworld := set_rcvtimeo (cl_host E) 5 w2\<rparr>) =
      (Some (osc, sid, hs_ms), s3)"
    and "bench_all E sid opt bench_requests osc (s3\<lparr>cworld := set_rcvtimeo (cl_host E) 2 (cworld s3)\<rparr>) =
      (o4, reps4, osc4, s4)"
    and "run (request_step E sid) (osc, s3) demo_requests = (osc5, s5)"
  shows "client_main E c0 osc0 resp0 x0 args s = (if bench opt
    then (case o4 of Some out \<Rightarrow> (out, reps4, s4)
          | None \<Rightarrow> (Exit 0, reps4, s4\<lparr>cworld := close (cl_host E) (cworld s4)\<rparr>))
    else (Exit 0, [], s5\<lparr>cworld := close (cl_host E) (cworld s5)\<rparr>))"
  using assms by (simp add: client_main_def Let_def)

text \<open>C34: the client exits with 1 without having sent a protected request, or it has completed the
  handshake; then it issues the five demo requests, or in benchmark mode three times \<open>count + warmup\<close>
  requests, and exits with 0, except that a negative count kills it.\<close>

theorem client_main_outcome:
  assumes "parse_args args default_options = Some opt"
    and "client_main E c0 osc0 resp0 x0 args s = (out, reps, s')"
  shows "(out = Exit 1 \<and> req_mid s' = req_mid s) \<or>
    ((\<exists>s1 osc sid hs_ms s2. client_handshake E c0 osc0 resp0 x0 s1 = (Some (osc, sid, hs_ms), s2)) \<and>
     (if \<not> bench opt then out = Exit 0 \<and> req_mid s' = req_mid s + 5
      else if count opt < 0 then out = Aborted \<and> req_mid s' = req_mid s
      else if INT_MAX < count opt + warmup opt then out = Undefined_behaviour
      else out = Exit 0 \<and> req_mid s' = req_mid s + of_nat (3 * nat (count opt + warmup opt))))"
proof -
  obtain r1 w1 where 1: "psa_crypto_init (cl_host E) (cworld s) = (r1, w1)" by fastforce
  obtain r2 w2 where 2: "sock_init (cl_host E) (g_host opt) w1 = (r2, w2)" by fastforce
  let ?s = "s\<lparr>cworld := set_rcvtimeo (cl_host E) 5 w2\<rparr>"
  obtain h s3 where 3: "client_handshake E c0 osc0 resp0 x0 ?s = (h, s3)" by fastforce
  have m: "req_mid s3 = req_mid s" using handshake_req [OF 3] by simp
  show ?thesis
  proof (cases "r1 = PSA_SUCCESS (cl_host E) \<and> 0 \<le> r2 \<and> h \<noteq> None")
    case False
    with assms 1 2 3 m have "out = Exit 1 \<and> req_mid s' = req_mid s"
      by (cases h) (auto simp: client_main_def Let_def split: if_splits)
    then show ?thesis by blast
  next
    case True
    then obtain osc sid hs_ms where h: "h = Some (osc, sid, hs_ms)" by auto
    let ?s3 = "s3\<lparr>cworld := set_rcvtimeo (cl_host E) 2 (cworld s3)\<rparr>"
    obtain o4 reps4 osc4 s4 where 4: "bench_all E sid opt bench_requests osc ?s3 = (o4, reps4, osc4, s4)"
      by (metis prod_cases4)
    obtain osc5 s5 where 5: "run (request_step E sid) (osc, s3) demo_requests = (osc5, s5)" by fastforce
    from True h 1 2 3 have e: "(out, reps, s') = (if bench opt
        then (case o4 of Some out \<Rightarrow> (out, reps4, s4)
              | None \<Rightarrow> (Exit 0, reps4, s4\<lparr>cworld := close (cl_host E) (cworld s4)\<rparr>))
        else (Exit 0, [], s5\<lparr>cworld := close (cl_host E) (cworld s5)\<rparr>))"
      using client_main_secured [OF assms(1) _ _ _ _ 4 5, of s w1 r2 w2 c0 osc0 resp0 x0 hs_ms] assms(2) by simp
    have "req_mid s5 = req_mid s + 5" using demo_req [OF 5] m by (simp add: demo_requests_def)
    moreover note bench_all_outcome [OF 4] bench_all_requests [OF 4] m
    ultimately have "if \<not> bench opt then out = Exit 0 \<and> req_mid s' = req_mid s + 5
      else if count opt < 0 then out = Aborted \<and> req_mid s' = req_mid s
      else if INT_MAX < count opt + warmup opt then out = Undefined_behaviour
      else out = Exit 0 \<and> req_mid s' = req_mid s + of_nat (3 * nat (count opt + warmup opt))"
      using e by (auto simp: bench_requests_def split: if_splits)
    with 3 h show ?thesis by blast
  qed
qed

theorem client_main_outcome_witness:
  "(\<exists>reps s'. client_main ref_client ref_c0 0 (replicate 256 0) ref_x0 [''10.0.0.1''] (client_init ()) =
     (Exit 0, reps, s') \<and> req_mid s' = 261) \<and>
   (\<exists>reps s'. client_main ref_client ref_c0 0 (replicate 256 0) ref_x0 [''--bench'', ''--count'', ''-1'']
      (client_init ()) = (Aborted, reps, s'))"
proof -
  let ?main = "\<lambda>args. client_main ref_client ref_c0 0 (replicate 256 0) ref_x0 args (client_init ())"
  have not1: "fst (?main args) \<noteq> Exit 1" if "parse_args args default_options = Some opt" for args opt
  proof -
    have h: "cl_host ref_client = ref_host" by (simp add: ref_client_def)
    obtain osc sid hs_ms s' where "client_handshake ref_client ref_c0 0 (replicate 256 0) ref_x0 (client_init ()) =
      (Some (osc, sid, hs_ms), s')" using ref_handshake by blast
    moreover obtain o4 reps4 osc4 s4 where 4: "bench_all ref_client sid opt bench_requests osc
        (s'\<lparr>cworld := set_rcvtimeo (cl_host ref_client) 2 (cworld s')\<rparr>) = (o4, reps4, osc4, s4)"
      by (metis prod_cases4)
    moreover obtain osc5 s5 where 5: "run (request_step ref_client sid) (osc, s') demo_requests = (osc5, s5)" by fastforce
    ultimately show ?thesis
      using client_main_secured [OF that _ _ _ _ 4 5, of "client_init ()" "()" 0 "()"] bench_all_outcome [OF 4]
      by (auto simp: h ref_host_def client_init_def split: if_splits)
  qed
  have a: "atoi ''-1'' = Some (-1)"
    by (simp add: atoi_def isspace_def isdigit_def digits_value_def INT_MIN_def INT_MAX_def)
  have p: "parse_args [''10.0.0.1''] default_options = Some (default_options\<lparr>g_host := ''10.0.0.1''\<rparr>)"
    "parse_args [''--bench'', ''--count'', ''-1''] default_options =
       Some (default_options\<lparr>bench := True, count := -1\<rparr>)"
    by (simp_all add: a)
  obtain o1 r1 s1 where 1: "?main [''10.0.0.1''] = (o1, r1, s1)" by (metis prod_cases3)
  obtain o2 r2 s2 where 2: "?main [''--bench'', ''--count'', ''-1''] = (o2, r2, s2)" by (metis prod_cases3)
  from client_main_outcome [OF p(1) 1] client_main_outcome [OF p(2) 2] not1 [OF p(1)] not1 [OF p(2)] 1 2
  show ?thesis by (auto simp: default_options_def client_init_def)
qed

end
