(* ===== verification/Agreement.thy ===== *)
theory Agreement
  imports Service Client_Main
begin

text \<open>
  The two ends together: the host client of host_client/src/client.cpp talking to the device of
  src/edhoc_oscore.c over the USB link. The device is a part \<open>dev\<close> of the client's world that only a
  transmitted datagram can change; the client's handshake then completes only if the device's did.
\<close>

subsection \<open>The deployment\<close>

text \<open>The initiator's engine, the clock and the rest of the host do not touch the device.\<close>

definition quiet_initiator :: "('w, 'ec) libedhoc_initiator \<Rightarrow> ('w \<Rightarrow> 'v) \<Rightarrow> bool" where
  "quiet_initiator I dev \<longleftrightarrow>
     (\<forall>cap w c rc out len c' w'. edhoc_message_1_compose I cap w c = (rc, out, len, c', w') \<longrightarrow> dev w' = dev w) \<and>
     (\<forall>cap w c rc out len c' w'. edhoc_message_3_compose I cap w c = (rc, out, len, c', w') \<longrightarrow> dev w' = dev w) \<and>
     (\<forall>msg n. quiet dev (edhoc_message_2_process I msg n)) \<and>
     (\<forall>msg n. quiet dev (edhoc_message_4_process I msg n))"

definition quiet_clock :: "'w host \<Rightarrow> ('w \<Rightarrow> 'v) \<Rightarrow> bool" where
  "quiet_clock H dev \<longleftrightarrow> (\<forall>w t w'. clock_gettime H w = (t, w') \<longrightarrow> dev w' = dev w)"

text \<open>
  What libedhoc documents of the initiator's calls, besides that a composed message is not empty and
  within the buffer: an empty message is refused.
\<close>

definition refuses_empty :: "(u8 list \<Rightarrow> u32 \<Rightarrow> 'w \<Rightarrow> 'ec \<Rightarrow> int \<times> 'ec \<times> 'w) \<Rightarrow> int \<Rightarrow> bool" where
  "refuses_empty f success \<longleftrightarrow> (\<forall>msg w c. fst (f msg 0 w c) \<noteq> success)"

text \<open>
  The link: a datagram is lost, or the device's CoAP server parses it and, when it is a POST to
  /.well-known/edhoc, gives it to that resource; receiving does not change the device; and when the
  device has transmitted nothing since the request, what is received (an empty acknowledgement or an
  error response of the CoAP stack) has no payload.
\<close>

definition carries ::
  "('w, 'p, 'ec, 'oc, 'x, 'd) client_env \<Rightarrow> ('v, 'm, 'o, 'a, 'ec2, 'oc2, 'x2, 'd2, 'h) env \<Rightarrow>
   ('m coap_packet_scheme \<Rightarrow> coap_msg) \<Rightarrow> 'a \<Rightarrow> ('w \<Rightarrow> ('v, 'm, 'a, 'ec2, 'oc2, 'x2) edhoc_state) \<Rightarrow> bool" where
  "carries A B V addr dev \<longleftrightarrow>
     (\<forall>w bs n r w'. send (cl_sock A) w bs n = (r, w') \<longrightarrow> dev w' = dev w \<or>
        (\<exists>k p. coap_packet_parse (coap B) bs (of_nat n) = (k, p) \<and> 0 \<le> k \<and>
           (m_code (V p) = COAP_METHOD_POST \<longrightarrow> m_path (V p) = edhoc_path \<longrightarrow>
            dev w' = snd (edhoc_post B (dev w) edhoc_resource p addr)))) \<and>
     (\<forall>w cap n buf w'. recv (cl_sock A) w cap = (n, buf, w') \<longrightarrow> dev w' = dev w) \<and>
     (\<forall>w bs n r w' m buf w''. send (cl_sock A) w bs n = (r, w') \<longrightarrow>
        recv (cl_sock A) w' (MAXLINE (cl_sock A)) = (m, buf, w'') \<longrightarrow> 0 \<le> m \<longrightarrow> sent (dev w') = sent (dev w) \<longrightarrow>
        getPayloadLength (cl_coap A) (pdu_of_bytes (cl_coap A) buf (nat m)) = 0)"

definition deployment ::
  "('w, 'p, 'ec, 'oc, 'x, 'd) client_env \<Rightarrow> ('v, 'm, 'o, 'a, 'ec2, 'oc2, 'x2, 'd2, 'h) env \<Rightarrow>
   ('p \<Rightarrow> coap_msg) \<Rightarrow> ('m coap_packet_scheme \<Rightarrow> coap_msg) \<Rightarrow> 'a \<Rightarrow>
   ('w \<Rightarrow> ('v, 'm, 'a, 'ec2, 'oc2, 'x2) edhoc_state) \<Rightarrow> bool" where
  "deployment A B M V addr dev \<longleftrightarrow>
     quiet_edhoc (cl_edhoc A) dev \<and> quiet_oscore (cl_oscore A) dev \<and> quiet_initiator (cl_initiator A) dev \<and>
     quiet_clock (cl_host A) dev \<and> carries A B V addr dev \<and>
     pdu_laws (cl_coap A) M \<and> wire_law (cl_coap A) M (coap B) V \<and>
     composes (edhoc_message_1_compose (cl_initiator A)) (EDHOC_SUCCESS (cl_edhoc A)) \<and>
     composes (edhoc_message_3_compose (cl_initiator A)) (EDHOC_SUCCESS (cl_edhoc A)) \<and>
     refuses_empty (edhoc_message_2_process (cl_initiator A)) (EDHOC_SUCCESS (cl_edhoc A)) \<and>
     refuses_empty (edhoc_message_4_process (cl_initiator A)) (EDHOC_SUCCESS (cl_edhoc A))"

subsection \<open>One exchange\<close>

lemma edhoc_post_answered:
  assumes "sent (snd (edhoc_post B d res p addr)) \<noteq> sent d"
  obtains b msg n out len d1 where "framing (coap B) p = Inr (b, msg, n)"
    "edhoc_drive B d b msg n = (EDHOC_SUCCESS (edhoc B), out, len, d1)"
    "oscore_ready (snd (edhoc_post B d res p addr)) = oscore_ready d1"
    "edhoc_ctx_active (snd (edhoc_post B d res p addr)) = edhoc_ctx_active d1"
    "length (sent (snd (edhoc_post B d res p addr))) = length (sent d) + 1"
proof -
  obtain r d' where e: "edhoc_post B d res p addr = (r, d')" by fastforce
  then show thesis
  proof (cases rule: edhoc_post_cases)
    case (sent b msg n out len d1 q r0)
    have "oscore_ready d' = oscore_ready d1" "edhoc_ctx_active d' = edhoc_ctx_active d1"
      "length (server_state.sent d') = length (server_state.sent d) + 1"
      using send_frame(2-4) [of "plat B" d1 res q addr] sent(5) drive_frame(2) [OF sent(2)] by simp_all
    with e show thesis by (intro that [OF sent(1,2)]) simp_all
  next
    case malformed
    with assms e show thesis by simp
  next
    case (failed b msg n rc out len)
    with assms e drive_frame(2) [OF failed(2)] show thesis by simp
  next
    case (unsent b msg n out len q)
    with assms e drive_frame(2) [OF unsent(2)] show thesis by simp
  qed
qed

text \<open>
  A successful exchange that composes a real message and refuses an empty answer was accepted by the
  device, which drove its handshake with it and answered once.
\<close>

lemma exchange_answered:
  assumes A: "exchange A compose mark process c resp s = (Some (c', resp'), s')"
    and link: "carries A B V addr dev" and pdu: "pdu_laws (cl_coap A) M" "wire_law (cl_coap A) M (coap B) V"
    and coap: "coap_laws (coap B) V W" and hdr: "client_header di cred_i pr cred_r = Some (cl_creds A)"
    and mark: "mark = 0xf5 \<or> mark = cid_to_cbor (CL_C_R_INT (cl_creds A))"
    and cq: "\<And>cap w c rc out len c' w'. compose cap w c = (rc, out, len, c', w') \<Longrightarrow> dev w' = dev w"
    and pq: "\<And>msg n. quiet dev (process msg n)"
    and comp: "composes compose (EDHOC_SUCCESS (cl_edhoc A))"
    and ref: "refuses_empty process (EDHOC_SUCCESS (cl_edhoc A))"
  obtains msg n out len d1 where
    "edhoc_drive B (dev (cworld s)) (mark = 0xf5) msg n = (EDHOC_SUCCESS (edhoc B), out, len, d1)"
    "oscore_ready (dev (cworld s')) = oscore_ready d1"
    "edhoc_ctx_active (dev (cworld s')) = edhoc_ctx_active d1"
    "length (sent (dev (cworld s'))) = length (sent (dev (cworld s))) + 1"
proof -
  let ?S = "EDHOC_SUCCESS (cl_edhoc A)" and ?X = "cl_coap A" and ?K = "cl_sock A"
  obtain ret msg len c1 w1 where 1: "compose MSG_MAX (cworld s) c = (ret, msg, len, c1, w1)"
    by (metis prod_cases5)
  let ?framed = "mark # take (unat len) msg"
  let ?pdu = "post_pdu ?X (post_token s + 1) (post_mid s) ?framed (Suc (unat len))"
  obtain r w2 where 2: "send ?K w1 (getPDUPointer ?X ?pdu) (getPDULength ?X ?pdu) = (r, w2)" by fastforce
  obtain m buf w3 where 3: "recv ?K w2 (MAXLINE ?K) = (m, buf, w3)" by (metis prod_cases3)
  let ?pl = "getPayloadLength ?X (pdu_of_bytes ?X buf (nat m))"
  have ok: "ret = ?S" "\<not> m < 0" "\<exists>resp c2. process resp ?pl w3 c1 = (?S, c2, cworld s')"
    using A 1 2 3
    by (auto simp: exchange_def client_edhoc_post_def Let_def split: if_splits prod.splits) blast+
  have len: "0 < len" "len \<le> MSG_MAX" "unat len \<le> length msg"
    using comp 1 ok(1) unfolding composes_def by blast+
  have msg: "take (unat len) msg \<noteq> []" "length (take (unat len) msg) = unat len" "unat len \<le> 256"
    using len by (auto simp: word_less_nat_alt word_le_nat_alt MSG_MAX_def)
  have w1: "dev w1 = dev (cworld s)" by (rule cq [OF 1])
  have w3: "dev w3 = dev w2" using link 3 unfolding carries_def by blast
  obtain resp2 c2 where p: "process resp2 ?pl w3 c1 = (?S, c2, cworld s')" using ok(3) by blast
  have w4: "dev (cworld s') = dev w3" using pq [of resp2 ?pl] p by (simp add: quiet_def) (metis snd_conv)
  have "?pl \<noteq> 0" using ref p by (auto simp: refuses_empty_def) (metis fst_conv)
  then have changed: "sent (dev w2) \<noteq> sent (dev w1)"
    using link 2 3 ok(2) unfolding carries_def by (meson not_less)
  obtain k q where q: "coap_packet_parse (coap B) (getPDUPointer ?X ?pdu) (of_nat (getPDULength ?X ?pdu)) = (k, q)"
    "0 \<le> k" "m_code (V q) = COAP_METHOD_POST \<longrightarrow> m_path (V q) = edhoc_path \<longrightarrow>
       dev w2 = snd (edhoc_post B (dev w1) edhoc_resource q addr)"
    using link 2 changed unfolding carries_def by metis
  have f: "m_path (V q) = edhoc_path \<and> m_code (V q) = COAP_METHOD_POST \<and>
      framing (coap B) q = Inr (mark = 0xf5, take (unat len) msg, of_nat (unat len))"
    using client_framing [OF pdu coap hdr msg(1) _ mark, of "post_token s + 1" "post_mid s" k q] q(1,2) msg
    by simp
  with q(3) have e: "dev w2 = snd (edhoc_post B (dev w1) edhoc_resource q addr)" by blast
  with changed have "sent (snd (edhoc_post B (dev w1) edhoc_resource q addr)) \<noteq> sent (dev w1)" by simp
  then show thesis
    by (rule edhoc_post_answered) (use f e w1 w3 w4 that in auto)
qed

subsection \<open>Agreement\<close>

lemma quiet_clock_now: "quiet_clock H dev \<Longrightarrow> now_ms H w = (t, w') \<Longrightarrow> dev w' = dev w"
  by (auto simp: quiet_clock_def now_ms_def Let_def split: prod.splits)

lemma client_setup_quiet:
  "quiet_edhoc (cl_edhoc A) dev \<Longrightarrow> dev (snd (snd (client_setup A cw))) = dev (snd cw)"
  by (simp add: client_setup_def Let_def seq_ok_def call_ctx_def quiet_edhoc_def quiet_def split_beta)

lemma quietD: "quiet dev f \<Longrightarrow> f w c = (r, c', w') \<Longrightarrow> dev w' = dev w"
  unfolding quiet_def by (metis snd_conv)

text \<open>The export, the deinitialisation and the new OSCORE context do not reach the device.\<close>

lemma handshake_tail_quiet:
  assumes "quiet_edhoc L dev" and "quiet_oscore U dev" and "quiet_clock H dev"
    and "edhoc_export_oscore_session L y w2 c2 = (r3, x, c3, w3)" "edhoc_context_deinit L w3 c3 = (r4, c4, w4)"
    and "oscore_context_init U params w4 osc0 = (e, osc, w5)" "now_ms H w5 = (t1, w6)"
  shows "dev w6 = dev w2"
proof -
  have "dev w3 = dev w2" using assms(1,4) by (simp add: quiet_edhoc_def)
  moreover have "quiet dev (edhoc_context_deinit L)" "quiet dev (oscore_context_init U params)"
    using assms(1,2) by (simp_all add: quiet_edhoc_def quiet_oscore_def)
  ultimately show ?thesis
    using quietD assms(5,6) quiet_clock_now [OF assms(3,7)] by metis
qed

text \<open>C11: when the client comes out of the handshake with an OSCORE context, so does the device: it has
  accepted message_1 and message_3 in turn, answered each once, holds a ready OSCORE context and has
  no handshake left in flight. So the client never sends a protected request to a device that would
  refuse it with -ENOTCONN.\<close>

theorem handshake_agreement:
  assumes d: "deployment A B M V addr dev" and coap: "coap_laws (coap B) V W"
    and hdr: "client_header di cred_i pr cred_r = Some (cl_creds A)" and z: "EDHOC_SUCCESS (edhoc B) = 0"
    and h: "client_handshake A c0 osc0 resp0 x0 s = (Some (osc, sid, hs_ms), s')"
  shows "oscore_ready (dev (cworld s')) \<and> \<not> edhoc_ctx_active (dev (cworld s')) \<and>
         length (sent (dev (cworld s'))) = length (sent (dev (cworld s))) + 2"
proof -
  let ?S = "EDHOC_SUCCESS (cl_edhoc A)" and ?I = "cl_initiator A" and ?K = "CL_C_R_INT (cl_creds A)"
  have q: "quiet_edhoc (cl_edhoc A) dev" "quiet_oscore (cl_oscore A) dev" "quiet_initiator ?I dev"
    "quiet_clock (cl_host A) dev" and link: "carries A B V addr dev"
    and pdu: "pdu_laws (cl_coap A) M" "wire_law (cl_coap A) M (coap B) V"
    and comp: "composes (edhoc_message_1_compose ?I) ?S" "composes (edhoc_message_3_compose ?I) ?S"
    and ref: "refuses_empty (edhoc_message_2_process ?I) ?S" "refuses_empty (edhoc_message_4_process ?I) ?S"
    using d by (simp_all add: deployment_def)
  from h obtain c w t0 w0 c1 resp1 s1 c2 resp2 s2 x c3 w3 r4 c4 w4 w5 t1 w6 and params :: oscore_init_params where
    0: "client_setup A (c0, cworld s) = (?S, c, w)" "now_ms (cl_host A) w = (t0, w0)"
    and 1: "exchange A (edhoc_message_1_compose ?I) 0xf5 (edhoc_message_2_process ?I) c resp0
      (s\<lparr>cworld := w0\<rparr>) = (Some (c1, resp1), s1)"
    and 2: "exchange A (edhoc_message_3_compose ?I) (cid_to_cbor ?K) (edhoc_message_4_process ?I) c1 resp1 s1 =
      (Some (c2, resp2), s2)"
    and 3: "edhoc_export_oscore_session (cl_edhoc A) (x0\<lparr>ex_sender_id_len := 0, ex_recipient_id_len := 0\<rparr>)
      (cworld s2) c2 = (?S, x, c3, w3)" "edhoc_context_deinit (cl_edhoc A) w3 c3 = (r4, c4, w4)"
      "oscore_context_init (cl_oscore A) params w4 osc0 = (ok, osc, w5)" "now_ms (cl_host A) w5 = (t1, w6)"
      "s' = s2\<lparr>cworld := w6\<rparr>"
    by (rule client_handshake_run) blast
  have w0: "dev w0 = dev (cworld s)"
    using client_setup_quiet [OF q(1), of "(c0, cworld s)"] 0(1) quiet_clock_now [OF q(4) 0(2)] by simp
  have tail: "dev (cworld s') = dev (cworld s2)"
    using handshake_tail_quiet [OF q(1,2,4) 3(1-4)] 3(5) by simp
  have mark: "cid_to_cbor ?K \<noteq> 0xf5" using client_header_c_r [OF hdr] by (simp add: cid_to_cbor_def)
  have iq: "edhoc_message_1_compose ?I cap w c = (rc, out, len, c', w') \<Longrightarrow> dev w' = dev w"
    "edhoc_message_3_compose ?I cap w c = (rc, out, len, c', w') \<Longrightarrow> dev w' = dev w"
    "quiet dev (edhoc_message_2_process ?I msg n)" "quiet dev (edhoc_message_4_process ?I msg n)"
    for cap w c rc out len c' w' msg n
    using q(3) by (simp_all add: quiet_initiator_def)
  obtain m1 n1 o1 l1 d1 where x1: "edhoc_drive B (dev w0) True m1 n1 = (0, o1, l1, d1)"
    "oscore_ready (dev (cworld s1)) = oscore_ready d1" "edhoc_ctx_active (dev (cworld s1)) = edhoc_ctx_active d1"
    "length (sent (dev (cworld s1))) = length (sent (dev w0)) + 1"
    by (rule exchange_answered [OF 1 link pdu coap hdr _ iq(1,3) comp(1) ref(1)]) (use z in auto)
  obtain m2 n2 o2 l2 d2 where x2: "edhoc_drive B (dev (cworld s1)) False m2 n2 = (0, o2, l2, d2)"
    "oscore_ready (dev (cworld s2)) = oscore_ready d2" "edhoc_ctx_active (dev (cworld s2)) = edhoc_ctx_active d2"
    "length (sent (dev (cworld s2))) = length (sent (dev (cworld s1))) + 1"
    by (rule exchange_answered [OF 2 link pdu coap hdr _ iq(2,4) comp(2) ref(2)]) (use z mark in auto)
  have "edhoc_ctx_active (dev (cworld s1))" using drive_message_1(2) [OF x1(1)] x1(3) z by simp
  with drive_message_3(1,2) [OF x2(1)] z x1(4) x2 w0 tail show ?thesis by simp
qed

subsection \<open>A client and a device on one link\<close>

text \<open>
  The client's world is the device and whether it has answered the last datagram; the link gives
  every datagram that parses to the EDHOC resource.
\<close>

type_synonym ref_device = "(bool, coap_msg, unit, bool ref_ctx, nat, unit) edhoc_state"

definition link_sock :: "(ref_device \<times> bool) sock_lib" where
  "link_sock = \<lparr>
     send = (\<lambda>w bs n. let (k, p) = coap_packet_parse ref_lib bs (of_nat n); d = fst w in
       if k < 0 then (int n, (d, False))
       else let d' = snd (edhoc_post ref_env d edhoc_resource p ()) in (int n, (d', sent d' \<noteq> sent d))),
     recv = (\<lambda>w n. if snd w then (7, [0x60, 0x44, 0, 0, 0xff, 0x41, 0x00], w) else (4, [0x60, 0x44, 0, 0], w)),
     MAXLINE = 1024\<rparr>"

definition link_host :: "(ref_device \<times> bool) host" where
  "link_host = \<lparr>clock_gettime = (\<lambda>w. ((7, 0), w)), psa_crypto_init = (\<lambda>w. (0, w)), PSA_SUCCESS = 0,
     sock_init = (\<lambda>h w. (0, w)), set_rcvtimeo = (\<lambda>n w. w), close = id, double = id\<rparr>"

definition link_client :: "(ref_device \<times> bool, coap_msg, (ref_device \<times> bool) ref_ctx, nat, unit, unit) client_env" where
  "link_client = \<lparr>cl_coap = ref_cantcoap, cl_sock = link_sock, cl_host = link_host, cl_edhoc = ref_edhoc,
     cl_initiator = \<lparr>edhoc_message_1_compose = (\<lambda>cap w c. (if cap = 0 then -1 else 0, [0x03], 1, c, w)),
       edhoc_message_2_process = (\<lambda>msg n w c. (if n = 0 then -1 else 0, c, w)),
       edhoc_message_3_compose = (\<lambda>cap w c. (if cap = 0 then -1 else 0, [0x2a], 1, c, w)),
       edhoc_message_4_process = (\<lambda>msg n w c. (if n = 0 then -1 else 0, c, w))\<rparr>,
     cl_oscore = ref_oscore, cl_creds = ref_client_h\<rparr>"

lemma link_client_sel [simp]:
  "cl_coap link_client = ref_cantcoap" "cl_sock link_client = link_sock" "cl_host link_client = link_host"
  "cl_edhoc link_client = ref_edhoc" "cl_oscore link_client = ref_oscore" "cl_creds link_client = ref_client_h"
  by (simp_all add: link_client_def)

lemma link_carries: "carries link_client ref_env ref_view () fst"
  unfolding carries_def
proof (intro conjI allI impI)
  fix w bs n r w'
  assume "send (cl_sock link_client) w bs n = (r, w')"
  then show "fst w' = fst w \<or> (\<exists>k p. coap_packet_parse (coap ref_env) bs (of_nat n) = (k, p) \<and> 0 \<le> k \<and>
      (m_code (ref_view p) = COAP_METHOD_POST \<longrightarrow> m_path (ref_view p) = edhoc_path \<longrightarrow>
       fst w' = snd (edhoc_post ref_env (fst w) edhoc_resource p ())))"
    by (cases "coap_packet_parse ref_lib bs (of_nat n)")
      (auto simp: link_sock_def Let_def not_less split: if_splits)
next
  fix w cap n buf w'
  assume "recv (cl_sock link_client) w cap = (n, buf, w')"
  then show "fst w' = fst w" by (auto simp: link_sock_def split: if_splits)
next
  fix w bs n r w' m buf w''
  assume "send (cl_sock link_client) w bs n = (r, w')"
    and "recv (cl_sock link_client) w' (MAXLINE (cl_sock link_client)) = (m, buf, w'')"
    and "sent (fst w') = sent (fst w)"
  then have "buf = [0x60, 0x44, 0, 0]" "m = 4"
    by (auto simp: link_sock_def Let_def split: if_splits prod.splits)
  then show "getPayloadLength (cl_coap link_client) (pdu_of_bytes (cl_coap link_client) buf (nat m)) = 0"
    by (simp add: ref_cantcoap_def ref_decode_def ref_eval)
qed

lemma link_deployment: "deployment link_client ref_env id ref_view () fst"
proof -
  have "Suc 0 \<le> unat cap" if "0 < cap" for cap :: u32 using that by (simp add: word_less_nat_alt)
  then show ?thesis
    using link_carries ref_pdu_laws ref_wire_law
    by (simp add: deployment_def link_client_def quiet_initiator_def quiet_clock_def quiet_def link_host_def
        composes_def refuses_empty_def ref_edhoc_sel ref_quiet word_le_nat_alt word_neq_0_conv)
qed

text \<open>A one-byte message gets through: the link parses it, and the device answers what it accepts.\<close>

lemma link_parse:
  fixes tok mid mark x
  defines "pdu \<equiv> post_pdu ref_cantcoap tok mid [mark, x] 2"
  obtains p where "coap_packet_parse ref_lib (getPDUPointer ref_cantcoap pdu) (of_nat (getPDULength ref_cantcoap pdu)) =
      (0, p)" "ref_view p = \<lparr>m_type = COAP_CONFIRMABLE, m_code = COAP_METHOD_POST, m_id = mid, m_token = le_bytes32 tok,
     m_path = edhoc_path, m_payload = Some [mark, x]\<rparr>"
proof -
  obtain k p where p: "coap_packet_parse ref_lib (getPDUPointer ref_cantcoap pdu)
       (of_nat (getPDULength ref_cantcoap pdu)) = (k, p)" by fastforce
  have m: "pdu = \<lparr>m_type = COAP_CONFIRMABLE, m_code = COAP_METHOD_POST, m_id = mid, m_token = le_bytes32 tok,
     m_path = edhoc_path, m_payload = Some [mark, x]\<rparr>"
    using post_pdu_message [OF ref_pdu_laws, of 2 "[mark, x]" tok mid] by (simp add: pdu_def)
  then have "plain_msg pdu" by (simp add: plain_msg_def COAP_CONFIRMABLE_def le_bytes32_def edhoc_path_def)
  moreover have "length (msg_bytes pdu) = 29"
    unfolding m by (simp add: msg_bytes_def encode_payload_def edhoc_path_def le_bytes32_def)
  ultimately have k: "k = 0" using p by (auto simp: ref_lib_def ref_cantcoap_def ref_parse_def)
  with ref_wire_law p have "ref_view p = id pdu" by (simp add: wire_law_def)
  with p k m that show thesis by simp
qed

lemma link_answers:
  assumes "framing ref_lib p = Inr (b, msg, n)" and d: "edhoc_drive ref_env d b msg n = (0, out, len, d1)"
    and "length (m_token (ref_view p)) = 4" and "len \<le> 2"
  obtains q where "edhoc_post ref_env d edhoc_resource p () = resource_send ref_platform d1 edhoc_resource q ()"
    "sent (snd (edhoc_post ref_env d edhoc_resource p ())) \<noteq> sent d"
proof -
  obtain r q where q: "edhoc_reply ref_lib p out len = (r, q)" by fastforce
  have "len \<le> 256" "unat len \<le> 2" using assms(4) by (auto simp: word_le_nat_alt)
  with reply_fits_iff [OF ref_coap_laws ref_space_laws q] assms(3) have "0 \<le> r" by (simp add: reply_size_def)
  moreover obtain pl k where "coap_packet_get_payload ref_lib p = (pl, k)" by fastforce
  ultimately have e: "edhoc_post ref_env d edhoc_resource p () = resource_send ref_platform d1 edhoc_resource q ()"
    using assms(1) d q by (simp add: edhoc_post_def framing_def ref_edhoc_sel)
  with drive_frame(2) [OF d] that show thesis by simp
qed

lemma link_exchange:
  assumes comp: "compose MSG_MAX (cworld s) c = (0, [x], 1, c, cworld s)"
    and proc: "\<And>resp n w c. process resp n w c = (if n = 0 then -1 else 0, c, w)"
    and mark: "mark = 0xf5 \<or> mark = cid_to_cbor (CL_C_R_INT ref_client_h)"
    and d: "edhoc_drive ref_env (fst (cworld s)) (mark = 0xf5) [x] 1 = (0, out, len, d1)" and "len \<le> 2"
  obtains resp' s' q where "exchange link_client compose mark process c resp s = (Some (c, resp'), s')"
    "fst (cworld s') = snd (resource_send ref_platform d1 edhoc_resource q ())"
proof -
  let ?pdu = "post_pdu ref_cantcoap (post_token s + 1) (post_mid s) [mark, x] 2"
  obtain p where p: "coap_packet_parse ref_lib (getPDUPointer ref_cantcoap ?pdu)
      (of_nat (getPDULength ref_cantcoap ?pdu)) = (0, p)" and v: "ref_view p = \<lparr>m_type = COAP_CONFIRMABLE,
      m_code = COAP_METHOD_POST, m_id = post_mid s, m_token = le_bytes32 (post_token s + 1), m_path = edhoc_path,
      m_payload = Some [mark, x]\<rparr>" using link_parse by blast
  have f: "framing ref_lib p = Inr (mark = 0xf5, [x], 1)"
    using client_framing [OF ref_pdu_laws ref_wire_law ref_coap_laws ref_client_header, of "[x]" mark
        "post_token s + 1" "post_mid s" 0 p] mark p by (simp add: numeral_2_eq_2)
  have t: "length (m_token (ref_view p)) = 4" by (simp add: v le_bytes32_def)
  from link_answers [OF f d t assms(5)] obtain q where
    q: "edhoc_post ref_env (fst (cworld s)) edhoc_resource p () = resource_send ref_platform d1 edhoc_resource q ()"
    "sent (snd (edhoc_post ref_env (fst (cworld s)) edhoc_resource p ())) \<noteq> sent (fst (cworld s))" by blast
  let ?d = "snd (resource_send ref_platform d1 edhoc_resource q ())"
  have s: "send link_sock (cworld s) (getPDUPointer ref_cantcoap ?pdu) (getPDULength ref_cantcoap ?pdu) =
      (int (getPDULength ref_cantcoap ?pdu), (?d, True))"
    using p q by (simp add: link_sock_def Let_def)
  have r: "recv link_sock (?d, True) k = (7, [0x60, 0x44, 0, 0, 0xff, 0x41, 0x00], (?d, True))" for k
    by (simp add: link_sock_def)
  have "pdu_of_bytes ref_cantcoap [0x60, 0x44, 0, 0, 0xff, 0x41, 0x00] 7 =
      \<lparr>m_type = 2, m_code = 0x44, m_id = 0, m_token = [], m_path = [], m_payload = Some [0x41, 0x00]\<rparr>"
    by (simp add: ref_cantcoap_def ref_eval)
  then have "\<exists>resp' s'. exchange link_client compose mark process c resp s = (Some (c, resp'), s') \<and>
      fst (cworld s') = ?d"
    using comp s r
    by (simp add: exchange_def client_edhoc_post_def Let_def proc ref_edhoc_sel MSG_MAX_def numeral_2_eq_2)
      (simp add: ref_cantcoap_def)
  with that show thesis by blast
qed

lemma link_handshake:
  "\<exists>osc sid hs_ms s'. client_handshake link_client \<lparr>rc_config = empty_config, rc_peer = None\<rparr> 0 (replicate 256 0) ref_x0
     (client_init (ref_boot, False)) = (Some (osc, sid, hs_ms), s')"
proof -
  let ?I = "cl_initiator link_client" and ?c0 = "\<lparr>rc_config = empty_config, rc_peer = None\<rparr> :: (ref_device \<times> bool) ref_ctx"
  let ?s = "(client_init (ref_boot, False) :: (ref_device \<times> bool) client_state)\<lparr>cworld := (ref_boot, False)\<rparr>"
  obtain c where 0: "client_setup link_client (?c0, (ref_boot, False)) = (0, c, (ref_boot, False))"
    by (simp add: client_setup_def seq_ok_def call_ctx_def ref_edhoc_def ref_set_def Let_def)
  have t: "now_ms link_host w = (7000, w)" for w by (simp add: now_ms_def link_host_def)
  have i: "edhoc_message_1_compose ?I MSG_MAX w c = (0, [0x03], 1, c, w)"
    "edhoc_message_3_compose ?I MSG_MAX w c = (0, [0x2a], 1, c, w)"
    "edhoc_message_2_process ?I resp n w c = (if n = 0 then -1 else 0, c, w)"
    "edhoc_message_4_process ?I resp n w c = (if n = 0 then -1 else 0, c, w)" for w c resp n
    by (simp_all add: link_client_def MSG_MAX_def)
  obtain d1 where 1: "edhoc_drive ref_env (fst (cworld ?s)) True [0x03] 1 = (0, [0x41, 0x00], 2, d1)" "ref_awaiting d1"
    using ref_drive_1 by blast
  obtain resp1 s1 q1 where x1: "exchange link_client (edhoc_message_1_compose ?I) 0xf5 (edhoc_message_2_process ?I) c
      (replicate 256 0) ?s = (Some (c, resp1), s1)"
    "fst (cworld s1) = snd (resource_send ref_platform d1 edhoc_resource q1 ())"
    by (rule link_exchange [of "edhoc_message_1_compose ?I" ?s c "0x03" "edhoc_message_2_process ?I" "0xf5"
          "[0x41, 0x00]" 2 d1 "replicate 256 0"]) (use 1 i in auto)
  have "ref_awaiting (fst (cworld s1))" using 1(2) x1(2) by (simp add: ref_awaiting_def)
  then obtain d2 where 2: "edhoc_drive ref_env (fst (cworld s1)) False [0x2a] 1 = (0, [0x40], 1, d2)"
    using ref_drive_3 by blast
  have mark: "cid_to_cbor (CL_C_R_INT ref_client_h) \<noteq> 0xf5"
    using client_header_c_r [OF ref_client_header] by (simp add: cid_to_cbor_def)
  obtain resp2 s2 q2 where x2: "exchange link_client (edhoc_message_3_compose ?I)
      (cid_to_cbor (CL_C_R_INT ref_client_h)) (edhoc_message_4_process ?I) c resp1 s1 = (Some (c, resp2), s2)"
    by (rule link_exchange [of "edhoc_message_3_compose ?I" s1 c "0x2a" "edhoc_message_4_process ?I"
          "cid_to_cbor (CL_C_R_INT ref_client_h)" "[0x40]" 1 d2 resp1]) (use 2 i mark in auto)
  have "cworld (client_init w) = w" for w :: "ref_device \<times> bool" by (simp add: client_init_def)
  with 0 t x1(1) x2 show ?thesis
    by (simp add: client_handshake_def Let_def) (simp add: ref_edhoc_def ref_set_def ref_oscore_def)
qed

theorem handshake_agreement_witness:
  "\<exists>osc sid hs_ms s'. client_handshake link_client \<lparr>rc_config = empty_config, rc_peer = None\<rparr> 0 (replicate 256 0) ref_x0
     (client_init (ref_boot, False)) = (Some (osc, sid, hs_ms), s') \<and> oscore_ready (fst (cworld s')) \<and>
     length (sent (fst (cworld s'))) = 2"
proof -
  obtain osc sid hs_ms s' where h: "client_handshake link_client \<lparr>rc_config = empty_config, rc_peer = None\<rparr> 0
      (replicate 256 0) ref_x0 (client_init (ref_boot, False)) = (Some (osc, sid, hs_ms), s')"
    using link_handshake by blast
  have "coap_laws (coap ref_env) ref_view id"
    "client_header (replicate 32 3) [0xa1] (replicate 32 4) [0xa2] = Some (cl_creds link_client)"
    "EDHOC_SUCCESS (edhoc ref_env) = 0"
    by (simp_all add: ref_coap_laws ref_client_header ref_edhoc_sel)
  from handshake_agreement [OF link_deployment this h] h show ?thesis
    by (simp add: client_init_def ref_boot_def)
qed

end
