(* ===== verification/End_To_End.thy ===== *)
theory End_To_End
  imports Agreement
begin

text \<open>
  A protected request from the client's \<open>oscore_request\<close> through the device's \<open>oscore_post\<close> and back:
  what the client accepts as the response to its request is what the server specification answers to
  that request, and the device's LED is where the specification puts it.
\<close>

subsection \<open>The protected link\<close>

text \<open>
  OSCORE between the two ends: what the client protects, if the device unprotects it at all, is
  unprotected to the same bytes.
\<close>

definition oscore_faithful :: "('w, 'oc) uoscore \<Rightarrow> ('v, 'oc2) uoscore \<Rightarrow> bool" where
  "oscore_faithful U U' \<longleftrightarrow>
     (\<forall>sid bs n cap w c out len c' w' sid' cap' v d e buf blen d' v'.
        coap2oscore U sid bs n cap w c = (ok, out, len, c', w') \<longrightarrow>
        oscore2coap U' sid' out len cap' v d = (e, buf, blen, d', v') \<longrightarrow>
        e \<in> {ok, first_request_after_reboot} \<longrightarrow>
        blen = n \<and> take (unat n) buf = take (unat n) bs)"

text \<open>
  The link: a protected datagram is lost or handed to the OSCORE resource, and receiving does not
  change the device.
\<close>

definition oscore_link ::
  "('w, 'p, 'ec, 'oc, 'x, 'd) client_env \<Rightarrow> ('v, 'm, 'o, 'a, 'ec2, 'oc2, 'x2, 'd2, 'h) env \<Rightarrow> 'a \<Rightarrow>
   ('w \<Rightarrow> ('v, 'm, 'a, 'ec2, 'oc2, 'x2) edhoc_state) \<Rightarrow> bool" where
  "oscore_link A B addr dev \<longleftrightarrow>
     (\<forall>sid bs n cap w0 c out len c' w0' w r w'.
        coap2oscore (cl_oscore A) sid bs n cap w0 c = (ok, out, len, c', w0') \<longrightarrow>
        send (cl_sock A) w out (unat len) = (r, w') \<longrightarrow>
        dev w' = dev w \<or> (\<exists>p. data p = out \<and> offset p = ucast len \<and>
          dev w' = snd (oscore_post B (dev w) oscore_root_resource p addr))) \<and>
     (\<forall>w cap n buf w'. recv (cl_sock A) w cap = (n, buf, w') \<longrightarrow> dev w' = dev w)"

text \<open>
  Authenticity of responses: the client accepts one only if the device has answered since the request,
  and then it unprotects it to the bytes the device protected.
\<close>

definition oscore_authentic ::
  "('w, 'p, 'ec, 'oc, 'x, 'd) client_env \<Rightarrow> ('v, 'm, 'o, 'a, 'ec2, 'oc2, 'x2, 'd2, 'h) env \<Rightarrow> 'a \<Rightarrow>
   ('w \<Rightarrow> ('v, 'm, 'a, 'ec2, 'oc2, 'x2) edhoc_state) \<Rightarrow> bool" where
  "oscore_authentic A B addr dev \<longleftrightarrow>
     (\<forall>w bs n r w' m buf w'' sid cap w3 c e cbuf clen c' w4.
        send (cl_sock A) w bs n = (r, w') \<longrightarrow> recv (cl_sock A) w' (MAXLINE (cl_sock A)) = (m, buf, w'') \<longrightarrow> 0 \<le> m \<longrightarrow>
        oscore2coap (cl_oscore A) sid buf (of_int m) cap w3 c = (e, cbuf, clen, c', w4) \<longrightarrow>
        e \<in> {ok, first_request_after_reboot} \<longrightarrow>
        sent (dev w') \<noteq> sent (dev w) \<and>
        (\<forall>q sid2 pbs pn v oc plen oc' v'. sent (dev w') = sent (dev w) @ [(q, addr)] \<longrightarrow>
           coap2oscore (oscore B) sid2 pbs pn OSCORE_BUF_MAX v oc = (ok, data q, plen, oc', v') \<longrightarrow>
           offset q = ucast plen \<longrightarrow> clen = pn \<and> take (unat pn) cbuf = take (unat pn) pbs))"

lemmas oscore_authenticD = oscore_authentic_def [THEN iffD1, rule_format]

text \<open>Parsing looks only at the given number of bytes, and the client's paths are ones the device can read.\<close>

definition parse_law :: "('m, 'o) coap_lib \<Rightarrow> ('m coap_packet_scheme \<Rightarrow> coap_msg) \<Rightarrow> bool" where
  "parse_law C V \<longleftrightarrow>
     (\<forall>bs bs' n r p. coap_packet_parse C bs n = (r, p) \<longrightarrow> take (unat n) bs = take (unat n) bs' \<longrightarrow>
        (\<exists>p'. coap_packet_parse C bs' n = (r, p') \<and> V p' = V p)) \<and>
     (\<forall>bs n r p. coap_packet_parse C bs n = (r, p) \<longrightarrow> 0 \<le> r \<longrightarrow> uri_ok C p)"

subsection \<open>The message of a request\<close>

definition request_msg :: "u8 \<Rightarrow> u32 \<Rightarrow> u16 \<Rightarrow> string \<Rightarrow> u8 list option \<Rightarrow> nat \<Rightarrow> coap_msg" where
  "request_msg code token mid uri payload n =
     \<lparr>m_type = COAP_CONFIRMABLE, m_code = code, m_id = mid, m_token = le_bytes32 token,
      m_path = segments [] uri,
      m_payload = (case payload of None \<Rightarrow> None | Some bs \<Rightarrow> if n = 0 then None else Some (take n bs))\<rparr>"

lemma request_pdu_message:
  assumes "pdu_laws X M" and "\<And>bs. payload = Some bs \<Longrightarrow> n \<le> length bs"
  shows "M (request_pdu X code token mid uri payload n) = request_msg code token mid uri payload n"
  using assms
  by (cases payload) (simp_all add: request_pdu_def request_msg_def pdu_laws_def le_bytes32_def Let_def)

subsection \<open>The device's side\<close>

text \<open>When the OSCORE resource answers, the inner request was served as specified and its response protected.\<close>

lemma oscore_post_answered:
  assumes "coap_laws (coap B) V W" and "parse_law (coap B) V"
    and o': "d' = snd (oscore_post B d res p addr)" and "sent d' \<noteq> sent d"
  obtains e buf blen oc w r q rsp out len oc1 v oc2 v2 where
    "oscore2coap (oscore B) (oscore_sender_id d) (data p) (ucast (offset p)) OSCORE_BUF_MAX (world d)
       (oscore_ctx d) = (e, buf, blen, oc, w)" "e \<in> {ok, first_request_after_reboot}"
    "coap_packet_parse (coap B) buf (ucast blen) = (r, q)" "0 \<le> r"
    "(V rsp, led_state d') = server_spec (led_state d) (V q)"
    "coap2oscore (oscore B) (oscore_sender_id d) (data rsp) (ucast (offset rsp)) OSCORE_BUF_MAX v oc1 =
       (ok, out, len, oc2, v2)"
    "sent d' = sent d @ [(oscore_packet (coap B) out len, addr)]"
    "oscore_ready d"
proof -
  obtain r0 where o: "oscore_post B d res p addr = (r0, d')" using o' by (metis prod.collapse)
  obtain e buf blen oc w where u: "oscore2coap (oscore B) (oscore_sender_id d) (data p) (ucast (offset p))
      OSCORE_BUF_MAX (world d) (oscore_ctx d) = (e, buf, blen, oc, w)" by (metis prod_cases5)
  obtain r q where q: "coap_packet_parse (coap B) buf (ucast blen) = (r, q)" by fastforce
  have i: "sent s1 = sent d" "led_state s1 = led_state d" "oscore_sender_id s1 = oscore_sender_id d"
    if "inner_request B d p = (x, s1)" for x s1
    using inner_request_frame [OF that] by simp_all
  from o show thesis
  proof (cases rule: oscore_post_cases)
    case (sent q' s1 r1 rsp s2 out len oc1 v)
    have a: "e \<in> {ok, first_request_after_reboot}" "0 \<le> r" "q' = q"
      using sent(2) by (auto simp: inner_request_def u q split: if_splits)
    have uri: "uri_ok (coap B) q" using assms(2) q a(2) by (simp add: parse_law_def)
    have spec: "(V rsp, led_state s2) = server_spec (led_state d) (V q)"
      using dispatch_spec [OF assms(1) uri sent(3) [unfolded a(3)] sent(4)] i(2) [OF sent(2)] by simp
    have f: "oscore_sender_id s2 = oscore_sender_id d" "server_state.sent s2 = server_state.sent d"
      using dispatch_edhoc_frame(4,5) [OF sent(3)] i [OF sent(2)] by (simp_all add: oscore_part_def)
    have d': "led_state d' = led_state s2"
      "server_state.sent d' = server_state.sent d @ [(oscore_packet (coap B) out len, addr)]"
      using send_frame(1,2) [of "plat B" "oscore_step s2 oc1 v" res "oscore_packet (coap B) out len" addr]
        sent(6) f(2) by simp_all
    show thesis
      by (rule that [OF u a(1) q a(2), of rsp "world s2" "oscore_ctx s2" out len oc1 v])
        (use o spec d' f sent(1,5) in simp_all)
  next
    case rejected
    with assms(4) o i(1) [OF rejected(2)] show thesis by simp
  next
    case (undispatched q' s1 p')
    with assms(4) o i(1) [OF undispatched(2)] dispatch_edhoc_frame(5) [OF undispatched(3)] show thesis by simp
  next
    case (unprotected q' s1 r1 p' s2 e' out len oc1 v)
    with assms(4) o i(1) [OF unprotected(2)] dispatch_edhoc_frame(5) [OF unprotected(3)] show thesis by simp
  qed (use assms(4) o in simp)
qed

subsection \<open>End to end\<close>

text \<open>The steps of a request that succeeds.\<close>

lemma oscore_request_run:
  assumes "oscore_request X S H U sid s osc code uri payload n rtt = (0, Some rx, rtt', osc', s')"
  obtains out len osc1 w1 t0 w2 r w3 m buf w4 w5 e cbuf clen where
    "coap2oscore U sid (getPDUPointer X (request_pdu X code (req_token s + 1) (req_mid s) uri payload n))
       (of_nat (getPDULength X (request_pdu X code (req_token s + 1) (req_mid s) uri payload n)))
       OSCORE_MAX (cworld s) osc = (ok, out, len, osc1, w1)"
    "now_ms H w1 = (t0, w2)" "send S w2 out (unat len) = (r, w3)" "recv S w3 (MAXLINE S) = (m, buf, w4)" "0 \<le> m"
    "w5 = w4 \<or> (\<exists>t. now_ms H w4 = (t, w5))"
    "oscore2coap U sid buf (of_int m) OSCORE_MAX w5 osc1 = (e, cbuf, clen, osc', cworld s')"
    "e \<in> {ok, first_request_after_reboot}" "rx = pdu_of_bytes X cbuf (unat clen)"
proof -
  let ?pdu = "request_pdu X code (req_token s + 1) (req_mid s) uri payload n"
  obtain e1 out len osc1 w1 where 1: "coap2oscore U sid (getPDUPointer X ?pdu) (of_nat (getPDULength X ?pdu))
      OSCORE_MAX (cworld s) osc = (e1, out, len, osc1, w1)" by (metis prod_cases5)
  obtain t0 w2 where 2: "now_ms H w1 = (t0, w2)" by fastforce
  obtain r w3 where 3: "send S w2 out (unat len) = (r, w3)" by fastforce
  obtain m buf w4 where 4: "recv S w3 (MAXLINE S) = (m, buf, w4)" by (metis prod_cases3)
  obtain t1 wt where 5: "now_ms H w4 = (t1, wt)" by fastforce
  define w5 where "w5 = (if rtt = None then w4 else wt)"
  obtain e cbuf clen osc2 w6 where 6: "oscore2coap U sid buf (of_int m) OSCORE_MAX w5 osc1 = (e, cbuf, clen, osc2, w6)"
    by (metis prod_cases5)
  have f: "e1 = ok" "\<not> m < 0" "e = ok \<or> e = first_request_after_reboot" "rx = pdu_of_bytes X cbuf (unat clen)"
    "osc2 = osc'" "w6 = cworld s'"
    using assms 6 by (auto simp: oscore_request_def 1 2 3 4 5 w5_def Let_def split: if_splits option.splits)
  show thesis
    by (rule that [OF 1 [unfolded f(1)] 2 3 4 _ _ 6 [unfolded f(5,6)]]) (use f 5 in \<open>auto simp: w5_def\<close>)
qed

lemma ucast_of_nat_u32: "ucast (of_nat k :: u32) = (of_nat k :: u16)"
  by (simp add: word_unat_eq_iff unsigned_ucast_eq unat_of_nat take_bit_eq_mod mod_mod_cancel)

lemma ucast_small: "len \<le> (512 :: u32) \<Longrightarrow> ucast (ucast len :: u16) = len"
  using unat_ucast_512 [of len] by (metis unat_ucast_u16_u32 word_unat_eq_iff)

text \<open>
  The request as the device sees it: the bytes it unprotects are those of the client's PDU, and it
  parses them to the client's message.
\<close>

lemma inner_is_request:
  assumes "wire_law X M (coap B) V" and "parse_law (coap B) V" and "oscore_faithful U (oscore B)"
    and "oscore_size_laws U" and "oscore_size_laws (oscore B)"
    and c: "coap2oscore U sid (getPDUPointer X pdu) (of_nat (getPDULength X pdu)) OSCORE_MAX w osc = (ok, out, len, osc1, w1)"
    and u: "oscore2coap (oscore B) sid' out (ucast (ucast len :: u16)) OSCORE_BUF_MAX v oc = (e, buf, blen, oc', v')"
    and e: "e \<in> {ok, first_request_after_reboot}"
    and q: "coap_packet_parse (coap B) buf (ucast blen) = (r, q)" "0 \<le> r"
  shows "V q = M pdu"
proof -
  have "len \<le> OSCORE_MAX" using assms(4) c unfolding oscore_size_laws_def by blast
  then have u: "oscore2coap (oscore B) sid' out len OSCORE_BUF_MAX v oc = (e, buf, blen, oc', v')"
    using u by (simp add: OSCORE_MAX_def ucast_small)
  have "blen \<le> OSCORE_BUF_MAX" using assms(5) u e unfolding oscore_size_laws_def by blast
  then have b: "unat (ucast blen :: u16) = unat blen" by (simp add: OSCORE_BUF_MAX_def unat_ucast_512)
  have n: "blen = of_nat (getPDULength X pdu)" "take (unat blen) buf = take (unat blen) (getPDUPointer X pdu)"
    using assms(3) c u e unfolding oscore_faithful_def by blast+
  then obtain p' where p: "coap_packet_parse (coap B) (getPDUPointer X pdu) (ucast blen) = (r, p')" "V p' = V q"
    using assms(2) q(1) b unfolding parse_law_def by metis
  have "ucast blen = (of_nat (getPDULength X pdu) :: u16)" by (simp add: n(1) ucast_of_nat_u32)
  with p q(2) assms(1) show ?thesis by (simp add: wire_law_def)
qed

text \<open>C12: when \<open>oscore_request\<close> succeeds, the device held a ready session and served exactly the client's
  request: the response it built and its LED afterwards are the ones the server specification gives
  for the request, and what the client parses is that response, byte for byte.\<close>

theorem client_request_end_to_end:
  assumes pdu: "pdu_laws (cl_coap A) M" "wire_law (cl_coap A) M (coap B) V"
    and dv: "coap_laws (coap B) V W" "parse_law (coap B) V"
    and link: "oscore_link A B addr dev" "oscore_faithful (cl_oscore A) (oscore B)" "oscore_authentic A B addr dev"
    and size: "oscore_size_laws (cl_oscore A)" "oscore_size_laws (oscore B)"
    and quiet: "quiet_oscore (cl_oscore A) dev" "quiet_clock (cl_host A) dev"
    and len: "\<And>bs. payload = Some bs \<Longrightarrow> n \<le> length bs"
    and req: "oscore_request (cl_coap A) (cl_sock A) (cl_host A) (cl_oscore A) sid s osc code uri payload n rtt =
      (0, Some rx, rtt', osc', s')"
  shows "\<exists>rsp bs. (V rsp, led_state (dev (cworld s'))) = server_spec (led_state (dev (cworld s)))
             (request_msg code (req_token s + 1) (req_mid s) uri payload n) \<and>
           rx = pdu_of_bytes (cl_coap A) bs (unat (offset rsp)) \<and>
           take (unat (offset rsp)) bs = take (unat (offset rsp)) (data rsp) \<and> oscore_ready (dev (cworld s))"
proof -
  let ?pdu = "request_pdu (cl_coap A) code (req_token s + 1) (req_mid s) uri payload n"
  from req obtain out len osc1 w1 t0 w2 r w3 m buf w4 w5 e cbuf clen where
    1: "coap2oscore (cl_oscore A) sid (getPDUPointer (cl_coap A) ?pdu) (of_nat (getPDULength (cl_coap A) ?pdu))
       OSCORE_MAX (cworld s) osc = (ok, out, len, osc1, w1)"
    and 2: "now_ms (cl_host A) w1 = (t0, w2)" and 3: "send (cl_sock A) w2 out (unat len) = (r, w3)"
    and 4: "recv (cl_sock A) w3 (MAXLINE (cl_sock A)) = (m, buf, w4)" "0 \<le> m"
    and 5: "w5 = w4 \<or> (\<exists>t. now_ms (cl_host A) w4 = (t, w5))"
    and 6: "oscore2coap (cl_oscore A) sid buf (of_int m) OSCORE_MAX w5 osc1 = (e, cbuf, clen, osc', cworld s')"
      "e \<in> {ok, first_request_after_reboot}"
    and rx: "rx = pdu_of_bytes (cl_coap A) cbuf (unat clen)"
    by (rule oscore_request_run) blast
  have w2: "dev w2 = dev (cworld s)"
    using quiet_oscore_steps(2) [OF quiet(1) 1] quiet_clock_now [OF quiet(2) 2] by simp
  have "dev w4 = dev w3" using link(1) 4(1) unfolding oscore_link_def by blast
  then have s': "dev (cworld s') = dev w3"
    using 5 quiet_clock_now [OF quiet(2)] quiet_oscore_steps(1) [OF quiet(1) 6(1)] by metis
  note auth = oscore_authenticD [OF link(3) 3 4 6]
  from conjunct1 [OF auth] obtain p where p: "data p = out" "offset p = ucast len"
    "dev w3 = snd (oscore_post B (dev w2) oscore_root_resource p addr)"
    using link(1) 1 3 unfolding oscore_link_def by metis
  obtain e2 buf2 blen oc w r2 q rsp out2 len2 oc1 v oc2 v2 where
    u: "oscore2coap (oscore B) (oscore_sender_id (dev w2)) (data p) (ucast (offset p)) OSCORE_BUF_MAX (world (dev w2))
       (oscore_ctx (dev w2)) = (e2, buf2, blen, oc, w)" "e2 \<in> {ok, first_request_after_reboot}"
      "coap_packet_parse (coap B) buf2 (ucast blen) = (r2, q)" "0 \<le> r2"
    and spec: "(V rsp, led_state (dev w3)) = server_spec (led_state (dev w2)) (V q)"
    and prot: "coap2oscore (oscore B) (oscore_sender_id (dev w2)) (data rsp) (ucast (offset rsp)) OSCORE_BUF_MAX v oc1 =
       (ok, out2, len2, oc2, v2)"
      "sent (dev w3) = sent (dev w2) @ [(oscore_packet (coap B) out2 len2, addr)]"
    and ready: "oscore_ready (dev w2)"
    by (rule oscore_post_answered [OF dv p(3) conjunct1 [OF auth]]) blast
  have "V q = M ?pdu"
    using inner_is_request [OF pdu(2) dv(2) link(2) size 1 u(1) [unfolded p(1,2)] u(2-4)] .
  then have "V q = request_msg code (req_token s + 1) (req_mid s) uri payload n"
    using request_pdu_message [OF pdu(1) len] by simp
  moreover have "clen = ucast (offset rsp) \<and> take (unat (ucast (offset rsp) :: u32)) cbuf =
      take (unat (ucast (offset rsp) :: u32)) (data rsp)"
    by (rule conjunct2 [OF auth, rule_format, OF prot(2)]) (use prot(1) in \<open>simp_all add: coap_packet.defs\<close>)
  ultimately show ?thesis
    using spec ready rx s' w2 by (intro exI [of _ rsp] exI [of _ cbuf]) (simp add: unat_ucast_u16_u32)
qed

subsection \<open>A request on the concrete device\<close>

text \<open>
  The client's world is the device and its last answer; the link gives every datagram to the OSCORE
  resource.
\<close>

definition wire_packet :: "u8 list \<Rightarrow> nat \<Rightarrow> coap_msg coap_packet_scheme" where
  "wire_packet bs n = coap_packet.extend \<lparr>data = bs, offset = of_nat n, max_len = of_nat n\<rparr> (ref_decode bs)"

definition e2e_sock :: "(ref_device \<times> u8 list option) sock_lib" where
  "e2e_sock = \<lparr>
     send = (\<lambda>w bs n. let d = fst w; d' = snd (oscore_post ref_env d oscore_root_resource (wire_packet bs n) ());
                         q = fst (last (sent d'))
                     in (int n, (d', if sent d' = sent d then None else Some (take (unat (offset q)) (data q))))),
     recv = (\<lambda>w n. case snd w of None \<Rightarrow> (-1, [], w) | Some bs \<Rightarrow> (int (length bs), bs, w)),
     MAXLINE = 1024\<rparr>"

definition e2e_host :: "(ref_device \<times> u8 list option) host" where
  "e2e_host = \<lparr>clock_gettime = (\<lambda>w. ((7, 0), w)), psa_crypto_init = (\<lambda>w. (0, w)), PSA_SUCCESS = 0,
     sock_init = (\<lambda>h w. (0, w)), set_rcvtimeo = (\<lambda>n w. w), close = id, double = id\<rparr>"

definition e2e_client ::
  "(ref_device \<times> u8 list option, coap_msg, (ref_device \<times> u8 list option) ref_ctx, nat, unit, unit) client_env" where
  "e2e_client = \<lparr>cl_coap = ref_cantcoap, cl_sock = e2e_sock, cl_host = e2e_host, cl_edhoc = ref_edhoc,
     cl_initiator = \<lparr>edhoc_message_1_compose = (\<lambda>cap w c. (-1, [], 0, c, w)),
       edhoc_message_2_process = (\<lambda>msg n w c. (-1, c, w)),
       edhoc_message_3_compose = (\<lambda>cap w c. (-1, [], 0, c, w)),
       edhoc_message_4_process = (\<lambda>msg n w c. (-1, c, w))\<rparr>,
     cl_oscore = ref_oscore, cl_creds = ref_client_h\<rparr>"

lemma e2e_client_sel [simp]:
  "cl_coap e2e_client = ref_cantcoap" "cl_sock e2e_client = e2e_sock" "cl_host e2e_client = e2e_host"
  "cl_oscore e2e_client = ref_oscore"
  by (simp_all add: e2e_client_def)

lemma ref_protect:
  "coap2oscore ref_oscore sid bs n cap w c = (ok, out, len, c', w') \<longleftrightarrow>
     n \<le> cap \<and> unat n \<le> length bs \<and> out = take (unat n) bs \<and> len = n \<and> c' = c + 1 \<and> w' = w"
  by (auto simp: ref_oscore_def)

lemma ref_unprotect:
  "oscore2coap ref_oscore sid bs n cap w c = (e, out, len, c', w') \<Longrightarrow> e \<in> {ok, first_request_after_reboot} \<Longrightarrow>
     out = take (unat n) bs \<and> len = n \<and> unat n \<le> length bs"
  by (auto simp: ref_oscore_def split: if_splits)

lemma ref_faithful: "oscore_faithful ref_oscore ref_oscore"
  unfolding oscore_faithful_def ref_protect by (auto dest!: ref_unprotect)

lemma ref_parse_law: "parse_law ref_lib ref_view"
proof -
  have "coap_packet_parse ref_lib = ref_parse" by (simp add: ref_lib_def)
  then show ?thesis by (auto simp: parse_law_def ref_parse_def uri_ok_ref)
qed

lemma e2e_link: "oscore_link e2e_client ref_env () fst"
  unfolding oscore_link_def
proof (intro conjI allI impI)
  fix sid bs n cap w0 c out len c' w0' w r w'
  assume "send (cl_sock e2e_client) w out (unat len) = (r, w')"
  moreover have "data (wire_packet out (unat len)) = out" "offset (wire_packet out (unat len)) = ucast len"
    by (simp_all add: wire_packet_def coap_packet.defs unsigned_ucast_eq)
  ultimately show "fst w' = fst w \<or> (\<exists>p. data p = out \<and> offset p = ucast len \<and>
      fst w' = snd (oscore_post ref_env (fst w) oscore_root_resource p ()))"
    by (auto simp: e2e_sock_def Let_def)
next
  fix w cap n buf w'
  assume "recv (cl_sock e2e_client) w cap = (n, buf, w')"
  then show "fst w' = fst w" by (auto simp: e2e_sock_def split: option.splits)
qed

lemma e2e_authentic: "oscore_authentic e2e_client ref_env () fst"
  unfolding oscore_authentic_def
proof (intro allI impI)
  fix w bs n r w' m buf w'' sid cap w3 c e cbuf clen c' w4
  assume s: "send (cl_sock e2e_client) w bs n = (r, w')"
    and r: "recv (cl_sock e2e_client) w' (MAXLINE (cl_sock e2e_client)) = (m, buf, w'')" and "0 \<le> m"
    and u: "oscore2coap (cl_oscore e2e_client) sid buf (of_int m) cap w3 c = (e, cbuf, clen, c', w4)"
      "e \<in> {ok, first_request_after_reboot}"
  then have a: "snd w' = Some buf" "m = int (length buf)" by (auto simp: e2e_sock_def split: option.splits)
  with s have b: "sent (fst w') \<noteq> sent (fst w)"
    "buf = take (unat (offset (fst (last (sent (fst w')))))) (data (fst (last (sent (fst w')))))"
    by (auto simp: e2e_sock_def Let_def split: if_splits)
  note v = ref_unprotect [OF u [unfolded e2e_client_sel]]
  have "clen = pn \<and> take (unat pn) cbuf = take (unat pn) pbs"
    if q: "sent (fst w') = sent (fst w) @ [(q, ())]" "offset q = ucast plen"
      "coap2oscore (oscore ref_env) sid2 pbs pn OSCORE_BUF_MAX v oc = (ok, data q, plen, oc', v')"
    for q sid2 pbs pn v oc plen oc' v'
  proof -
    have p: "pn \<le> 512" "unat pn \<le> length pbs" "data q = take (unat pn) pbs" "plen = pn"
      using q(3) by (auto simp: ref_protect OSCORE_BUF_MAX_def)
    then have "unat (offset q) = unat pn" by (simp add: q(2) unat_ucast_512)
    with b(2) q(1) p have l: "buf = take (unat pn) pbs" "length buf = unat pn" by simp_all
    then have "of_int m = pn" by (simp add: a(2))
    with v l show ?thesis by simp
  qed
  with b(1) show "sent (fst w') \<noteq> sent (fst w) \<and>
      (\<forall>q sid2 pbs pn v oc plen oc' v'. sent (fst w') = sent (fst w) @ [(q, ())] \<longrightarrow>
         coap2oscore (oscore ref_env) sid2 pbs pn OSCORE_BUF_MAX v oc = (ok, data q, plen, oc', v') \<longrightarrow>
         offset q = ucast plen \<longrightarrow> clen = pn \<and> take (unat pn) cbuf = take (unat pn) pbs)" by blast
qed

text \<open>PUT /led with payload "1", the client's first request: its datagram, and the device's answer.\<close>

definition put_on :: "u8 list" where
  "put_on = [0x44, 0x03, 0x01, 0x00, 0x01, 0x10, 0, 0, 0xb3, 0x6c, 0x65, 0x64, 0xff, 0x31]"

definition on_ack :: "coap_msg coap_packet_scheme" where
  "on_ack = snd (ref_init 256 1 COAP_TYPE_ACK 4 [0x01, 0x10, 0, 0, 0, 0, 0, 0] COAP_RESPONSE_CODE_CHANGED 256)"

lemma put_on_pdu:
  "getPDUPointer ref_cantcoap (request_pdu ref_cantcoap COAP_METHOD_PUT 0x1001 256 ''led'' (Some (bytes ''1'')) 1) = put_on"
  "getPDULength ref_cantcoap (request_pdu ref_cantcoap COAP_METHOD_PUT 0x1001 256 ''led'' (Some (bytes ''1'')) 1) = 14"
  by (simp_all add: ref_cantcoap_def request_pdu_def msg_bytes_def plain_msg_def le_bytes32_def encode_payload_def
      COAP_CONFIRMABLE_def coap_consts put_on_def Let_def)

lemma put_on_view: "ref_view (ref_request put_on) =
  \<lparr>m_type = 0, m_code = 3, m_id = 256, m_token = [0x01, 0x10, 0, 0], m_path = [''led''], m_payload = Some [0x31]\<rparr>"
  by (simp add: put_on_def ref_eval)

lemma put_on_dispatch:
  "coap_server_dispatch_inner ref_lib ref_platform s (ref_request put_on) 256 = (0, on_ack, set_led ref_platform True s)"
  by (simp add: coap_server_dispatch_inner_def ref_lib_def put_on_view ref_token_def hello_path_def
      led_path_def coap_consts build_led_put_def led_put_value_def ref_get_payload_def parse_onoff_def
      ref_init_def Let_def ref_head_def on_ack_def set_led_def)

lemma put_on_inner:
  "inner_request ref_env d (wire_packet put_on 14) = (Inr (ref_request put_on), oscore_step d (oscore_ctx d + 1) (world d))"
proof -
  have "coap_packet_parse ref_lib put_on 14 = (0, ref_request put_on)"
    by (simp add: ref_lib_def ref_request_def ref_parse_def put_on_def)
  then show ?thesis
    by (simp add: inner_request_def ref_oscore_def wire_packet_def coap_packet.defs OSCORE_BUF_MAX_def put_on_def)
qed

lemma put_on_served:
  assumes "oscore_ready d"
  obtains q where "sent (snd (oscore_post ref_env d oscore_root_resource (wire_packet put_on 14) ())) = sent d @ [(q, ())]"
    "take (unat (offset q)) (data q) = data on_ack"
proof -
  let ?q = "oscore_packet ref_lib (data on_ack) 8"
  have a: "ucast (offset on_ack) = (8 :: u32)" "length (data on_ack) = 8"
    by (simp_all add: on_ack_def ref_init_def ref_head_def)
  have "sent (snd (oscore_post ref_env d oscore_root_resource (wire_packet put_on 14) ())) = sent d @ [(?q, ())]"
    using assms a by (simp add: oscore_post_inner put_on_inner put_on_dispatch ref_oscore_def OSCORE_BUF_MAX_def
        resource_send_def split_beta set_led_def)
  moreover have "take (unat (offset ?q)) (data ?q) = data on_ack" using a by (simp add: coap_packet.defs)
  ultimately show thesis by (rule that)
qed

lemma e2e_put_on:
  assumes "oscore_ready d"
  shows "\<exists>rx osc' s'. oscore_request ref_cantcoap e2e_sock e2e_host ref_oscore [] (client_init (d, None)) 0 COAP_METHOD_PUT
     ''led'' (Some (bytes ''1'')) 1 None = (0, Some rx, None, osc', s')"
proof -
  let ?d = "snd (oscore_post ref_env d oscore_root_resource (wire_packet put_on 14) ())"
  obtain q where q: "sent ?d = sent d @ [(q, ())]" "take (unat (offset q)) (data q) = data on_ack"
    using put_on_served [OF assms] by blast
  have s: "send e2e_sock (d, None) put_on 14 = (14, (?d, Some (data on_ack)))"
    using q by (simp add: e2e_sock_def Let_def)
  have l: "length put_on = 14" "length (data on_ack) = 8"
    by (simp_all add: put_on_def on_ack_def ref_init_def ref_head_def)
  have r: "recv e2e_sock (?d, Some (data on_ack)) n = (8, data on_ack, (?d, Some (data on_ack)))" for n
    using l by (simp add: e2e_sock_def)
  have t: "now_ms e2e_host w = (7000, w)" for w by (simp add: now_ms_def e2e_host_def)
  show ?thesis
    using s r t l
    by (simp add: oscore_request_def client_init_def put_on_pdu [simplified] ref_oscore_def OSCORE_MAX_def Let_def)
      (simp add: ref_cantcoap_def)
qed

theorem client_request_end_to_end_witness:
  "\<exists>rx osc' s'. oscore_request ref_cantcoap e2e_sock e2e_host ref_oscore [] (client_init (ref_secured, None)) 0
     COAP_METHOD_PUT ''led'' (Some (bytes ''1'')) 1 None = (0, Some rx, None, osc', s') \<and>
     led_state (fst (cworld s'))"
proof -
  obtain rx osc' s' where r: "oscore_request (cl_coap e2e_client) (cl_sock e2e_client) (cl_host e2e_client)
      (cl_oscore e2e_client) [] (client_init (ref_secured, None)) 0 COAP_METHOD_PUT ''led'' (Some (bytes ''1'')) 1 None =
      (0, Some rx, None, osc', s')" using e2e_put_on [OF ref_secured_ready] by auto
  have laws: "pdu_laws (cl_coap e2e_client) id" "wire_law (cl_coap e2e_client) id (coap ref_env) ref_view"
    "coap_laws (coap ref_env) ref_view id" "parse_law (coap ref_env) ref_view"
    "oscore_faithful (cl_oscore e2e_client) (oscore ref_env)"
    "oscore_size_laws (cl_oscore e2e_client)" "oscore_size_laws (oscore ref_env)"
    "quiet_oscore (cl_oscore e2e_client) fst" "quiet_clock (cl_host e2e_client) fst"
    by (simp_all add: ref_pdu_laws ref_wire_law ref_coap_laws ref_parse_law ref_faithful ref_oscore_size_laws
        ref_quiet quiet_clock_def e2e_host_def)
  from client_request_end_to_end [OF laws(1-4) e2e_link laws(5) e2e_authentic laws(6-9) _ r] r show ?thesis
    by (auto simp: client_init_def request_msg_def server_spec_def coap_consts onoff_spec_def)
qed

end
