(* ===== verification/Usbd_Setup.thy ===== *)
theory Usbd_Setup
  imports Prelude
begin

text \<open>
  src/usbd_setup.c: the USB device context of the CDC-NCM link. The USB device stack (device_next) is
  Zephyr's; the functions the sources call are fields of a record and act on an opaque world. The
  order of the bring-up is stated over a log: \<open>boot_step\<close> names each call of the boot sequence, in
  the order the sources mean them to happen.
\<close>

subsection \<open>Descriptors and the USB device stack\<close>

datatype usbd_desc = Desc_lang | Desc_manufacturer string | Desc_product string | Desc_serial_number
datatype usbd_speed = USBD_SPEED_FS | USBD_SPEED_HS
datatype usbd_msg_type = USBD_MSG_VBUS_READY | USBD_MSG_VBUS_REMOVED | USBD_MSG_OTHER nat

record usbd_context =
  vid :: u16
  pid :: u16

record usbd_config =
  cfg_attributes :: u8
  cfg_max_power :: u8
  cfg_desc :: string

record 'w usbd_lib =
  usbd_add_descriptor :: "'w \<Rightarrow> usbd_desc \<Rightarrow> int \<times> 'w"
  usbd_add_configuration :: "'w \<Rightarrow> usbd_speed \<Rightarrow> usbd_config \<Rightarrow> int \<times> 'w"
  usbd_register_all_classes :: "'w \<Rightarrow> usbd_speed \<Rightarrow> u8 \<Rightarrow> int \<times> 'w"
  usbd_device_set_code_triple :: "'w \<Rightarrow> usbd_speed \<Rightarrow> u8 \<Rightarrow> u8 \<Rightarrow> u8 \<Rightarrow> int \<times> 'w"
  usbd_msg_register_cb :: "'w \<Rightarrow> int \<times> 'w"
  usbd_init :: "'w \<Rightarrow> int \<times> 'w"
  usbd_enable :: "'w \<Rightarrow> int \<times> 'w"
  usbd_disable :: "'w \<Rightarrow> int \<times> 'w"
  usbd_can_detect_vbus :: "'w \<Rightarrow> bool"

definition NCM_USBD_VID :: u16 where "NCM_USBD_VID = 0x2fe3"
definition NCM_USBD_PID :: u16 where "NCM_USBD_PID = 0x0001"
definition NCM_USBD_ATTRIBUTES :: u8 where "NCM_USBD_ATTRIBUTES = 0"
definition NCM_USBD_MAX_POWER :: u8 where "NCM_USBD_MAX_POWER = 125"
definition USB_BCC_MISCELLANEOUS :: u8 where "USB_BCC_MISCELLANEOUS = 0xef"

definition ncm_usbd :: usbd_context where "ncm_usbd = \<lparr>vid = NCM_USBD_VID, pid = NCM_USBD_PID\<rparr>"

definition ncm_lang :: usbd_desc where "ncm_lang = Desc_lang"
definition ncm_mfr :: usbd_desc where "ncm_mfr = Desc_manufacturer ''Centro de Inovacao EDGE''"
definition ncm_product :: usbd_desc where "ncm_product = Desc_product ''ZBook USB-NCM CoAP''"
definition ncm_sn :: usbd_desc where "ncm_sn = Desc_serial_number"

definition ncm_fs_config :: usbd_config where
  "ncm_fs_config = \<lparr>cfg_attributes = NCM_USBD_ATTRIBUTES, cfg_max_power = NCM_USBD_MAX_POWER,
                    cfg_desc = ''FS Configuration''\<rparr>"

subsection \<open>Bring-up\<close>

text \<open>The idiom \<open>err = f(); if (err) return NULL;\<close>.\<close>

definition or_null :: "int \<times> 'w \<Rightarrow> ('w \<Rightarrow> usbd_context option \<times> 'w) \<Rightarrow> usbd_context option \<times> 'w" where
  "or_null x f = (if fst x \<noteq> 0 then (None, snd x) else f (snd x))"

text \<open>\<open>hwinfo\<close> is CONFIG_HWINFO, \<open>msg_cb\<close> whether a callback is passed.\<close>

definition ncm_usbd_init :: "'w usbd_lib \<Rightarrow> bool \<Rightarrow> bool \<Rightarrow> 'w \<Rightarrow> usbd_context option \<times> 'w" where
  "ncm_usbd_init U hwinfo msg_cb w =
     or_null (usbd_add_descriptor U w ncm_lang) (\<lambda>w.
     or_null (usbd_add_descriptor U w ncm_mfr) (\<lambda>w.
     or_null (usbd_add_descriptor U w ncm_product) (\<lambda>w.
     or_null (if hwinfo then usbd_add_descriptor U w ncm_sn else (0, w)) (\<lambda>w.
     or_null (usbd_add_configuration U w USBD_SPEED_FS ncm_fs_config) (\<lambda>w.
     or_null (usbd_register_all_classes U w USBD_SPEED_FS 1) (\<lambda>w.
     let w = snd (usbd_device_set_code_triple U w USBD_SPEED_FS USB_BCC_MISCELLANEOUS 0x02 0x01) in
     or_null (if msg_cb then usbd_msg_register_cb U w else (0, w)) (\<lambda>w.
     or_null (usbd_init U w) (\<lambda>w.
     (Some ncm_usbd, w)))))))))"

subsection \<open>The steps of the boot sequence, in order\<close>

datatype boot_step = Add_lang | Add_mfr | Add_product | Add_sn | Add_config | Register_classes
  | Set_triple | Register_cb | Usbd_init | Usbd_enable | Add_address | Set_netmask | Psa_init
  | Add_psk | Add_psk_id | Start_service

fun step_rank :: "boot_step \<Rightarrow> nat" where
  "step_rank Add_lang = 0"
| "step_rank Add_mfr = 1"
| "step_rank Add_product = 2"
| "step_rank Add_sn = 3"
| "step_rank Add_config = 4"
| "step_rank Register_classes = 5"
| "step_rank Set_triple = 6"
| "step_rank Register_cb = 7"
| "step_rank Usbd_init = 8"
| "step_rank Usbd_enable = 9"
| "step_rank Add_address = 10"
| "step_rank Set_netmask = 11"
| "step_rank Psa_init = 12"
| "step_rank Add_psk = 13"
| "step_rank Add_psk_id = 14"
| "step_rank Start_service = 15"

lemma step_rank_inj: "step_rank x = step_rank y \<longleftrightarrow> x = y"
  by (cases x; cases y) auto

instantiation boot_step :: linorder
begin

definition less_eq_boot_step :: "boot_step \<Rightarrow> boot_step \<Rightarrow> bool" where
  "less_eq_boot_step x y \<longleftrightarrow> step_rank x \<le> step_rank y"

definition less_boot_step :: "boot_step \<Rightarrow> boot_step \<Rightarrow> bool" where
  "less_boot_step x y \<longleftrightarrow> step_rank x < step_rank y"

instance
  by standard (auto simp: less_eq_boot_step_def less_boot_step_def step_rank_inj)

end

type_synonym boot_log = "(boot_step \<times> int) list"

fun desc_step :: "usbd_desc \<Rightarrow> boot_step" where
  "desc_step Desc_lang = Add_lang"
| "desc_step (Desc_manufacturer s) = Add_mfr"
| "desc_step (Desc_product s) = Add_product"
| "desc_step Desc_serial_number = Add_sn"

text \<open>
  A call appends its step and its result to the log. The laws are assumed only for the arguments the
  bring-up is meant to pass.
\<close>

definition logged :: "('w \<Rightarrow> boot_log) \<Rightarrow> boot_step \<Rightarrow> ('w \<Rightarrow> int \<times> 'w) \<Rightarrow> bool" where
  "logged log st f \<longleftrightarrow> (\<forall>w. log (snd (f w)) = log w @ [(st, fst (f w))])"

definition usbd_log_laws :: "'w usbd_lib \<Rightarrow> ('w \<Rightarrow> boot_log) \<Rightarrow> bool" where
  "usbd_log_laws U log \<longleftrightarrow>
     (\<forall>d \<in> {ncm_lang, ncm_mfr, ncm_product, ncm_sn}. logged log (desc_step d) (\<lambda>w. usbd_add_descriptor U w d)) \<and>
     logged log Add_config (\<lambda>w. usbd_add_configuration U w USBD_SPEED_FS ncm_fs_config) \<and>
     logged log Register_classes (\<lambda>w. usbd_register_all_classes U w USBD_SPEED_FS 1) \<and>
     logged log Set_triple (\<lambda>w. usbd_device_set_code_triple U w USBD_SPEED_FS USB_BCC_MISCELLANEOUS 0x02 0x01) \<and>
     logged log Register_cb (usbd_msg_register_cb U) \<and> logged log Usbd_init (usbd_init U) \<and>
     logged log Usbd_enable (usbd_enable U)"

subsection \<open>Running a plan\<close>

text \<open>
  The specification of a bring-up: perform the planned steps in order; a failing critical step is the
  last one. The flag says whether the plan was completed.
\<close>

fun follows :: "(boot_step \<times> bool) list \<Rightarrow> boot_log \<Rightarrow> bool \<Rightarrow> bool" where
  "follows [] es completed \<longleftrightarrow> es = [] \<and> completed"
| "follows ((st, critical) # plan) es completed \<longleftrightarrow>
     (case es of
        [] \<Rightarrow> False
      | (st', r) # es' \<Rightarrow>
          st' = st \<and> (if critical \<and> r \<noteq> 0 then es' = [] \<and> \<not> completed else follows plan es' completed))"

definition runs :: "('w \<Rightarrow> boot_log) \<Rightarrow> (boot_step \<times> bool) list \<Rightarrow> ('w \<Rightarrow> 'r \<times> 'w) \<Rightarrow> ('r \<Rightarrow> bool) \<Rightarrow> bool" where
  "runs log plan f ok \<longleftrightarrow>
     (\<forall>w. \<exists>es. log (snd (f w)) = log w @ es \<and> follows plan es (ok (fst (f w))))"

lemma runs_null:
  assumes "logged log st f" and "runs log plan g (\<lambda>x. x \<noteq> None)"
  shows "runs log ((st, True) # plan) (\<lambda>w. or_null (f w) g) (\<lambda>x. x \<noteq> None)"
  unfolding runs_def
proof
  fix w
  obtain r w1 where f: "f w = (r, w1)" by fastforce
  then have l: "log w1 = log w @ [(st, r)]" using assms(1) by (simp add: logged_def) (metis fst_conv snd_conv)
  obtain es where "log (snd (g w1)) = log w1 @ es" "follows plan es (fst (g w1) \<noteq> None)"
    using assms(2) by (auto simp: runs_def)
  with f l show "\<exists>es. log (snd (or_null (f w) g)) = log w @ es \<and>
      follows ((st, True) # plan) es (fst (or_null (f w) g) \<noteq> None)"
    by (cases "r = 0") (auto simp: or_null_def intro!: exI [of _ "(st, r) # es"])
qed

lemma runs_optional:
  assumes "logged log st f" and "runs log plan g (\<lambda>x. x \<noteq> None)"
  shows "runs log ((if c then [(st, True)] else []) @ plan)
           (\<lambda>w. or_null (if c then f w else (0, w)) g) (\<lambda>x. x \<noteq> None)"
proof (cases c)
  case True
  with runs_null [OF assms] show ?thesis by (simp only: if_True append_Cons append_Nil)
next
  case False
  with assms(2) show ?thesis by (simp add: or_null_def)
qed

lemma runs_void:
  assumes "logged log st f" and "runs log plan g ok"
  shows "runs log ((st, False) # plan) (\<lambda>w. g (snd (f w))) ok"
  unfolding runs_def
proof
  fix w
  obtain r w1 where f: "f w = (r, w1)" by fastforce
  then have "log w1 = log w @ [(st, r)]" using assms(1) by (simp add: logged_def) (metis fst_conv snd_conv)
  moreover obtain es where "log (snd (g w1)) = log w1 @ es" "follows plan es (ok (fst (g w1)))"
    using assms(2) by (auto simp: runs_def)
  ultimately show "\<exists>es. log (snd (g (snd (f w)))) = log w @ es \<and>
      follows ((st, False) # plan) es (ok (fst (g (snd (f w)))))"
    using f by (intro exI [of _ "(st, r) # es"]) simp
qed

lemma runs_end: "ok r \<Longrightarrow> runs log [] (\<lambda>w. (r, w)) ok"
  by (simp add: runs_def)

text \<open>The plan of \<open>ncm_usbd_init\<close>.\<close>

definition usbd_plan :: "bool \<Rightarrow> bool \<Rightarrow> (boot_step \<times> bool) list" where
  "usbd_plan hwinfo msg_cb =
     [(Add_lang, True), (Add_mfr, True), (Add_product, True)] @ (if hwinfo then [(Add_sn, True)] else []) @
     [(Add_config, True), (Register_classes, True), (Set_triple, False)] @
     (if msg_cb then [(Register_cb, True)] else []) @ [(Usbd_init, True)]"

lemma usbd_init_runs:
  assumes "usbd_log_laws U log"
  shows "runs log (usbd_plan hwinfo msg_cb) (ncm_usbd_init U hwinfo msg_cb) (\<lambda>x. x \<noteq> None)"
proof -
  note l = assms [unfolded usbd_log_laws_def]
  have d: "logged log st (\<lambda>w. usbd_add_descriptor U w d)"
    if "desc_step d = st" "d \<in> {ncm_lang, ncm_mfr, ncm_product, ncm_sn}" for d st
    using l that by blast
  have "runs log [(Usbd_init, True)] (\<lambda>w. or_null (usbd_init U w) (\<lambda>w. (Some ncm_usbd, w))) (\<lambda>x. x \<noteq> None)"
    using l by (intro runs_null runs_end) auto
  then have 1: "runs log ((if msg_cb then [(Register_cb, True)] else []) @ [(Usbd_init, True)])
      (\<lambda>w. or_null (if msg_cb then usbd_msg_register_cb U w else (0, w))
        (\<lambda>w. or_null (usbd_init U w) (\<lambda>w. (Some ncm_usbd, w)))) (\<lambda>x. x \<noteq> None)"
    using l by (intro runs_optional) auto
  let ?cfg = "\<lambda>w. or_null (usbd_add_configuration U w USBD_SPEED_FS ncm_fs_config) (\<lambda>w.
     or_null (usbd_register_all_classes U w USBD_SPEED_FS 1) (\<lambda>w.
     or_null (if msg_cb
       then usbd_msg_register_cb U (snd (usbd_device_set_code_triple U w USBD_SPEED_FS USB_BCC_MISCELLANEOUS 0x02 0x01))
       else (0, snd (usbd_device_set_code_triple U w USBD_SPEED_FS USB_BCC_MISCELLANEOUS 0x02 0x01)))
        (\<lambda>w. or_null (usbd_init U w) (\<lambda>w. (Some ncm_usbd, w)))))"
  have 2: "runs log ([(Add_config, True), (Register_classes, True), (Set_triple, False)] @
      (if msg_cb then [(Register_cb, True)] else []) @ [(Usbd_init, True)]) ?cfg (\<lambda>x. x \<noteq> None)"
    unfolding append_Cons append_Nil using l by (intro runs_null runs_void [OF _ 1]) auto
  then have 3: "runs log ((if hwinfo then [(Add_sn, True)] else []) @
      [(Add_config, True), (Register_classes, True), (Set_triple, False)] @
      (if msg_cb then [(Register_cb, True)] else []) @ [(Usbd_init, True)])
      (\<lambda>w. or_null (if hwinfo then usbd_add_descriptor U w ncm_sn else (0, w)) ?cfg) (\<lambda>x. x \<noteq> None)"
    by (intro runs_optional d) (simp_all add: ncm_sn_def)
  show ?thesis
    unfolding usbd_plan_def ncm_usbd_init_def Let_def append_Cons append_Nil
    using 3 by (intro runs_null d) (simp_all add: ncm_lang_def ncm_mfr_def ncm_product_def)
qed

subsection \<open>The order of the USB bring-up\<close>

lemma follows_steps: "follows plan es completed \<Longrightarrow> fst ` set es \<subseteq> fst ` set plan"
proof (induction plan es completed rule: follows.induct)
  case (2 st critical plan es completed)
  then obtain r es' where es: "es = (st, r) # es'" by (auto split: list.splits)
  show ?case
  proof (cases "critical \<and> r \<noteq> 0")
    case True
    with 2 es show ?thesis by auto
  next
    case False
    with 2 es have "fst ` set es' \<subseteq> fst ` set plan" by auto
    with es show ?thesis by auto
  qed
qed simp

text \<open>A plan is completed exactly when no critical step failed.\<close>

lemma follows_completed:
  "follows plan es completed \<Longrightarrow> distinct (map fst plan) \<Longrightarrow>
   completed \<longleftrightarrow> (\<forall>(st, r) \<in> set es. (st, True) \<in> set plan \<longrightarrow> r = 0)"
proof (induction plan es completed rule: follows.induct)
  case (2 st critical plan es completed)
  then obtain r es' where es: "es = (st, r) # es'" by (auto split: list.splits)
  show ?case
  proof (cases "critical \<and> r \<noteq> 0")
    case True
    with 2(2) es show ?thesis by auto
  next
    case False
    with 2(2) es have f: "follows plan es' completed" by auto
    have "st \<notin> fst ` set plan" using 2(3) by simp
    then have "(st', True) \<in> set ((st, critical) # plan) \<longleftrightarrow> (st', True) \<in> set plan" if "(st', r') \<in> set es'" for st' r'
      using follows_steps [OF f] that by force
    moreover have "(st, True) \<in> set ((st, critical) # plan) \<longleftrightarrow> critical"
      using \<open>st \<notin> fst ` set plan\<close> by force
    moreover have "completed \<longleftrightarrow> (\<forall>(st, r) \<in> set es'. (st, True) \<in> set plan \<longrightarrow> r = 0)"
      using 2(1) [OF es refl False f] 2(3) by simp
    ultimately show ?thesis using es False by fastforce
  qed
qed simp

lemma usbd_plan_distinct: "distinct (map fst (usbd_plan hwinfo msg_cb))"
  by (simp add: usbd_plan_def)

lemma usbd_plan_critical: "(st, True) \<in> set (usbd_plan hwinfo msg_cb) \<longleftrightarrow>
    st \<in> fst ` set (usbd_plan hwinfo msg_cb) \<and> st \<noteq> Set_triple"
  by (cases st; cases hwinfo; cases msg_cb) (simp_all add: usbd_plan_def)

lemma ncm_usbd_init_result: "fst (ncm_usbd_init U hwinfo msg_cb w) \<in> {None, Some ncm_usbd}"
  by (simp add: ncm_usbd_init_def or_null_def Let_def)

text \<open>C30: \<open>ncm_usbd_init\<close> performs the steps of the plan in order, with the plan's arguments. A step that
  fails is the last one, except setting the code triple, whose result is ignored; the context is
  returned exactly when no step but possibly that one failed, and NULL otherwise. The serial number
  and callback steps are there exactly when configured.\<close>

theorem ncm_usbd_init_follows_plan:
  assumes "usbd_log_laws U log" and "ncm_usbd_init U hwinfo msg_cb w = (res, w')"
  shows "\<exists>es. log w' = log w @ es \<and> follows (usbd_plan hwinfo msg_cb) es (res \<noteq> None) \<and>
    res = (if \<forall>(st, r) \<in> set es. st = Set_triple \<or> r = 0 then Some ncm_usbd else None)"
proof -
  obtain es where es: "log w' = log w @ es" and f: "follows (usbd_plan hwinfo msg_cb) es (res \<noteq> None)"
    using usbd_init_runs [OF assms(1), of hwinfo msg_cb] assms(2) unfolding runs_def by (metis fst_conv snd_conv)
  have "st \<in> fst ` set (usbd_plan hwinfo msg_cb)" if "(st, r) \<in> set es" for st r
    using follows_steps [OF f] that by force
  then have "res \<noteq> None \<longleftrightarrow> (\<forall>(st, r) \<in> set es. st = Set_triple \<or> r = 0)"
    using follows_completed [OF f usbd_plan_distinct] by (auto simp: usbd_plan_critical)
  moreover have "res = None \<or> res = Some ncm_usbd"
    using ncm_usbd_init_result [of U hwinfo msg_cb w] assms(2) by simp
  ultimately have "res = (if \<forall>(st, r) \<in> set es. st = Set_triple \<or> r = 0 then Some ncm_usbd else None)"
    by (auto simp del: split_paired_All)
  with es f show ?thesis by blast
qed

text \<open>A USB stack whose world is the log and whose step \<open>bad\<close>, if any, fails.\<close>

definition ref_call :: "boot_step option \<Rightarrow> boot_step \<Rightarrow> boot_log \<Rightarrow> int \<times> boot_log" where
  "ref_call bad st w = (let r = (if bad = Some st then - EIO else 0) in (r, w @ [(st, r)]))"

definition ref_usbd :: "boot_step option \<Rightarrow> boot_log usbd_lib" where
  "ref_usbd bad = \<lparr>usbd_add_descriptor = (\<lambda>w d. ref_call bad (desc_step d) w),
     usbd_add_configuration = (\<lambda>w sp c. ref_call bad Add_config w),
     usbd_register_all_classes = (\<lambda>w sp n. ref_call bad Register_classes w),
     usbd_device_set_code_triple = (\<lambda>w sp a b c. ref_call bad Set_triple w),
     usbd_msg_register_cb = ref_call bad Register_cb, usbd_init = ref_call bad Usbd_init,
     usbd_enable = ref_call bad Usbd_enable, usbd_disable = (\<lambda>w. (0, w)),
     usbd_can_detect_vbus = (\<lambda>w. False)\<rparr>"

lemma ref_logged: "logged id st (ref_call bad st)"
  by (simp add: logged_def ref_call_def Let_def)

lemma ref_usbd_log_laws: "usbd_log_laws (ref_usbd bad) id"
  using ref_logged by (simp add: usbd_log_laws_def ref_usbd_def eta_contract_eq)

theorem ncm_usbd_init_follows_plan_witness:
  "fst (ncm_usbd_init (ref_usbd (Some Set_triple)) False True []) = Some ncm_usbd \<and>
   fst (ncm_usbd_init (ref_usbd (Some Add_config)) False True []) = None"
proof -
  have "fst (ncm_usbd_init (ref_usbd bad) False True []) =
      (if \<forall>(st, r) \<in> set (snd (ncm_usbd_init (ref_usbd bad) False True [])). st = Set_triple \<or> r = 0
       then Some ncm_usbd else None)" for bad
    using ncm_usbd_init_follows_plan [OF ref_usbd_log_laws prod.collapse [symmetric], of bad False True "[]"]
    by (auto simp del: split_paired_All)
  moreover have "(Add_config, - EIO) \<in> set (snd (ncm_usbd_init (ref_usbd (Some Add_config)) False True []))"
    by (simp add: ncm_usbd_init_def ref_usbd_def or_null_def ref_call_def ncm_lang_def ncm_mfr_def ncm_product_def
        EIO_def Let_def)
  moreover have "\<forall>(st, r) \<in> set (snd (ncm_usbd_init (ref_usbd (Some Set_triple)) False True [])). st = Set_triple \<or> r = 0"
    by (simp add: ncm_usbd_init_def ref_usbd_def or_null_def ref_call_def ncm_lang_def ncm_mfr_def ncm_product_def
        Let_def)
  moreover have "\<not> (case (Add_config, - EIO) of (st, r) \<Rightarrow> st = Set_triple \<or> r = 0)" by (simp add: EIO_def)
  ultimately show ?thesis by (metis (no_types, lifting))
qed

end
