(* ===== verification/Main_Boot.thy ===== *)
theory Main_Boot
  imports Usbd_Setup Coap_Server
begin

text \<open>
  src/main.c: the USB message callback, the static IPv4 address and \<open>main\<close>. The network stack's and
  PSA's functions are parameters. \<open>main\<close> is checked against the boot plan; the callback against a
  machine that follows VBUS.
\<close>

subsection \<open>The network stack and PSA\<close>

text \<open>
  \<open>net_if_ipv4_addr_add\<close> returns a pointer that is only compared with NULL; here whether it is not
  NULL.
\<close>

datatype net_addr_type = NET_ADDR_ANY | NET_ADDR_AUTOCONF | NET_ADDR_DHCP | NET_ADDR_MANUAL | NET_ADDR_OVERRIDABLE

record ('w, 'i) net_lib =
  net_if_get_default :: "'w \<Rightarrow> 'i option"
  net_addr_pton :: "string \<Rightarrow> int \<times> u8 list"
  net_if_ipv4_addr_add :: "'w \<Rightarrow> 'i \<Rightarrow> u8 list \<Rightarrow> net_addr_type \<Rightarrow> u32 \<Rightarrow> bool \<times> 'w"
  net_if_ipv4_set_netmask_by_addr :: "'w \<Rightarrow> 'i \<Rightarrow> u8 list \<Rightarrow> u8 list \<Rightarrow> bool \<times> 'w"
  psa_crypto_init :: "'w \<Rightarrow> int \<times> 'w"

definition BOARD_IPV4_ADDR :: string where "BOARD_IPV4_ADDR = ''192.0.2.1''"
definition BOARD_IPV4_NETMASK :: string where "BOARD_IPV4_NETMASK = ''255.255.255.0''"

subsection \<open>The functions of main.c\<close>

definition usbd_msg_cb :: "'w usbd_lib \<Rightarrow> 'w \<Rightarrow> usbd_msg_type \<Rightarrow> 'w" where
  "usbd_msg_cb U w msg =
     (if \<not> usbd_can_detect_vbus U w then w
      else if msg = USBD_MSG_VBUS_READY then snd (usbd_enable U w)
      else if msg = USBD_MSG_VBUS_REMOVED then snd (usbd_disable U w)
      else w)"

definition assign_static_ipv4 :: "('w, 'i) net_lib \<Rightarrow> 'w \<Rightarrow> int \<times> 'w" where
  "assign_static_ipv4 N w =
     (case net_if_get_default N w of
        None \<Rightarrow> (- ENODEV, w)
      | Some iface \<Rightarrow>
          let (r1, addr) = net_addr_pton N BOARD_IPV4_ADDR;
              (r2, netmask) = net_addr_pton N BOARD_IPV4_NETMASK
          in if r1 < 0 \<or> r2 < 0 then (- EINVAL, w)
             else let (added, w) = net_if_ipv4_addr_add N w iface addr NET_ADDR_MANUAL 0
                  in if \<not> added then (- EADDRNOTAVAIL, w)
                     else (0, snd (net_if_ipv4_set_netmask_by_addr N w iface addr netmask)))"

text \<open>\<open>libedhoc\<close> is CONFIG_LIBEDHOC_ENABLE, \<open>dtls\<close> CONFIG_NET_SOCKETS_ENABLE_DTLS.\<close>

definition main ::
  "'w usbd_lib \<Rightarrow> ('w, 'i) net_lib \<Rightarrow> ('w, 'm, 'a) platform \<Rightarrow> bool \<Rightarrow> bool \<Rightarrow> bool \<Rightarrow> 'w \<Rightarrow> int \<times> 'w" where
  "main U N P hwinfo libedhoc dtls w =
     (case ncm_usbd_init U hwinfo True w of
        (None, w) \<Rightarrow> (0, w)
      | (Some ctx, w) \<Rightarrow>
          let (err, w) = (if \<not> usbd_can_detect_vbus U w then usbd_enable U w else (0, w))
          in if err \<noteq> 0 then (0, w)
             else let w = snd (assign_static_ipv4 N w);
                      w = (if libedhoc then snd (psa_crypto_init N w) else w);
                      w = snd (coap_server_start dtls P w)
                  in (0, w))"

subsection \<open>VBUS\<close>

text \<open>
  What the stack documents: an enable or disable that returns 0 took effect; whether the controller
  detects VBUS does not change. Nothing is assumed of a call that fails.
\<close>

definition enable_laws :: "'w usbd_lib \<Rightarrow> ('w \<Rightarrow> bool) \<Rightarrow> bool" where
  "enable_laws U enabled \<longleftrightarrow>
     (\<forall>w. (fst (usbd_enable U w) = 0 \<longrightarrow> enabled (snd (usbd_enable U w))) \<and>
          (fst (usbd_disable U w) = 0 \<longrightarrow> \<not> enabled (snd (usbd_disable U w))) \<and>
          usbd_can_detect_vbus U (snd (usbd_enable U w)) = usbd_can_detect_vbus U w \<and>
          usbd_can_detect_vbus U (snd (usbd_disable U w)) = usbd_can_detect_vbus U w)"

text \<open>
  The specification keeps what is known of the device, \<open>None\<close> when the last VBUS message could not be
  followed. Its events are the messages, each with the result of the call it asks for.
\<close>

fun vbus_next :: "bool option \<Rightarrow> usbd_msg_type \<times> int \<Rightarrow> bool option" where
  "vbus_next known (USBD_MSG_VBUS_READY, r) = (if r = 0 then Some True else None)"
| "vbus_next known (USBD_MSG_VBUS_REMOVED, r) = (if r = 0 then Some False else None)"
| "vbus_next known (USBD_MSG_OTHER k, r) = known"

fun vbus_event :: "'w usbd_lib \<Rightarrow> 'w \<Rightarrow> usbd_msg_type \<Rightarrow> usbd_msg_type \<times> int" where
  "vbus_event U w USBD_MSG_VBUS_READY = (USBD_MSG_VBUS_READY, fst (usbd_enable U w))"
| "vbus_event U w USBD_MSG_VBUS_REMOVED = (USBD_MSG_VBUS_REMOVED, fst (usbd_disable U w))"
| "vbus_event U w (USBD_MSG_OTHER k) = (USBD_MSG_OTHER k, 0)"

interpretation vbus: simulation_step "usbd_msg_cb U" vbus_next
  "\<lambda>w known. enable_laws U enabled \<and> usbd_can_detect_vbus U w \<and> (\<forall>e. known = Some e \<longrightarrow> enabled w = e)"
  "vbus_event U" for U enabled
proof (unfold_locales, goal_cases)
  case (1 w known m)
  then show ?case by (cases m) (auto simp: usbd_msg_cb_def enable_laws_def split: if_splits)
qed

text \<open>A controller that cannot detect VBUS is left alone.\<close>

interpretation no_vbus: invariant_step "usbd_msg_cb U" "\<lambda>w. \<not> usbd_can_detect_vbus U w \<and> w = w0" for U w0
  by unfold_locales (simp add: usbd_msg_cb_def)

text \<open>C31: on a controller that detects VBUS, after any sequence of USB messages the device is enabled when
  the last VBUS message said ready and disabled when it said removed (and as before if there was
  none), provided the call made for that message succeeded, whatever became of the calls before. On
  a controller without VBUS detection the callback does nothing.\<close>

theorem usb_follows_vbus:
  assumes "enable_laws U enabled"
  shows "if usbd_can_detect_vbus U w
         then \<forall>e. run vbus_next (Some (enabled w)) (trace (usbd_msg_cb U) (vbus_event U) w msgs) = Some e \<longrightarrow>
                enabled (run (usbd_msg_cb U) w msgs) = e
         else run (usbd_msg_cb U) w msgs = w"
  using vbus.run_simulates [of U enabled w "Some (enabled w)" msgs] no_vbus.run_inv [of U w w msgs] assms
  by simp

text \<open>A stack that refuses to enable an enabled device and to disable a disabled one.\<close>

definition ref_vbus :: "bool usbd_lib" where
  "ref_vbus = \<lparr>usbd_add_descriptor = (\<lambda>w d. (0, w)), usbd_add_configuration = (\<lambda>w sp c. (0, w)),
     usbd_register_all_classes = (\<lambda>w sp n. (0, w)), usbd_device_set_code_triple = (\<lambda>w sp a b c. (0, w)),
     usbd_msg_register_cb = (\<lambda>w. (0, w)), usbd_init = (\<lambda>w. (0, w)),
     usbd_enable = (\<lambda>w. (if w then - EIO else 0, True)),
     usbd_disable = (\<lambda>w. (if w then 0 else - EIO, False)), usbd_can_detect_vbus = (\<lambda>w. True)\<rparr>"

theorem usb_follows_vbus_witness:
  "\<not> run (usbd_msg_cb ref_vbus) False
     [USBD_MSG_VBUS_READY, USBD_MSG_VBUS_READY, USBD_MSG_OTHER 3, USBD_MSG_VBUS_REMOVED, USBD_MSG_OTHER 4]"
  using usb_follows_vbus [of ref_vbus id False
      "[USBD_MSG_VBUS_READY, USBD_MSG_VBUS_READY, USBD_MSG_OTHER 3, USBD_MSG_VBUS_REMOVED, USBD_MSG_OTHER 4]"]
  by (simp add: enable_laws_def ref_vbus_def usbd_msg_cb_def EIO_def)

subsection \<open>The boot log\<close>

text \<open>
  The calls that \<open>main\<close> makes after the USB part, logged for the arguments it is meant to pass: the
  board's address and netmask, the pre-shared key and its identity.
\<close>

definition board_addr :: "('w, 'i) net_lib \<Rightarrow> u8 list" where
  "board_addr N = snd (net_addr_pton N ''192.0.2.1'')"

definition board_netmask :: "('w, 'i) net_lib \<Rightarrow> u8 list" where
  "board_netmask N = snd (net_addr_pton N ''255.255.255.0'')"

definition net_log_laws :: "('w, 'i) net_lib \<Rightarrow> ('w \<Rightarrow> boot_log) \<Rightarrow> bool" where
  "net_log_laws N log \<longleftrightarrow>
     (\<forall>i. logged log Add_address (\<lambda>w. map_prod (\<lambda>added. if added then 0 else - EADDRNOTAVAIL) id
        (net_if_ipv4_addr_add N w i (board_addr N) NET_ADDR_MANUAL 0))) \<and>
     (\<forall>i. logged log Set_netmask
        (\<lambda>w. map_prod of_bool id (net_if_ipv4_set_netmask_by_addr N w i (board_addr N) (board_netmask N)))) \<and>
     logged log Psa_init (psa_crypto_init N)"

definition server_log_laws :: "('w, 'm, 'a) platform \<Rightarrow> ('w \<Rightarrow> boot_log) \<Rightarrow> bool" where
  "server_log_laws P log \<longleftrightarrow>
     logged log Add_psk (\<lambda>w. tls_credential_add P w 1 TLS_CREDENTIAL_PSK (bytes ''zbook-dtls-psk!!'')) \<and>
     logged log Add_psk_id (\<lambda>w. tls_credential_add P w 1 TLS_CREDENTIAL_PSK_ID (bytes ''zbook'')) \<and>
     logged log Start_service (coap_service_start P)"

definition address_plan :: "(boot_step \<times> bool) list" where
  "address_plan = [(Add_address, True), (Set_netmask, False)]"

definition server_plan :: "(boot_step \<times> bool) list" where
  "server_plan = [(Add_psk, True), (Add_psk_id, True), (Start_service, True)]"

lemma loggedD: "logged log st f \<Longrightarrow> f w = (r, w') \<Longrightarrow> log w' = log w @ [(st, r)]"
  unfolding logged_def by (metis fst_conv snd_conv)

lemma runs_last: "logged log st f \<Longrightarrow> runs log [(st, True)] f (\<lambda>r. r = 0)"
  unfolding runs_def logged_def by (auto intro!: exI)

lemma runs_next:
  assumes "logged log st f" and "runs log plan g (\<lambda>r. r = 0)"
  shows "runs log ((st, True) # plan) (\<lambda>w. let (e, w) = f w in if e \<noteq> 0 then (e, w) else g w) (\<lambda>r. r = 0)"
  unfolding runs_def
proof
  fix w
  obtain r w1 where f: "f w = (r, w1)" by fastforce
  note l = loggedD [OF assms(1) f]
  obtain es where "log (snd (g w1)) = log w1 @ es" "follows plan es (fst (g w1) = 0)"
    using assms(2) by (auto simp: runs_def)
  with f l show "\<exists>es. log (snd (let (e, w) = f w in if e \<noteq> 0 then (e, w) else g w)) = log w @ es \<and>
      follows ((st, True) # plan) es (fst (let (e, w) = f w in if e \<noteq> 0 then (e, w) else g w) = 0)"
    by (cases "r = 0") (auto intro!: exI [of _ "(st, r) # es"])
qed

lemma server_runs:
  assumes "server_log_laws P log"
  shows "runs log server_plan (coap_server_start True P) (\<lambda>r. r = 0)"
proof -
  have "coap_server_start True P = (\<lambda>w.
      let (e, w) = tls_credential_add P w PSK_TAG TLS_CREDENTIAL_PSK psk_key in if e \<noteq> 0 then (e, w) else
      let (e, w) = tls_credential_add P w PSK_TAG TLS_CREDENTIAL_PSK_ID (take (length psk_id - 1) psk_id) in
      if e \<noteq> 0 then (e, w) else coap_service_start P w)"
    by (simp add: coap_server_start_def fun_eq_iff)
  then show ?thesis
    unfolding server_plan_def using assms
    by (simp only:) (intro runs_next runs_last; simp add: server_log_laws_def PSK_TAG_def psk_key_def psk_id_def)
qed

text \<open>There is a default interface, and the two constants parse as addresses.\<close>

definition addressable :: "('w, 'i) net_lib \<Rightarrow> 'w \<Rightarrow> bool" where
  "addressable N w \<longleftrightarrow> net_if_get_default N w \<noteq> None \<and> 0 \<le> fst (net_addr_pton N ''192.0.2.1'') \<and>
     0 \<le> fst (net_addr_pton N ''255.255.255.0'')"

lemma assign_unaddressable: "\<not> addressable N w \<Longrightarrow> snd (assign_static_ipv4 N w) = w"
  by (auto simp: assign_static_ipv4_def addressable_def BOARD_IPV4_ADDR_def BOARD_IPV4_NETMASK_def split_beta
      split: option.splits)

lemma assign_addressable:
  assumes "net_log_laws N log" and "addressable N w"
  shows "\<exists>es b. log (snd (assign_static_ipv4 N w)) = log w @ es \<and> follows address_plan es b"
proof -
  obtain i where i: "net_if_get_default N w = Some i" using assms(2) by (auto simp: addressable_def)
  obtain b w1 where a: "net_if_ipv4_addr_add N w i (board_addr N) NET_ADDR_MANUAL 0 = (b, w1)" by fastforce
  have la: "logged log Add_address (\<lambda>w. map_prod (\<lambda>added. if added then 0 else - EADDRNOTAVAIL) id
      (net_if_ipv4_addr_add N w i (board_addr N) NET_ADDR_MANUAL 0))"
    and lm: "logged log Set_netmask
      (\<lambda>w. map_prod of_bool id (net_if_ipv4_set_netmask_by_addr N w i (board_addr N) (board_netmask N)))"
    using assms(1) by (simp_all add: net_log_laws_def)
  have "log w1 = log w @ [(Add_address, if b then 0 else - EADDRNOTAVAIL)]"
    using loggedD [OF la, of w] a by simp
  moreover obtain c w2 where m: "net_if_ipv4_set_netmask_by_addr N w1 i (board_addr N) (board_netmask N) = (c, w2)"
    by fastforce
  moreover have "log w2 = log w1 @ [(Set_netmask, of_bool c)]"
    using loggedD [OF lm, of w1] m by simp
  moreover have "snd (assign_static_ipv4 N w) = (if b then w2 else w1)"
    using assms(2) i a m by (auto simp: assign_static_ipv4_def addressable_def board_addr_def board_netmask_def
        BOARD_IPV4_ADDR_def BOARD_IPV4_NETMASK_def split_beta)
  ultimately show ?thesis
    by (cases b) (auto simp: address_plan_def EADDRNOTAVAIL_def)
qed

lemma address_runs:
  assumes "net_log_laws N log"
  shows "\<exists>es. log (snd (assign_static_ipv4 N w)) = log w @ es \<and>
    (if addressable N w then \<exists>b. follows address_plan es b else es = [])"
  using assign_addressable [OF assms, of w] assign_unaddressable [of N w] by (cases "addressable N w") auto

lemma follows_append:
  "follows p es True \<Longrightarrow> follows q fs b \<Longrightarrow> follows (p @ q) (es @ fs) b"
  by (induction p es True rule: follows.induct) (auto split: list.splits if_splits)

lemma follows_stop: "follows p es False \<Longrightarrow> follows (p @ q) es False"
  by (induction p es False rule: follows.induct) (auto split: list.splits if_splits)

lemma follows_prefix: "follows p es b \<Longrightarrow> prefix (map fst es) (map fst p)"
  by (induction p es b rule: follows.induct) (auto split: list.splits if_splits)

lemma follows_ok: "follows p es True \<Longrightarrow> map fst es = map fst p \<and> (\<forall>st. (st, True) \<in> set p \<longrightarrow> (st, 0) \<in> set es)"
  by (induction p es True rule: follows.induct) (auto split: list.splits if_splits)

subsection \<open>The order of the boot\<close>

text \<open>
  The specification of \<open>main\<close>: the USB plan (with enabling, when the controller cannot detect VBUS) is
  decisive; then the address (if there is an interface to give it to), PSA and the server (as the
  build has them) are attempted one after the other, each whatever became of the one before.
\<close>

definition usb_plan :: "bool \<Rightarrow> bool \<Rightarrow> (boot_step \<times> bool) list" where
  "usb_plan hwinfo vbus = usbd_plan hwinfo True @ (if vbus then [] else [(Usbd_enable, True)])"

definition after_spec :: "bool \<Rightarrow> bool \<Rightarrow> bool \<Rightarrow> boot_log \<Rightarrow> boot_log \<Rightarrow> boot_log \<Rightarrow> bool" where
  "after_spec iface libedhoc dtls addr psa srv \<longleftrightarrow>
     (if iface then \<exists>b. follows address_plan addr b else addr = []) \<and>
     map fst psa = (if libedhoc then [Psa_init] else []) \<and>
     (if dtls then \<exists>b. follows server_plan srv b else srv = [])"

definition boot_spec :: "bool \<Rightarrow> bool \<Rightarrow> bool \<Rightarrow> bool \<Rightarrow> bool \<Rightarrow> boot_log \<Rightarrow> bool" where
  "boot_spec hwinfo vbus iface libedhoc dtls es \<longleftrightarrow>
     follows (usb_plan hwinfo vbus) es False \<or>
     (\<exists>usb addr psa srv. es = usb @ addr @ psa @ srv \<and> follows (usb_plan hwinfo vbus) usb True \<and>
        after_spec iface libedhoc dtls addr psa srv)"

text \<open>The world after the USB part of \<open>main\<close>.\<close>

definition usb_world :: "'w usbd_lib \<Rightarrow> bool \<Rightarrow> 'w \<Rightarrow> 'w" where
  "usb_world U hwinfo w =
     (let w = snd (ncm_usbd_init U hwinfo True w)
      in if usbd_can_detect_vbus U w then w else snd (usbd_enable U w))"

text \<open>What \<open>main\<close> does once USB is up.\<close>

definition after_usb ::
  "('w, 'i) net_lib \<Rightarrow> ('w, 'm, 'a) platform \<Rightarrow> bool \<Rightarrow> bool \<Rightarrow> 'w \<Rightarrow> 'w" where
  "after_usb N P libedhoc dtls w =
     (let w = snd (assign_static_ipv4 N w);
          w = (if libedhoc then snd (psa_crypto_init N w) else w)
      in snd (coap_server_start dtls P w))"

lemma server_start_log:
  assumes "server_log_laws P log"
  shows "\<exists>srv. log (snd (coap_server_start dtls P w)) = log w @ srv \<and>
    (if dtls then \<exists>b. follows server_plan srv b else srv = [])"
proof (cases dtls)
  case True
  with server_runs [OF assms] show ?thesis unfolding runs_def by (simp only: if_True) blast
next
  case False
  then show ?thesis by (simp add: coap_server_start_def)
qed

lemma after_usb_log:
  assumes "net_log_laws N log" and "server_log_laws P log"
  shows "\<exists>addr psa srv. log (after_usb N P libedhoc dtls w) = log w @ addr @ psa @ srv \<and>
    after_spec (addressable N w) libedhoc dtls addr psa srv"
proof -
  define w1 where "w1 = snd (assign_static_ipv4 N w)"
  define w2 where "w2 = (if libedhoc then snd (psa_crypto_init N w1) else w1)"
  obtain addr where a: "log w1 = log w @ addr"
    "if addressable N w then \<exists>b. follows address_plan addr b else addr = []"
    using address_runs [OF assms(1), of w] unfolding w1_def by blast
  obtain psa where p: "log w2 = log w1 @ psa" "map fst psa = (if libedhoc then [Psa_init] else [])"
    using assms(1) by (cases libedhoc) (auto simp: w2_def net_log_laws_def logged_def)
  obtain srv where "log (snd (coap_server_start dtls P w2)) = log w2 @ srv"
    "if dtls then \<exists>b. follows server_plan srv b else srv = []"
    using server_start_log [OF assms(2)] by blast
  moreover have "after_usb N P libedhoc dtls w = snd (coap_server_start dtls P w2)"
    by (simp add: after_usb_def w1_def w2_def Let_def)
  ultimately show ?thesis
    using a p by (intro exI [of _ addr] exI [of _ psa] exI [of _ srv]) (simp add: after_spec_def)
qed

lemma main_log:
  assumes "usbd_log_laws U log" and "net_log_laws N log" and "server_log_laws P log"
    and vbus: "\<And>w. usbd_can_detect_vbus U w = vbus"
  shows "\<exists>es. log (snd (main U N P hwinfo libedhoc dtls w)) = log w @ es \<and>
    boot_spec hwinfo vbus (addressable N (usb_world U hwinfo w)) libedhoc dtls es"
proof -
  obtain res w1 where i: "ncm_usbd_init U hwinfo True w = (res, w1)" by fastforce
  obtain u1 where u1: "log w1 = log w @ u1" "follows (usbd_plan hwinfo True) u1 (res \<noteq> None)"
    using usbd_init_runs [OF assms(1), of hwinfo True] i unfolding runs_def by (metis fst_conv snd_conv)
  define w2 err where "w2 = (if vbus then w1 else snd (usbd_enable U w1))"
    and "err = (if vbus then 0 else fst (usbd_enable U w1))"
  define u2 where "u2 = (if vbus then [] else [(Usbd_enable, err)])"
  have l2: "log w2 = log w1 @ u2"
    using assms(1) by (auto simp: w2_def u2_def err_def usbd_log_laws_def logged_def)
  have u: "usb_world U hwinfo w = w2" using i by (simp add: usb_world_def vbus w2_def)
  have m: "snd (main U N P hwinfo libedhoc dtls w) =
      (if res = None then w1 else if err \<noteq> 0 then w2 else after_usb N P libedhoc dtls w2)"
    using i by (auto simp: main_def vbus after_usb_def w2_def err_def Let_def split: option.splits prod.splits)
  consider "res = None" | "res \<noteq> None" "err \<noteq> 0" | "res \<noteq> None" "err = 0" by blast
  then show ?thesis
  proof cases
    case 1
    with u1 m show ?thesis by (auto simp: boot_spec_def usb_plan_def intro: follows_stop)
  next
    case 2
    then have "\<not> vbus" by (auto simp: err_def)
    with 2 u1 l2 m follows_append [of "usbd_plan hwinfo True" u1 "[(Usbd_enable, True)]" u2 False]
    show ?thesis by (auto simp: boot_spec_def usb_plan_def u2_def)
  next
    case 3
    have "follows (usb_plan hwinfo vbus) (u1 @ u2) True"
      using 3 u1 by (auto simp: usb_plan_def u2_def intro: follows_append)
    with after_usb_log [OF assms(2,3), of libedhoc dtls w2] 3 u1 l2 m show ?thesis
      unfolding boot_spec_def u by (metis append.assoc)
  qed
qed

lemma sorted_wrt_subseq: "subseq xs ys \<Longrightarrow> sorted_wrt P ys \<Longrightarrow> sorted_wrt P xs"
proof (induction xs ys rule: list_emb.induct)
  case (list_emb_Cons2 x y xs ys)
  then show ?case using list_emb_set [of "(=)" xs ys] by auto
qed simp_all

definition full_plan :: "bool \<Rightarrow> bool \<Rightarrow> boot_step list" where
  "full_plan hwinfo vbus = map fst (usb_plan hwinfo vbus @ address_plan @ [(Psa_init, False)] @ server_plan)"

lemma full_plan_sorted: "sorted_wrt (<) (full_plan hwinfo vbus)"
  by (simp add: full_plan_def usb_plan_def usbd_plan_def address_plan_def server_plan_def less_boot_step_def)

lemma boot_spec_subseq:
  assumes "boot_spec hwinfo vbus iface libedhoc dtls es"
  shows "subseq (map fst es) (full_plan hwinfo vbus)"
  using assms unfolding boot_spec_def
proof (elim disjE exE conjE)
  assume "follows (usb_plan hwinfo vbus) es False"
  then show ?thesis
    using follows_prefix by (fastforce simp: full_plan_def intro: subseq_rev_drop_many)
next
  fix usb addr psa srv
  assume es: "es = usb @ addr @ psa @ srv" and u: "follows (usb_plan hwinfo vbus) usb True"
    and "after_spec iface libedhoc dtls addr psa srv"
  then have a: "addr = [] \<or> (\<exists>b. follows address_plan addr b)"
    and p: "map fst psa = (if libedhoc then [Psa_init] else [])"
    and v: "if dtls then \<exists>b. follows server_plan srv b else srv = []"
    by (simp_all add: after_spec_def split: if_splits)
  have "subseq (map fst usb) (map fst (usb_plan hwinfo vbus))" using follows_prefix [OF u] by blast
  moreover have "subseq (map fst addr) (map fst address_plan)" using a follows_prefix by fastforce
  moreover have "subseq (map fst psa) [Psa_init]" using p by (simp split: if_splits)
  moreover have "subseq (map fst srv) (map fst server_plan)" using v follows_prefix by (fastforce split: if_splits)
  ultimately show ?thesis
    unfolding es full_plan_def by (simp only: map_append list.map fst_conv) (intro list_emb_append_mono)
qed

lemma follows_Start:
  "follows server_plan es b \<Longrightarrow> Start_service \<in> fst ` set es \<Longrightarrow> (Add_psk, 0) \<in> set es \<and> (Add_psk_id, 0) \<in> set es"
  by (auto simp: server_plan_def split: list.splits if_splits)

text \<open>C29: for every build and whatever the calls return, \<open>main\<close> boots as specified: it stops for good at
  the first USB step that fails (the code triple's result is ignored), and otherwise attempts the
  address, PSA and the server one after the other, skipping only the rest of a group in which a step
  failed. The address is given to the interface exactly when, after the USB part, there is a default
  interface and the two constants parse; PSA and the server's steps are there exactly as built.\<close>

theorem main_follows_boot_spec:
  assumes "usbd_log_laws U log" and "net_log_laws N log" and "server_log_laws P log"
    and "\<And>w. usbd_can_detect_vbus U w = vbus"
  shows "\<exists>es. log (snd (main U N P hwinfo libedhoc dtls w)) = log w @ es \<and>
    boot_spec hwinfo vbus (addressable N (usb_world U hwinfo w)) libedhoc dtls es"
  using assms by (rule main_log)

text \<open>A network stack and a server platform whose world is the log.\<close>

definition ref_net :: "(boot_log, unit) net_lib" where
  "ref_net = \<lparr>net_if_get_default = (\<lambda>w. Some ()), net_addr_pton = (\<lambda>str. (0, [192, 0, 2, 1])),
     net_if_ipv4_addr_add = (\<lambda>w i a ty life. (True, w @ [(Add_address, 0)])),
     net_if_ipv4_set_netmask_by_addr = (\<lambda>w i a m. (True, w @ [(Set_netmask, 1)])),
     psa_crypto_init = ref_call None Psa_init\<rparr>"

definition ref_server :: "(boot_log, unit, unit) platform" where
  "ref_server = \<lparr>gpio_is_ready_dt = (\<lambda>w. True), gpio_pin_configure_dt = (\<lambda>w f. (0, w)),
     gpio_pin_set_dt = (\<lambda>w v. (0, w)), coap_resource_send = (\<lambda>w res p a. (0, w)),
     tls_credential_add = (\<lambda>w tag ty bs. ref_call None (case ty of TLS_CREDENTIAL_PSK \<Rightarrow> Add_psk
        | TLS_CREDENTIAL_PSK_ID \<Rightarrow> Add_psk_id) w),
     coap_service_start = ref_call None Start_service\<rparr>"

lemma ref_net_log_laws: "net_log_laws ref_net id"
  by (simp add: net_log_laws_def ref_net_def logged_def ref_call_def Let_def)

lemma ref_server_log_laws: "server_log_laws ref_server id"
  by (simp add: server_log_laws_def ref_server_def logged_def ref_call_def Let_def)

lemma ref_usbd_vbus: "usbd_can_detect_vbus (ref_usbd bad) w = False"
  by (simp add: ref_usbd_def)

lemma ref_addressable: "addressable ref_net w"
  by (simp add: addressable_def ref_net_def)

theorem main_follows_boot_spec_witness:
  "\<exists>es. snd (main (ref_usbd None) ref_net ref_server False True False []) = es \<and>
     boot_spec False False True True False es \<and> (Add_address, 0) \<in> set es \<and> (Psa_init, 0) \<in> set es"
proof -
  let ?es = "snd (main (ref_usbd None) ref_net ref_server False True False [])"
  have "(Add_address, 0) \<in> set ?es \<and> (Psa_init, 0) \<in> set ?es"
    by (simp add: main_def ncm_usbd_init_def or_null_def ref_usbd_def ref_call_def assign_static_ipv4_def
        ref_net_def coap_server_start_def ncm_lang_def ncm_mfr_def ncm_product_def Let_def)
  with main_follows_boot_spec [OF ref_usbd_log_laws ref_net_log_laws ref_server_log_laws ref_usbd_vbus,
      of None False True False "[]"] show ?thesis by (simp add: ref_addressable)
qed

text \<open>C28: the boot steps happen in strictly increasing order, none twice; and the CoAPS service is started
  only after the USB device has been initialised and both parts of the pre-shared key have been
  registered successfully.\<close>

theorem main_order_safe:
  assumes "usbd_log_laws U log" and "net_log_laws N log" and "server_log_laws P log"
    and "\<And>w. usbd_can_detect_vbus U w = vbus"
  shows "\<exists>es. log (snd (main U N P hwinfo libedhoc dtls w)) = log w @ es \<and>
    sorted_wrt (<) (map fst es) \<and>
    (Start_service \<in> fst ` set es \<longrightarrow>
       (Usbd_init, 0) \<in> set es \<and> (Add_psk, 0) \<in> set es \<and> (Add_psk_id, 0) \<in> set es)"
proof -
  obtain es iface where es: "log (snd (main U N P hwinfo libedhoc dtls w)) = log w @ es"
    and b: "boot_spec hwinfo vbus iface libedhoc dtls es"
    using main_log [OF assms] by blast
  have "sorted_wrt (<) (map fst es)"
    using boot_spec_subseq [OF b] full_plan_sorted by (rule sorted_wrt_subseq)
  moreover have "(Usbd_init, 0) \<in> set es \<and> (Add_psk, 0) \<in> set es \<and> (Add_psk_id, 0) \<in> set es"
    if "Start_service \<in> fst ` set es"
  proof -
    have no_start: "Start_service \<notin> fst ` set u" if "follows p u c" "p = usb_plan hwinfo vbus \<or> p = address_plan"
      for p u c
      using follows_prefix [OF that(1)] that(2) set_mono_prefix [OF follows_prefix [OF that(1)]]
      by (auto simp: usb_plan_def usbd_plan_def address_plan_def split: if_splits)
    from b \<open>Start_service \<in> fst ` set es\<close> obtain usb addr psa srv where
      e: "es = usb @ addr @ psa @ srv" and u: "follows (usb_plan hwinfo vbus) usb True"
      and "after_spec iface libedhoc dtls addr psa srv"
      unfolding boot_spec_def using no_start by blast
    then have a: "addr = [] \<or> (\<exists>b. follows address_plan addr b)"
      and p: "map fst psa = (if libedhoc then [Psa_init] else [])"
      and v: "if dtls then \<exists>b. follows server_plan srv b else srv = []"
      by (simp_all add: after_spec_def split: if_splits)
    have "Start_service \<notin> set (map fst psa)" using p by simp
    moreover have "Start_service \<notin> fst ` set addr" using a no_start [of address_plan addr] by auto
    ultimately have "Start_service \<in> fst ` set srv"
      using \<open>Start_service \<in> fst ` set es\<close> e no_start [OF u] by auto
    with v follows_Start follows_ok [OF u] e show ?thesis
      by (auto simp: usb_plan_def usbd_plan_def split: if_splits)
  qed
  ultimately show ?thesis using es by blast
qed

theorem main_order_safe_witness:
  "\<exists>es. snd (main (ref_usbd None) ref_net ref_server True True True []) = es \<and>
     Start_service \<in> fst ` set es \<and> sorted_wrt (<) (map fst es) \<and> (Add_psk_id, 0) \<in> set es"
proof -
  let ?es = "snd (main (ref_usbd None) ref_net ref_server True True True [])"
  have "Start_service \<in> fst ` set ?es"
    by (simp add: main_def ncm_usbd_init_def or_null_def ref_usbd_def ref_call_def assign_static_ipv4_def
        ref_net_def coap_server_start_def ref_server_def ncm_lang_def ncm_mfr_def ncm_product_def ncm_sn_def
        Let_def)
  with main_order_safe [OF ref_usbd_log_laws ref_net_log_laws ref_server_log_laws ref_usbd_vbus,
      of None True True True "[]"] show ?thesis by auto
qed

end
