(* ===== verification/Python_Lib.thy ===== *)
theory Python_Lib
  imports Prelude
begin

text \<open>
  What the Python tools of scripts/ use of the language and its standard library: exceptions as
  values, text as code points with its UTF-8 encoding, \<open>bytearray\<close> and \<open>struct\<close> range checks,
  \<open>str.split\<close>, \<open>bytes.find\<close>, two-digit formatting and \<open>round\<close>.
\<close>

subsection \<open>Exceptions\<close>

text \<open>\<open>OSError\<close> covers its subclasses (timeouts, refused connections); the last two are the texts of \<open>SystemExit\<close>.\<close>

datatype pyexn =
    ValueError
  | StructError
  | UnicodeEncodeError
  | KeyError
  | OSError string
  | OtherError string
  | Connect_failed string int int "pyexn option"
  | No_response string int pyexn

fun is_oserror :: "pyexn \<Rightarrow> bool" where
  "is_oserror (OSError m) = True"
| "is_oserror _ = False"

text \<open>Evaluate, and go on unless an exception was raised.\<close>

definition and_then :: "'e + 'a \<Rightarrow> ('a \<Rightarrow> 'e + 'b) \<Rightarrow> 'e + 'b" where
  "and_then x f = (case x of Inl e \<Rightarrow> Inl e | Inr a \<Rightarrow> f a)"

lemma and_then_simps [simp]: "and_then (Inl e) f = Inl e" "and_then (Inr a) f = f a"
  by (simp_all add: and_then_def)

lemma and_then_Inr: "and_then x f = Inr b \<longleftrightarrow> (\<exists>a. x = Inr a \<and> f a = Inr b)"
  by (simp add: and_then_def split: sum.splits)

subsection \<open>Text\<close>

type_synonym pystr = "nat list"

text \<open>The code points of a literal.\<close>

definition str :: "string \<Rightarrow> pystr" where
  "str s = map of_char s"

text \<open>\<open>str.encode()\<close>: UTF-8; a surrogate cannot be encoded.\<close>

definition utf8_char :: "nat \<Rightarrow> u8 list option" where
  "utf8_char c =
     (if c < 0x80 then Some [of_nat c]
      else if c < 0x800 then Some [of_nat (0xc0 + c div 64), of_nat (0x80 + c mod 64)]
      else if 0xd800 \<le> c \<and> c \<le> 0xdfff then None
      else if c < 0x10000
      then Some [of_nat (0xe0 + c div 4096), of_nat (0x80 + c div 64 mod 64), of_nat (0x80 + c mod 64)]
      else if c < 0x110000
      then Some [of_nat (0xf0 + c div 262144), of_nat (0x80 + c div 4096 mod 64),
                 of_nat (0x80 + c div 64 mod 64), of_nat (0x80 + c mod 64)]
      else None)"

fun utf8 :: "pystr \<Rightarrow> u8 list option" where
  "utf8 [] = Some []"
| "utf8 (c # cs) =
     (case (utf8_char c, utf8 cs) of (Some x, Some y) \<Rightarrow> Some (x @ y) | _ \<Rightarrow> None)"

text \<open>\<open>s.split(sep)\<close> for a separator of one character.\<close>

fun split :: "'a \<Rightarrow> 'a list \<Rightarrow> 'a list list" where
  "split sep [] = [[]]"
| "split sep (x # xs) =
     (if x = sep then [] # split sep xs
      else (case split sep xs of [] \<Rightarrow> [[x]] | seg # segs \<Rightarrow> (x # seg) # segs))"

lemma split_not_Nil [simp]: "split sep xs \<noteq> []"
  by (cases xs) (auto split: list.splits)

lemma split_no_sep: "sep \<notin> set xs \<Longrightarrow> split sep xs = [xs]"
  by (induction xs) auto

lemma str_simps [simp]: "str [] = []" "str (c # s) = of_char c # str s"
  by (simp_all add: str_def)

lemma utf8_ascii: "(\<forall>c \<in> set s. of_char c < (0x80 :: nat)) \<Longrightarrow> utf8 (str s) = Some (bytes s)"
  by (induction s) (simp_all add: utf8_char_def)

text \<open>The encoding of a code point is never empty, so only the empty text encodes to no bytes.\<close>

lemma utf8_char_nonempty: "utf8_char c = Some bs \<Longrightarrow> bs \<noteq> []"
  by (auto simp: utf8_char_def split: if_splits)

lemma utf8_nonempty: "utf8 s = Some bs \<Longrightarrow> s \<noteq> [] \<Longrightarrow> bs \<noteq> []"
  by (cases s) (auto dest: utf8_char_nonempty split: option.splits)

subsection \<open>Bytes\<close>

text \<open>A byte of a \<open>bytearray\<close> or of \<open>append\<close>, and \<open>struct.pack("!H", v)\<close>.\<close>

definition py_byte :: "int \<Rightarrow> pyexn + u8" where
  "py_byte v = (if 0 \<le> v \<and> v < 256 then Inr (of_int v) else Inl ValueError)"

definition pack_H :: "int \<Rightarrow> pyexn + u8 list" where
  "pack_H v = (if 0 \<le> v \<and> v < 65536 then Inr [of_int (v div 256), of_int (v mod 256)] else Inl StructError)"

text \<open>\<open>struct.unpack("!H", bs)[0]\<close> and \<open>int.from_bytes(bs, "big")\<close> on two bytes.\<close>

definition unpack_H :: "u8 list \<Rightarrow> int" where
  "unpack_H bs = 256 * uint (bs ! 0) + uint (bs ! 1)"

text \<open>\<open>bs.find(bytes([x]), start)\<close>; \<open>None\<close> is -1.\<close>

fun index_of :: "'a \<Rightarrow> 'a list \<Rightarrow> nat option" where
  "index_of x [] = None"
| "index_of x (y # ys) = (if y = x then Some 0 else map_option Suc (index_of x ys))"

definition find_from :: "'a \<Rightarrow> nat \<Rightarrow> 'a list \<Rightarrow> nat option" where
  "find_from x start bs = map_option (\<lambda>i. start + i) (index_of x (drop start bs))"

lemma uint_of_int_u8: "0 \<le> v \<Longrightarrow> v < 256 \<Longrightarrow> uint (of_int v :: u8) = v"
  by (simp add: unsigned_of_int take_bit_eq_mod)

lemma unat_of_int_u8: "0 \<le> v \<Longrightarrow> v < 256 \<Longrightarrow> unat (of_int v :: u8) = nat v"
  by (simp add: uint_of_int_u8 flip: nat_uint_eq)

lemma unpack_pack: "pack_H v = Inr bs \<Longrightarrow> length bs = 2 \<and> unpack_H bs = v"
  by (auto simp: pack_H_def unpack_H_def uint_of_int_u8 split: if_splits)

lemma pack_H_ok: "0 \<le> v \<Longrightarrow> v < 65536 \<Longrightarrow> pack_H v = Inr [of_int (v div 256), of_int (v mod 256)]"
  by (simp add: pack_H_def)

lemma pack_H_error: "pack_H v = Inl e \<longleftrightarrow> e = StructError \<and> \<not> (0 \<le> v \<and> v < 65536)"
  by (auto simp: pack_H_def)

lemma py_byte_error: "py_byte v = Inl e \<longleftrightarrow> e = ValueError \<and> \<not> (0 \<le> v \<and> v < 256)"
  by (auto simp: py_byte_def)

text \<open>\<open>(hi << 4) | lo\<close> with a low nibble.\<close>

lemma nibbles: "0 \<le> lo \<Longrightarrow> lo < 16 \<Longrightarrow> push_bit 4 hi OR lo = 16 * hi + (lo :: int)"
proof -
  assume "0 \<le> lo" "lo < 16"
  then have l: "lo = take_bit 4 lo" by (simp add: take_bit_eq_mod)
  have "push_bit 4 hi + take_bit 4 lo = push_bit 4 hi OR take_bit 4 lo"
    by (rule disjunctive_add) (auto simp: bit_simps)
  with l show ?thesis by (simp add: push_bit_eq_mult)
qed

subsection \<open>Numbers\<close>

definition digit :: "nat \<Rightarrow> char" where
  "digit n = char_of (48 + n)"

text \<open>\<open>f"{n:02d}"\<close> for \<open>n < 100\<close>.\<close>

definition fmt_02d :: "nat \<Rightarrow> string" where
  "fmt_02d n = [digit (n div 10), digit (n mod 10)]"

end
