(* ===== verification/Coap_Wire.thy ===== *)
theory Coap_Wire
  imports Coap_Server
begin

text \<open>
  The datagram format of CoAP (RFC 7252, section 3) as a reference decoder, with the extended option
  deltas and lengths, and the law that ties Zephyr's CoAP library to it: the library parses a
  well-formed datagram to the message it carries, and lays out the packets it builds that way.
\<close>

subsection \<open>Decoding\<close>

text \<open>A delta or length nibble with its extension bytes: the value and the rest of the bytes.\<close>

fun extended :: "nat \<Rightarrow> u8 list \<Rightarrow> (nat \<times> u8 list) option" where
  "extended n bs =
     (if n < 13 then Some (n, bs)
      else if n = 13 then (case bs of b # bs \<Rightarrow> Some (13 + unat b, bs) | _ \<Rightarrow> None)
      else if n = 14 then (case bs of a # b # bs \<Rightarrow> Some (269 + 256 * unat a + unat b, bs) | _ \<Rightarrow> None)
      else None)"

declare extended.simps [simp del]

lemma extended_small [simp]: "n < 13 \<Longrightarrow> extended n bs = Some (n, bs)"
  by (simp add: extended.simps)

lemma extended_length: "extended n bs = Some (k, bs') \<Longrightarrow> length bs' \<le> length bs"
  by (auto simp: extended.simps split: if_splits list.splits)

text \<open>
  The options from number \<open>d\<close> on, and the payload. A payload marker with nothing behind it is a
  format error. \<open>fuel\<close> bounds the number of options; each takes at least one byte.
\<close>

type_synonym coap_options = "(nat \<times> u8 list) list"

fun rfc_options :: "nat \<Rightarrow> nat \<Rightarrow> u8 list \<Rightarrow> (coap_options \<times> u8 list option) option" where
  "rfc_options fuel d [] = Some ([], None)"
| "rfc_options 0 d (b # bs) = None"
| "rfc_options (Suc fuel) d (b # bs) =
     (if b = 0xff then (if bs = [] then None else Some ([], Some bs))
      else
        case extended (unat b div 16) bs of
          None \<Rightarrow> None
        | Some (delta, bs) \<Rightarrow>
            (case extended (unat b mod 16) bs of
               None \<Rightarrow> None
             | Some (n, bs) \<Rightarrow>
                 if length bs < n then None
                 else map_option (\<lambda>(os, pl). ((d + delta, take n bs) # os, pl))
                        (rfc_options fuel (d + delta) (drop n bs))))"

definition chars :: "u8 list \<Rightarrow> string" where
  "chars bs = map (\<lambda>x. char_of (unat x)) bs"

definition uri_path_of :: "coap_options \<Rightarrow> string list" where
  "uri_path_of os = map (chars \<circ> snd) (filter (\<lambda>opt. fst opt = 11) os)"

text \<open>A datagram's message and all its options; \<open>None\<close> is a message format error.\<close>

definition rfc_decode :: "u8 list \<Rightarrow> (coap_msg \<times> coap_options) option" where
  "rfc_decode bs =
     (if length bs < 4 then None
      else
        let b = unat (bs ! 0); tkl = b mod 16
        in if b div 64 \<noteq> 1 \<or> 8 < tkl \<or> length bs < 4 + tkl then None
           else map_option (\<lambda>(os, pl).
                  (\<lparr>m_type = of_nat (b div 16 mod 4), m_code = bs ! 1,
                    m_id = of_nat (256 * unat (bs ! 2) + unat (bs ! 3)),
                    m_token = take tkl (drop 4 bs), m_path = uri_path_of os, m_payload = pl\<rparr>, os))
                (rfc_options (length bs) 0 (drop (4 + tkl) bs)))"

lemma chars_bytes [simp]: "chars (bytes s) = s"
  by (induction s) (simp_all add: chars_def unat_of_nat)

text \<open>A datagram without options: what follows the token is nothing, or the marker and the payload.\<close>

lemma rfc_options_none:
  assumes "rfc_options fuel d bs = Some ([], pl)"
  shows "bs = [] \<and> pl = None \<or> (\<exists>q. q \<noteq> [] \<and> bs = 0xff # q \<and> pl = Some q)"
  using assms
  by (cases "(fuel, d, bs)" rule: rfc_options.cases) (auto split: if_splits option.splits prod.splits)

lemma rfc_options_marker [simp]: "0 < f \<Longrightarrow> q \<noteq> [] \<Longrightarrow> rfc_options f d (0xff # q) = Some ([], Some q)"
  by (cases f) simp_all

lemma rfc_options_payload: "rfc_options f d bs = Some (os, Some q) \<Longrightarrow> length q \<le> length bs"
proof (induction f d bs arbitrary: os rule: rfc_options.induct)
  case (3 fuel d b bs)
  show ?case
  proof (cases "b = 0xff")
    case True
    with 3(2) show ?thesis by (auto split: if_splits)
  next
    case False
    with 3(2) obtain delta bs1 n bs2 os' where e: "extended (unat b div 16) bs = Some (delta, bs1)"
      "extended (unat b mod 16) bs1 = Some (n, bs2)" "\<not> length bs2 < n"
      "rfc_options fuel (d + delta) (drop n bs2) = Some (os', Some q)"
      by (auto split: option.splits prod.splits if_splits)
    have "length q \<le> length (drop n bs2)" by (rule 3(1) [OF False e(1) refl e(2) refl e(3,4)])
    with extended_length [OF e(1)] extended_length [OF e(2)] show ?thesis by simp
  qed
qed simp_all

lemma rfc_decode_fields:
  assumes "rfc_decode bs = Some (m, os)"
  obtains pl where "4 \<le> length bs" "unat (bs ! 0) div 64 = 1" "unat (bs ! 0) mod 16 \<le> 8"
    "4 + unat (bs ! 0) mod 16 \<le> length bs"
    "rfc_options (length bs) 0 (drop (4 + unat (bs ! 0) mod 16) bs) = Some (os, pl)"
    "m = \<lparr>m_type = of_nat (unat (bs ! 0) div 16 mod 4), m_code = bs ! 1,
          m_id = of_nat (256 * unat (bs ! 2) + unat (bs ! 3)),
          m_token = take (unat (bs ! 0) mod 16) (drop 4 bs), m_path = uri_path_of os, m_payload = pl\<rparr>"
  using assms by (auto simp: rfc_decode_def Let_def split: if_splits prod.splits)

subsection \<open>The library's side\<close>

text \<open>The bytes of a packet that go on the wire.\<close>

definition wire :: "'m coap_packet_scheme \<Rightarrow> u8 list" where
  "wire p = take (unat (offset p)) (data p)"

definition parse_rfc_law :: "('m, 'o) coap_lib \<Rightarrow> ('m coap_packet_scheme \<Rightarrow> coap_msg) \<Rightarrow> bool" where
  "parse_rfc_law C V \<longleftrightarrow>
     (\<forall>bs m os r p. rfc_decode bs = Some (m, os) \<longrightarrow> length bs < 65536 \<longrightarrow>
        coap_packet_parse C bs (of_nat (length bs)) = (r, p) \<longrightarrow> 0 \<le> r \<longrightarrow> V p = m \<and> uri_ok C p)"

text \<open>A packet built from a header, and possibly a payload of at least one byte, carries its message and no options.\<close>

definition layout_law :: "('m, 'o) coap_lib \<Rightarrow> ('m coap_packet_scheme \<Rightarrow> coap_msg) \<Rightarrow> bool" where
  "layout_law C V \<longleftrightarrow>
     (\<forall>cap tkl tok code mid r p. token_ok tkl tok \<longrightarrow>
        coap_packet_init C cap COAP_VERSION_1 COAP_TYPE_ACK tkl tok code mid = (r, p) \<longrightarrow> 0 \<le> r \<longrightarrow>
        rfc_decode (wire p) = Some (V p, [])) \<and>
     (\<forall>code body n tkl tok mid r p. token_ok tkl tok \<longrightarrow> body \<noteq> [] \<longrightarrow> length body < 65536 \<longrightarrow>
        build_body C code body n tkl tok mid = (r, p) \<longrightarrow> 0 \<le> r \<longrightarrow>
        rfc_decode (wire p) = Some (V p, []))"

text \<open>Every response of the dispatcher is laid out as the message it stands for, without options.\<close>

lemma dispatch_wire:
  assumes "coap_laws C V W" and "layout_law C V"
    and d: "coap_server_dispatch_inner C P s req n = (r, p, s')" and "0 \<le> r"
  shows "rfc_decode (wire p) = Some (V p, [])"
proof -
  obtain tkl tok where tok: "coap_header_get_token C req = (tkl, tok)" by fastforce
  then have tk: "token_ok tkl tok"
    using coap_laws_token [OF assms(1) tok] by (simp add: token_ok_def)
  note i = assms(2) [unfolded layout_law_def, THEN conjunct1, rule_format, OF tk _ assms(4)]
  note b = assms(2) [unfolded layout_law_def, THEN conjunct2, rule_format, OF tk _ _ _ assms(4)]
  from assms(1) tok d show ?thesis
  proof (cases rule: dispatch_builder)
    case hello
    then show ?thesis
      by (intro b [of hello_payload]) (auto simp: build_hello_body hello_payload_def split: prod.splits)
  next
    case get
    then show ?thesis
      by (intro b [of "led_text (led_state s)"])
        (auto simp: build_led_get_body led_text_def split: prod.splits)
  next
    case put
    from build_led_putD [OF this] show ?thesis by (auto split: if_splits intro: i)
  next
    case none
    with i show ?thesis by (auto split: prod.splits)
  qed
qed

subsection \<open>The concrete library\<close>

definition rfc_parse :: "u8 list \<Rightarrow> u16 \<Rightarrow> int \<times> coap_msg coap_packet_scheme" where
  "rfc_parse bs n =
     (case rfc_decode (take (unat n) bs) of
        None \<Rightarrow> (- EINVAL, ref_request (replicate 4 0))
      | Some (m, os) \<Rightarrow> (0, \<lparr>data = take (unat n) bs, offset = n, max_len = n, \<dots> = m\<rparr>))"

definition rfc_lib :: "(coap_msg, string) coap_lib" where
  "rfc_lib = ref_lib\<lparr>coap_packet_parse := rfc_parse\<rparr>"

lemma rfc_lib_sel [simp]:
  "coap_packet_init rfc_lib = ref_init" "coap_packet_append_payload_marker rfc_lib = ref_marker"
  "coap_packet_append_payload rfc_lib = ref_append" "coap_packet_parse rfc_lib = rfc_parse"
  "coap_packet_get_payload rfc_lib = ref_get_payload" "coap_header_get_token rfc_lib = ref_token"
  by (simp_all add: rfc_lib_def ref_lib_def)

lemma rfc_coap_laws: "coap_laws rfc_lib ref_view id"
  using ref_coap_laws
  by (simp add: coap_laws_def law_init_def law_append_def law_header_def law_payload_def law_path_def rfc_lib_def
      cong: option.case_cong)

lemma rfc_space_laws: "space_laws rfc_lib"
  using ref_space_laws by (simp add: space_laws_def rfc_lib_def)

lemma rfc_uri_ok: "uri_ok rfc_lib p"
  using uri_ok_ref [of p] by (simp add: uri_ok_def rfc_lib_def)

lemma rfc_parse_rfc_law: "parse_rfc_law rfc_lib ref_view"
  unfolding parse_rfc_law_def
proof (intro allI impI conjI)
  fix bs m os r p
  assume d: "rfc_decode bs = Some (m, os)" and n: "length bs < 65536"
    and p: "coap_packet_parse rfc_lib bs (of_nat (length bs)) = (r, p)"
  from p d n have more: "coap_packet.more p = m" by (auto simp: rfc_parse_def unat_of_nat_u16)
  obtain pl where pl: "rfc_options (length bs) 0 (drop (4 + unat (bs ! 0) mod 16) bs) = Some (os, pl)"
    and m: "m_token m = take (unat (bs ! 0) mod 16) (drop 4 bs)" "m_payload m = pl"
    and t: "unat (bs ! 0) mod 16 \<le> 8"
    using d by (rule rfc_decode_fields) simp
  have "pl = Some q \<Longrightarrow> length q \<le> 65535" for q
    using rfc_options_payload [of "length bs" 0 _ os q] pl n by fastforce
  with more m t show "ref_view p = m" by (cases pl) (auto simp: ref_view_def)
  show "uri_ok rfc_lib p" by (rule rfc_uri_ok)
qed

lemma head_byte:
  assumes "unat tkl \<le> 8"
  shows "unat (push_bit 6 COAP_VERSION_1 OR push_bit 4 COAP_TYPE_ACK OR tkl :: u8) = 96 + unat tkl"
proof -
  have "unat tkl \<in> set [0, 1, 2, 3, 4, 5, 6, 7, 8]" using assms by auto
  moreover have "list_all (\<lambda>k. unat (push_bit 6 COAP_VERSION_1 OR push_bit 4 COAP_TYPE_ACK OR of_nat k :: u8) = 96 + k) [0, 1, 2, 3, 4, 5, 6, 7, 8]"
    by (simp add: coap_consts)
  ultimately have "unat (push_bit 6 COAP_VERSION_1 OR push_bit 4 COAP_TYPE_ACK OR of_nat (unat tkl) :: u8) = 96 + unat tkl"
    unfolding list_all_iff by blast
  then show ?thesis by simp
qed

lemma head_fields_nat:
  assumes "k \<le> 8"
  shows "(96 + k) mod 16 = k" "(96 + k) div 64 = (1 :: nat)" "(96 + k) div 16 mod 4 = 2"
proof -
  have "k \<in> set [0, 1, 2, 3, 4, 5, 6, 7, 8]" using assms by auto
  moreover have "list_all (\<lambda>k. (96 + k) mod 16 = k \<and> (96 + k) div 64 = (1 :: nat) \<and> (96 + k) div 16 mod 4 = 2) [0, 1, 2, 3, 4, 5, 6, 7, 8]"
    by simp
  ultimately show "(96 + k) mod 16 = k" "(96 + k) div 64 = 1" "(96 + k) div 16 mod 4 = 2"
    unfolding list_all_iff by blast+
qed

lemma be16_unat: "of_nat (256 * unat (ucast (drop_bit 8 i) :: u8) + unat (ucast i :: u8)) = (i :: u16)"
proof -
  have "unat (ucast (drop_bit 8 i) :: u8) = unat i div 256"
    using unat_u16_lt [of i]
    by (simp add: unsigned_ucast_eq unsigned_drop_bit_eq take_bit_eq_mod drop_bit_eq_div unat_div)
  moreover have "unat (ucast i :: u8) = unat i mod 256"
    by (simp add: unsigned_ucast_eq take_bit_eq_mod)
  ultimately show ?thesis by (simp del: of_nat_add of_nat_mult)
qed

lemma rfc_decode_head:
  assumes "token_ok tkl tok" and "rest = [] \<and> pl = None \<or> (\<exists>q. q \<noteq> [] \<and> rest = 0xff # q \<and> pl = Some q)"
  shows "rfc_decode (ref_head COAP_VERSION_1 COAP_TYPE_ACK tkl tok code mid @ rest) =
    Some (\<lparr>m_type = COAP_TYPE_ACK, m_code = code, m_id = mid, m_token = take (unat tkl) tok, m_path = [],
           m_payload = pl\<rparr>, [])"
proof -
  let ?h = "ref_head COAP_VERSION_1 COAP_TYPE_ACK tkl tok code mid"
  have t: "unat tkl \<le> 8" "unat tkl \<le> length tok" using assms(1) by (simp_all add: token_ok_def COAP_TOKEN_MAX_LEN_def)
  have h: "?h = [push_bit 6 COAP_VERSION_1 OR push_bit 4 COAP_TYPE_ACK OR tkl, code, ucast (drop_bit 8 mid), ucast mid] @
      take (unat tkl) tok" using t by (simp add: ref_head_def)
  have b: "unat ((?h @ rest) ! 0) = 96 + unat tkl" using head_byte [OF t(1)] by (simp add: h)
  note m = head_fields_nat [OF t(1)]
  have r: "drop (4 + unat tkl) (?h @ rest) = rest" "take (unat tkl) (drop 4 (?h @ rest)) = take (unat tkl) tok"
    "length (?h @ rest) = Suc (3 + unat tkl + length rest)"
    using t by (simp_all add: h eval_nat_numeral)
  have i: "(?h @ rest) ! 1 = code" "(?h @ rest) ! 2 = ucast (drop_bit 8 mid)" "(?h @ rest) ! 3 = ucast mid"
    by (simp_all add: h)
  have "rfc_options (length (?h @ rest)) 0 rest = Some ([], pl)" using assms(2) by auto
  then show ?thesis
    unfolding rfc_decode_def Let_def b m r(1,2) i using t be16_unat [of mid] r(3)
    by (simp add: uri_path_of_def) (simp add: COAP_TYPE_ACK_def)
qed

lemma rfc_layout_law: "layout_law rfc_lib ref_view"
  unfolding layout_law_def
proof (intro conjI allI impI)
  fix cap tkl tok code mid r and p :: "coap_msg coap_packet_scheme"
  assume tk: "token_ok tkl tok"
    and i: "coap_packet_init rfc_lib cap COAP_VERSION_1 COAP_TYPE_ACK tkl tok code mid = (r, p)" and "0 \<le> r"
  have t: "unat tkl \<le> COAP_TOKEN_MAX_LEN" "unat tkl \<le> length tok" using tk by (simp_all add: token_ok_def)
  have "unat (of_nat (4 + unat tkl) :: u16) = 4 + unat tkl"
    using t by (intro unat_of_nat_u16) (simp add: COAP_TOKEN_MAX_LEN_def)
  with i t have "wire p = ref_head COAP_VERSION_1 COAP_TYPE_ACK tkl tok code mid @ []"
    by (auto simp: wire_def ref_init_def Let_def length_ref_head split: if_splits)
  with rfc_decode_head [OF tk, of "[]" None code mid] coap_laws_init [OF rfc_coap_laws i \<open>0 \<le> r\<close> t]
  show "rfc_decode (wire p) = Some (ref_view p, [])" by simp
next
  fix code and body :: "u8 list" and n tkl tok mid r and p :: "coap_msg coap_packet_scheme"
  assume tk: "token_ok tkl tok" and body: "body \<noteq> []" "length body < 65536"
    and b: "build_body rfc_lib code body n tkl tok mid = (r, p)" and "0 \<le> r"
  let ?h = "ref_head COAP_VERSION_1 COAP_TYPE_ACK tkl tok code mid" and ?k = "of_nat (length body) :: u16"
  have t: "unat tkl \<le> COAP_TOKEN_MAX_LEN" using tk by (simp add: token_ok_def)
  have k: "unat ?k = length body" using body(2) by (rule unat_of_nat_u16)
  obtain r1 p1 r2 p2 where 1: "ref_init n COAP_VERSION_1 COAP_TYPE_ACK tkl tok code mid = (r1, p1)"
    and 2: "ref_marker p1 = (r2, p2)" by fastforce
  with b \<open>0 \<le> r\<close> have ok: "0 \<le> r1" "0 \<le> r2" and 3: "ref_append p2 body ?k = (r, p)"
    by (auto simp: build_part_def chk_def split: if_splits)
  have "data p = ?h @ (0xff # body)"
    using 1 2 3 ok \<open>0 \<le> r\<close> k
    by (auto simp: ref_init_def ref_marker_def ref_append_def Let_def EINVAL_def split: if_splits)
  moreover have "unat (offset p) = length (?h @ (0xff # body))"
    using ref_init_space [OF t 1] ref_marker_space [OF 2] ref_append_space [OF 3] ok \<open>0 \<le> r\<close> k
    by (simp add: length_ref_head [OF t])
  ultimately have "wire p = ?h @ (0xff # body)" by (simp add: wire_def)
  moreover have "rfc_decode (?h @ (0xff # body)) = Some (ref_view p, [])"
    using rfc_decode_head [OF tk, of "0xff # body" "Some body" code mid] body(1)
      build_body_view [OF rfc_coap_laws tk body(2) b \<open>0 \<le> r\<close>] by simp
  ultimately show "rfc_decode (wire p) = Some (ref_view p, [])" by simp
qed

end
