(* ===== verification/Coap_Request.thy ===== *)
theory Coap_Request
  imports Python_Lib Coap_Wire
begin

text \<open>
  \<open>build_request\<close> of scripts/coap_latency.py, the request builder both Python tools use, against the
  reference decoder of \<open>Coap_Wire\<close>: what it builds decodes to the request it was asked for, where it
  stays within the short form of options, and what becomes of the requests that do not.
\<close>

subsection \<open>build_request\<close>

definition COAP_VER :: int where "COAP_VER = 1"
definition TYPE_CON :: int where "TYPE_CON = 0"
definition TYPE_NON :: int where "TYPE_NON = 1"
definition CODE_GET :: int where "CODE_GET = 1"
definition CODE_PUT :: int where "CODE_PUT = 3"

text \<open>The loop over \<open>uri_path.split("/")\<close>: \<open>out\<close> so far and the number \<open>lst\<close> of the last option.\<close>

fun path_options :: "int \<Rightarrow> u8 list \<Rightarrow> pystr list \<Rightarrow> pyexn + u8 list" where
  "path_options lst out [] = Inr out"
| "path_options lst out (seg # segs) =
     (if seg = [] then path_options lst out segs
      else case utf8 seg of
             None \<Rightarrow> Inl UnicodeEncodeError
           | Some b \<Rightarrow> and_then (py_byte (push_bit 4 (11 - lst) OR int (length b)))
                        (\<lambda>h. path_options 11 (out @ [h] @ b) segs))"

definition build_request ::
  "int \<Rightarrow> pystr \<Rightarrow> int \<Rightarrow> int \<Rightarrow> u8 list \<Rightarrow> u8 list option \<Rightarrow> pyexn + u8 list" where
  "build_request code uri_path mtype mid token payload =
     (let tkl = int (length token) in
      and_then (py_byte (push_bit 6 COAP_VER OR push_bit 4 mtype OR tkl)) (\<lambda>b0.
      and_then (py_byte code) (\<lambda>b1.
      and_then (pack_H mid) (\<lambda>m.
      and_then (path_options 0 ([b0, b1] @ m @ token) (split (of_char CHR ''/'') uri_path)) (\<lambda>out.
      Inr (case payload of None \<Rightarrow> out | Some p \<Rightarrow> out @ [0xff] @ p))))))"

text \<open>
  The Uri-Path a request is meant to have: the UTF-8 bytes of the non-empty segments, as the device's
  library reads them. \<open>short_path\<close>: they can be encoded, and each fits the four-bit length.
\<close>

definition path_segments :: "pystr \<Rightarrow> pystr list" where
  "path_segments uri_path = filter (\<lambda>seg. seg \<noteq> []) (split (of_char CHR ''/'') uri_path)"

definition short_path :: "pystr \<Rightarrow> bool" where
  "short_path uri_path \<longleftrightarrow> (\<forall>seg \<in> set (path_segments uri_path). \<exists>b. utf8 seg = Some b \<and> length b < 13)"

definition path_text :: "pystr \<Rightarrow> string list" where
  "path_text uri_path = map (\<lambda>seg. chars (the (utf8 seg))) (path_segments uri_path)"

text \<open>The option bytes for a list of encoded segments, after an option of number \<open>d\<close>.\<close>

fun encode_segments :: "nat \<Rightarrow> u8 list list \<Rightarrow> u8 list" where
  "encode_segments d [] = []"
| "encode_segments d (b # bs) = of_nat (16 * (11 - d) + length b) # b @ encode_segments 11 bs"

lemma path_options_encode:
  assumes "d = 0 \<or> d = 11"
    and "\<forall>seg \<in> set segs. seg \<noteq> [] \<longrightarrow> (\<exists>b. utf8 seg = Some b \<and> length b < 13)"
  shows "path_options (int d) out segs =
    Inr (out @ encode_segments d (map (the \<circ> utf8) (filter (\<lambda>seg. seg \<noteq> []) segs)))"
  using assms
proof (induction segs arbitrary: d out)
  case (Cons seg segs)
  show ?case
  proof (cases "seg = []")
    case False
    with Cons.prems obtain b where b: "utf8 seg = Some b" "length b < 13" by auto
    let ?v = "push_bit 4 (11 - int d) OR int (length b)"
    have v: "?v = int (16 * (11 - d) + length b)" using Cons.prems(1) b(2) by (auto simp: nibbles)
    then have "py_byte ?v = Inr (of_nat (16 * (11 - d) + length b))"
      using Cons.prems(1) b(2) unfolding v py_byte_def by auto
    with False b Cons.IH [of 11] Cons.prems(2) show ?thesis by simp
  qed (use Cons in simp)
qed simp

lemma option_header:
  assumes "d = 0 \<or> d = 11" and "n < 13"
  shows "unat (of_nat (16 * (11 - d) + n) :: u8) = 16 * (11 - d) + n" "(of_nat (16 * (11 - d) + n) :: u8) \<noteq> 0xff"
proof -
  show u: "unat (of_nat (16 * (11 - d) + n) :: u8) = 16 * (11 - d) + n"
    using assms unfolding unat_of_nat by auto
  have "unat (of_nat (16 * (11 - d) + n) :: u8) \<noteq> unat (0xff :: u8)" unfolding u using assms by auto
  then show "(of_nat (16 * (11 - d) + n) :: u8) \<noteq> 0xff" by metis
qed

text \<open>The option bytes decode to one Uri-Path option per segment, then the rest follows.\<close>

lemma rfc_options_encode:
  assumes "d = 0 \<or> d = 11" and "\<forall>b \<in> set bs. length b < 13" and "length bs \<le> fuel"
  shows "rfc_options fuel d (encode_segments d bs @ rest) =
    map_option (\<lambda>(os, pl). (map (Pair 11) bs @ os, pl))
      (rfc_options (fuel - length bs) (if bs = [] then d else 11) rest)"
  using assms
proof (induction bs arbitrary: d fuel)
  case (Cons b bs)
  obtain f where f: "fuel = Suc f" "length bs \<le> f" using Cons.prems(3) by (cases fuel) auto
  have b: "length b < 13" using Cons.prems(2) by simp
  note h = option_header [OF Cons.prems(1) b]
  have n: "(16 * (11 - d) + length b) div 16 = 11 - d" "(16 * (11 - d) + length b) mod 16 = length b"
    using b by simp_all
  have d: "11 - d < 13" "d + (11 - d) = 11" using Cons.prems(1) by auto
  have "rfc_options f 11 (encode_segments 11 bs @ rest) =
    map_option (\<lambda>(os, pl). (map (Pair 11) bs @ os, pl)) (rfc_options (f - length bs) 11 rest)"
    using Cons.IH [of 11 f] Cons.prems(2) f(2) by simp
  then show ?case
    using f(1) b h(2) d
    by (simp del: of_nat_add of_nat_mult add: h(1) n option.map_comp o_def case_prod_beta)
qed (auto simp: option.map_id case_prod_beta)

lemma length_encode_segments: "length bs \<le> length (encode_segments d bs)"
  by (induction bs arbitrary: d) (simp_all add: le_SucI trans_le_add2)

lemma first_byte:
  assumes "0 \<le> mtype" and "mtype < 4" and "n \<le> 8"
  shows "push_bit 6 COAP_VER OR push_bit 4 mtype OR int n = 64 + 16 * mtype + int n"
proof -
  have "mtype \<in> {0, 1, 2, 3}" using assms(1,2) by auto
  then have m: "push_bit 6 COAP_VER OR push_bit 4 mtype = push_bit 4 (4 + mtype)"
    by (auto simp: COAP_VER_def)
  have "push_bit 6 COAP_VER OR push_bit 4 mtype OR int n = (push_bit 6 COAP_VER OR push_bit 4 mtype) OR int n"
    by (simp only: or.assoc)
  with assms(3) show ?thesis unfolding m by (simp add: nibbles)
qed

text \<open>The message a request is meant to be.\<close>

definition request_of :: "int \<Rightarrow> pystr \<Rightarrow> int \<Rightarrow> int \<Rightarrow> u8 list \<Rightarrow> u8 list option \<Rightarrow> coap_msg" where
  "request_of code uri_path mtype mid token payload =
     \<lparr>m_type = of_int mtype, m_code = of_int code, m_id = of_int mid, m_token = token,
      m_path = path_text uri_path, m_payload = payload\<rparr>"

definition request_ok :: "int \<Rightarrow> pystr \<Rightarrow> int \<Rightarrow> int \<Rightarrow> u8 list \<Rightarrow> bool" where
  "request_ok code uri_path mtype mid token \<longleftrightarrow>
     0 \<le> mtype \<and> mtype < 4 \<and> 0 \<le> code \<and> code < 256 \<and> 0 \<le> mid \<and> mid < 65536 \<and> length token \<le> 8 \<and> short_path uri_path"

definition encoded_segments :: "pystr \<Rightarrow> u8 list list" where
  "encoded_segments uri_path = map (the \<circ> utf8) (path_segments uri_path)"

lemma build_request_bytes:
  assumes "request_ok code uri_path mtype mid token"
  shows "build_request code uri_path mtype mid token payload =
    Inr ([of_int (64 + 16 * mtype + int (length token)), of_int code, of_int (mid div 256), of_int (mid mod 256)] @
      token @ encode_segments 0 (encoded_segments uri_path) @ (case payload of None \<Rightarrow> [] | Some p \<Rightarrow> 0xff # p))"
proof -
  have ok: "0 \<le> mtype" "mtype < 4" "0 \<le> code" "code < 256" "0 \<le> mid" "mid < 65536" "length token \<le> 8"
    and s: "short_path uri_path"
    using assms by (simp_all add: request_ok_def)
  have "\<forall>seg \<in> set (split (of_char CHR ''/'') uri_path). seg \<noteq> [] \<longrightarrow> (\<exists>b. utf8 seg = Some b \<and> length b < 13)"
    using s by (simp add: short_path_def path_segments_def)
  from path_options_encode [OF _ this, of 0]
  have p: "path_options 0 out (split (of_char CHR ''/'') uri_path) = Inr (out @ encode_segments 0 (encoded_segments uri_path))"
    for out by (simp add: encoded_segments_def path_segments_def)
  have "py_byte (push_bit 6 COAP_VER OR push_bit 4 mtype OR int (length token)) =
      Inr (of_int (64 + 16 * mtype + int (length token)))"
    unfolding first_byte [OF ok(1,2,7)] using ok by (simp add: py_byte_def)
  moreover have "py_byte code = Inr (of_int code)" using ok by (simp add: py_byte_def)
  ultimately show ?thesis
    using pack_H_ok [OF ok(5,6)] p by (cases payload) (simp_all add: build_request_def Let_def)
qed

lemma first_byte_fields:
  assumes "k < 4" and "t \<le> 8"
  shows "(64 + 16 * k + t) div 64 = (1 :: nat)" "(64 + 16 * k + t) mod 16 = t" "(64 + 16 * k + t) div 16 mod 4 = k"
proof -
  show "(64 + 16 * k + t) div 64 = 1" by (rule div_nat_eqI) (use assms in simp_all)
  have "(t + 16 * (4 + k)) mod 16 = t" using assms by (simp only: mod_mult_self2) simp
  moreover have "64 + 16 * k + t = t + 16 * (4 + k)" by simp
  ultimately show "(64 + 16 * k + t) mod 16 = t" by (simp only:)
  have "(64 + 16 * k + t) div 16 = 4 + k" by (rule div_nat_eqI) (use assms in simp_all)
  then show "(64 + 16 * k + t) div 16 mod 4 = k" using assms by simp
qed

text \<open>
  What a built request decodes to: the message it is meant to be, with one option per segment; but an
  empty payload is a format error.
\<close>

lemma build_request_decodes:
  assumes "request_ok code uri_path mtype mid token"
    and "build_request code uri_path mtype mid token payload = Inr bs"
  shows "rfc_decode bs = (if payload = Some [] then None
    else Some (request_of code uri_path mtype mid token payload, map (Pair 11) (encoded_segments uri_path)))"
proof -
  let ?k = "nat mtype" and ?t = "length token" and ?segs = "encoded_segments uri_path"
  let ?rest = "case payload of None \<Rightarrow> [] | Some p \<Rightarrow> 0xff # p"
  have ok: "0 \<le> mtype" "mtype < 4" "0 \<le> mid" "mid < 65536" "?t \<le> 8"
    and seg: "\<forall>b \<in> set ?segs. length b < 13"
    using assms(1) by (auto simp: request_ok_def short_path_def encoded_segments_def)
  have k: "?k < 4" using ok(1,2) by simp
  have bs: "bs = [of_int (64 + 16 * mtype + int ?t), of_int code, of_int (mid div 256), of_int (mid mod 256)] @
      token @ encode_segments 0 ?segs @ ?rest"
    using assms(2) unfolding build_request_bytes [OF assms(1)] by simp
  have b0: "unat (bs ! 0) = 64 + 16 * ?k + ?t"
    using ok unat_of_int_u8 [of "64 + 16 * mtype + int ?t"] by (simp add: bs nat_add_distrib nat_mult_distrib)
  have i: "bs ! 1 = of_int code" "bs ! 2 = of_int (mid div 256)" "bs ! 3 = of_int (mid mod 256)"
    "drop (4 + ?t) bs = encode_segments 0 ?segs @ ?rest" "take ?t (drop 4 bs) = token"
    "\<not> length bs < 4" "\<not> length bs < 4 + ?t"
    by (simp_all add: bs eval_nat_numeral)
  have id: "of_nat (256 * unat (of_int (mid div 256) :: u8) + unat (of_int (mid mod 256) :: u8)) = (of_int mid :: u16)"
  proof -
    have "256 * unat (of_int (mid div 256) :: u8) + unat (of_int (mid mod 256) :: u8) = nat mid"
      using ok(3,4) by (simp add: unat_of_int_u8 nat_div_distrib nat_mod_distrib)
    then show ?thesis using ok(3) by (simp del: of_nat_add of_nat_mult)
  qed
  have "length ?segs < length bs" using length_encode_segments [of ?segs 0] by (simp add: bs)
  then have "rfc_options (length bs) 0 (encode_segments 0 ?segs @ ?rest) =
      (if payload = Some [] then None else Some (map (Pair 11) ?segs, payload))"
    unfolding rfc_options_encode [OF disjI1 [OF refl] seg less_imp_le [OF \<open>length ?segs < length bs\<close>]]
    by (cases payload; cases "length bs - length ?segs") auto
  moreover have "uri_path_of (map (Pair 11) ?segs) = path_text uri_path"
    by (simp add: uri_path_of_def encoded_segments_def path_text_def filter_map o_def)
  ultimately show ?thesis
    unfolding rfc_decode_def Let_def b0 first_byte_fields [OF k ok(5)] i id using ok i(6,7)
    by (cases "payload = Some []") (simp_all add: request_of_def)
qed

text \<open>C38: \<open>build_request\<close> writes the datagram of RFC 7252: for a type, code and message ID in range, a
  token of at most eight bytes, a path whose segments encode to at most twelve bytes each, and a
  payload that is absent or not empty, it raises nothing, and its bytes decode to exactly the
  request that was asked for.\<close>

theorem build_request_roundtrip:
  assumes "request_ok code uri_path mtype mid token" and "payload \<noteq> Some []"
  shows "\<exists>bs. build_request code uri_path mtype mid token payload = Inr bs \<and>
    rfc_decode bs = Some (request_of code uri_path mtype mid token payload, map (Pair 11) (encoded_segments uri_path))"
  using build_request_bytes [OF assms(1), of payload] build_request_decodes [OF assms(1), of payload] assms(2) by simp

theorem build_request_roundtrip_witness:
  "\<exists>bs. build_request CODE_PUT (str ''/led'') TYPE_NON 0x1234 [7, 8] (Some (bytes ''1'')) = Inr bs \<and>
     rfc_decode bs = Some (\<lparr>m_type = 1, m_code = 3, m_id = 0x1234, m_token = [7, 8], m_path = [''led''],
       m_payload = Some (bytes ''1'')\<rparr>, [(11, bytes ''led'')])"
proof -
  have segs: "path_segments (str ''/led'') = [str ''led'']" by (simp add: path_segments_def)
  have u: "utf8 (str ''led'') = Some (bytes ''led'')" by (rule utf8_ascii) simp
  have "request_ok CODE_PUT (str ''/led'') TYPE_NON 0x1234 [7, 8]"
    unfolding request_ok_def short_path_def segs using u by (simp add: CODE_PUT_def TYPE_NON_def)
  moreover have "path_text (str ''/led'') = [''led'']" "encoded_segments (str ''/led'') = [bytes ''led'']"
    unfolding path_text_def encoded_segments_def segs list.map o_def u option.sel chars_bytes by simp_all
  ultimately show ?thesis
    using build_request_roundtrip [of CODE_PUT "str ''/led''" TYPE_NON "0x1234" "[7, 8]" "Some (bytes ''1'')"]
    unfolding request_of_def by (simp add: CODE_PUT_def TYPE_NON_def)
qed

text \<open>An option header that says anything but the plain length of the value behind it is not read as that value.\<close>

lemma extended_same: "extended n bs = Some (k, bs') \<Longrightarrow> length bs \<le> length bs' \<Longrightarrow> n < 13 \<and> k = n \<and> bs' = bs"
  by (auto simp: extended.simps split: if_splits list.splits)

lemma long_value_misread:
  assumes "rfc_options fuel d (h # b) = Some ((num, v) # os, pl)" and "13 \<le> length b"
  shows "v \<noteq> b"
proof
  assume v: "v = b"
  from assms(1) obtain f where f: "fuel = Suc f" by (cases fuel) simp_all
  with assms(1) obtain k bs1 n bs2 where e: "extended (unat h div 16) b = Some (k, bs1)"
    "extended (unat h mod 16) bs1 = Some (n, bs2)" "v = take n bs2"
    by (auto split: if_splits option.splits)
  have n: "13 \<le> n" "length b \<le> length bs2" using v e(3) assms(2) by (auto dest: arg_cong [where f = length])
  with extended_length [OF e(1)] extended_length [OF e(2)] extended_same [OF e(2)] show False by simp
qed

text \<open>A path segment of 13 to 255 bytes is not refused and not encoded either: the datagram of a request
  for such a path is built without an exception, but no reader of RFC 7252 finds that segment in it.\<close>

lemma build_request_long_segment:
  assumes "0 \<le> mtype" "mtype < 4" "0 \<le> code" "code < 256" "0 \<le> mid" "mid < 65536" "length token \<le> 8"
    and "of_char CHR ''/'' \<notin> set seg" "utf8 seg = Some b" "13 \<le> length b" "length b < 256"
  shows "\<exists>bs. build_request code seg mtype mid token None = Inr bs \<and>
    (\<forall>m num os. rfc_decode bs \<noteq> Some (m, (num, b) # os))"
proof -
  let ?v = "push_bit 4 11 OR int (length b)" and ?t = "length token"
  have k: "nat mtype < 4" using assms(2) by simp
  have "py_byte (push_bit 6 COAP_VER OR push_bit 4 mtype OR int ?t) = Inr (of_int (64 + 16 * mtype + int ?t))"
    unfolding first_byte [OF assms(1,2,7)] using assms by (simp add: py_byte_def)
  moreover have "py_byte code = Inr (of_int code)" using assms by (simp add: py_byte_def)
  moreover have "0 \<le> ?v" "?v < 2 ^ 8" using assms(11) by (simp, intro OR_upper) simp_all
  then have "py_byte ?v = Inr (of_int ?v)" by (simp add: py_byte_def)
  moreover have "seg \<noteq> []" using assms(9,10) by auto
  ultimately have r: "build_request code seg mtype mid token None = Inr ([of_int (64 + 16 * mtype + int ?t), of_int code,
      of_int (mid div 256), of_int (mid mod 256)] @ token @ of_int ?v # b)"
    using assms(9) pack_H_ok [OF assms(5,6)] by (simp add: build_request_def split_no_sep [OF assms(8), simplified])
  have "rfc_decode ([of_int (64 + 16 * mtype + int ?t), of_int code, of_int (mid div 256), of_int (mid mod 256)] @
      token @ of_int ?v # b) \<noteq> Some (m, (num, b) # os)" for m num os
  proof
    let ?bs = "[of_int (64 + 16 * mtype + int ?t), of_int code, of_int (mid div 256), of_int (mid mod 256)] @
      token @ of_int ?v # b"
    assume "rfc_decode ?bs = Some (m, (num, b) # os)"
    moreover have "unat (?bs ! 0) = 64 + 16 * nat mtype + ?t"
      using assms(1,2,7) unat_of_int_u8 [of "64 + 16 * mtype + int ?t"] by (simp add: nat_add_distrib nat_mult_distrib)
    then have "unat (?bs ! 0) mod 16 = ?t" using first_byte_fields(2) [OF k assms(7)] by simp
    ultimately obtain pl where "rfc_options (length ?bs) 0 (drop (4 + ?t) ?bs) = Some ((num, b) # os, pl)"
      by (metis rfc_decode_fields)
    moreover have "drop (4 + ?t) ?bs = of_int ?v # b" by (simp add: eval_nat_numeral)
    ultimately show False using long_value_misread assms(10) by metis
  qed
  with r show ?thesis by blast
qed

text \<open>An empty payload, as from \<open>-e ""\<close>, gives a malformed datagram: a marker with nothing behind it.\<close>

lemma build_request_empty_payload:
  "request_ok code uri_path mtype mid token \<Longrightarrow>
   \<exists>bs. build_request code uri_path mtype mid token (Some []) = Inr bs \<and> rfc_decode bs = None"
  using build_request_bytes [of code uri_path mtype mid token "Some []"]
    build_request_decodes [of code uri_path mtype mid token "Some []"] by simp

end
