(* ===== verification/Coap_Latency.thy ===== *)
theory Coap_Latency
  imports Coap_Request Complex_Main
begin

text \<open>
  scripts/coap_latency.py: the plaintext and the DTLS transport, the wait for a response, the
  measurement loop with its losses, the report and \<open>main\<close>. Sockets, mbedtls, the clock and the random
  source are parameters. A loop that waits on the network may not end: it is a \<open>partial_function\<close> in
  the option monad, where \<open>None\<close> is a run that does not return.
\<close>

subsection \<open>Transports\<close>

text \<open>
  The outside of the tools: a UDP socket, mbedtls around it (the flag says which of the two a
  transport's \<open>s\<close> is), the clock, the random source and the rounding of floats. \<open>do_handshake\<close> ends,
  asks to be called again, or raises.
\<close>

datatype handshake = Hs_done | Hs_want | Hs_raise pyexn

record dtls_conf =
  psk_identity :: string
  psk_secret :: "u8 list"
  conf_ciphers :: "string list"
  lowest_version :: string
  highest_version :: string
  validate_certificates :: bool

record 'w pynet =
  py_socket :: "'w \<Rightarrow> pyexn option \<times> 'w"
  py_settimeout :: "real \<Rightarrow> 'w \<Rightarrow> 'w"
  py_wrap_dtls :: "dtls_conf \<Rightarrow> 'w \<Rightarrow> pyexn option \<times> 'w"
  py_connect :: "bool \<Rightarrow> string \<times> int \<Rightarrow> 'w \<Rightarrow> pyexn option \<times> 'w"
  py_handshake :: "'w \<Rightarrow> handshake \<times> 'w"
  py_send :: "bool \<Rightarrow> u8 list \<Rightarrow> 'w \<Rightarrow> pyexn option \<times> 'w"
  py_recv :: "bool \<Rightarrow> nat \<Rightarrow> 'w \<Rightarrow> (pyexn + u8 list) \<times> 'w"
  py_close :: "bool \<Rightarrow> 'w \<Rightarrow> pyexn option \<times> 'w"
  perf_counter :: "'w \<Rightarrow> real \<times> 'w"
  urandom :: "nat \<Rightarrow> 'w \<Rightarrow> u8 list \<times> 'w"
  py_sleep :: "real \<Rightarrow> 'w \<Rightarrow> 'w"
  py_float :: "real \<Rightarrow> real"

definition dtls_configuration :: dtls_conf where
  "dtls_configuration = \<lparr>psk_identity = ''zbook'', psk_secret = bytes ''zbook-dtls-psk!!'',
     conf_ciphers = [''TLS-PSK-WITH-AES-128-CCM-8''], lowest_version = ''DTLSv1_2'',
     highest_version = ''DTLSv1_2'', validate_certificates = False\<rparr>"

text \<open>\<open>PlainTransport.__init__\<close> and \<open>DtlsTransport.__init__\<close>.\<close>

definition transport_init :: "'w pynet \<Rightarrow> bool \<Rightarrow> real \<Rightarrow> 'w \<Rightarrow> pyexn option \<times> 'w" where
  "transport_init N dtls timeout w =
     (case py_socket N w of
        (Some e, w) \<Rightarrow> (Some e, w)
      | (None, w) \<Rightarrow>
          if dtls then py_wrap_dtls N dtls_configuration (py_settimeout N 15 w)
          else (None, py_settimeout N timeout w))"

partial_function (option) handshake_loop :: "'w pynet \<Rightarrow> 'w \<Rightarrow> (pyexn option \<times> 'w) option" where
  "handshake_loop N w =
     (case py_handshake N w of
        (Hs_done, w) \<Rightarrow> Some (None, w)
      | (Hs_want, w) \<Rightarrow> handshake_loop N w
      | (Hs_raise e, w) \<Rightarrow> Some (Some e, w))"

text \<open>Elapsed milliseconds, \<open>(t - t0) * 1e3\<close>, in floats.\<close>

definition elapsed_ms :: "'w pynet \<Rightarrow> real \<Rightarrow> real \<Rightarrow> real" where
  "elapsed_ms N t0 t = py_float N (py_float N (t - t0) * 1000)"

definition transport_connect :: "'w pynet \<Rightarrow> bool \<Rightarrow> string \<times> int \<Rightarrow> real \<Rightarrow> 'w \<Rightarrow> ((pyexn + real) \<times> 'w) option" where
  "transport_connect N dtls addr timeout w =
     (case py_connect N dtls addr w of
        (Some e, w) \<Rightarrow> Some (Inl e, w)
      | (None, w) \<Rightarrow>
          if \<not> dtls then Some (Inr 0, w)
          else
            let (t0, w) = perf_counter N w
            in case handshake_loop N w of
                 None \<Rightarrow> None
               | Some (Some e, w) \<Rightarrow> Some (Inl e, w)
               | Some (None, w) \<Rightarrow>
                   let (t, w) = perf_counter N w
                   in Some (Inr (elapsed_ms N t0 t), py_settimeout N timeout w))"

lemma transport_connect_ends:
  assumes "dtls \<Longrightarrow> \<forall>w. handshake_loop N w \<noteq> None"
  obtains r w' where "transport_connect N dtls addr timeout w = Some (r, w')"
proof -
  have h: "dtls \<Longrightarrow> handshake_loop N v \<noteq> None" for v using assms by blast
  have "transport_connect N dtls addr timeout w \<noteq> None"
    by (auto dest: h simp: transport_connect_def Let_def split: prod.splits option.splits)
  with that show thesis by auto
qed

subsection \<open>Waiting for a response\<close>

text \<open>A datagram that carries the message ID: \<open>len(data) >= 4 and struct.unpack("!H", data[2:4])[0] == mid\<close>.\<close>

definition answers :: "int \<Rightarrow> u8 list \<Rightarrow> bool" where
  "answers mid dgram \<longleftrightarrow> 4 \<le> length dgram \<and> unpack_H (take 2 (drop 2 dgram)) = mid"

partial_function (option) await :: "'w pynet \<Rightarrow> bool \<Rightarrow> int \<Rightarrow> 'w \<Rightarrow> ((pyexn + u8 list) \<times> 'w) option" where
  "await N dtls mid w =
     (case py_recv N dtls 1500 w of
        (Inl e, w) \<Rightarrow> Some (Inl e, w)
      | (Inr dgram, w) \<Rightarrow> if answers mid dgram then Some (Inr dgram, w) else await N dtls mid w)"

text \<open>The world after \<open>n\<close> receives, and whether the next one ends the wait.\<close>

fun after_recv :: "'w pynet \<Rightarrow> bool \<Rightarrow> nat \<Rightarrow> 'w \<Rightarrow> 'w" where
  "after_recv N dtls 0 w = w"
| "after_recv N dtls (Suc n) w = after_recv N dtls n (snd (py_recv N dtls 1500 w))"

definition ends_wait :: "'w pynet \<Rightarrow> bool \<Rightarrow> int \<Rightarrow> 'w \<Rightarrow> bool" where
  "ends_wait N dtls mid w \<longleftrightarrow> (case fst (py_recv N dtls 1500 w) of Inl e \<Rightarrow> True | Inr dgram \<Rightarrow> answers mid dgram)"

lemma await_unfold:
  "await N dtls mid w =
     (if ends_wait N dtls mid w then Some (py_recv N dtls 1500 w) else await N dtls mid (snd (py_recv N dtls 1500 w)))"
  by (subst await.simps) (simp add: ends_wait_def split: prod.splits sum.splits)

lemma await_after:
  "(\<And>k. k < n \<Longrightarrow> \<not> ends_wait N dtls mid (after_recv N dtls k w)) \<Longrightarrow>
   ends_wait N dtls mid (after_recv N dtls n w) \<Longrightarrow>
   await N dtls mid w = Some (py_recv N dtls 1500 (after_recv N dtls n w))"
proof (induction n arbitrary: w)
  case 0
  then show ?case by (simp add: await_unfold)
next
  case (Suc n)
  have "\<not> ends_wait N dtls mid w" using Suc.prems(1) [of 0] by simp
  then have "await N dtls mid w = await N dtls mid (snd (py_recv N dtls 1500 w))" by (simp add: await_unfold)
  also have "\<dots> = Some (py_recv N dtls 1500 (after_recv N dtls (Suc n) w))"
    using Suc.IH [of "snd (py_recv N dtls 1500 w)"] Suc.prems(1) [of "Suc _"] Suc.prems(2) by simp
  finally show ?case .
qed

definition first_end :: "'w pynet \<Rightarrow> bool \<Rightarrow> int \<Rightarrow> 'w \<Rightarrow> nat \<Rightarrow> bool" where
  "first_end N dtls mid w n \<longleftrightarrow> ends_wait N dtls mid (after_recv N dtls n w) \<and>
     (\<forall>k < n. \<not> ends_wait N dtls mid (after_recv N dtls k w))"

lemma await_returned:
  assumes "await N dtls mid w = Some y"
  shows "\<exists>n. first_end N dtls mid w n \<and> y = py_recv N dtls 1500 (after_recv N dtls n w)"
proof (rule await.raw_induct [OF _ assms])
  fix f and N :: "'a pynet" and dtls mid w y
  assume IH: "\<And>N dtls mid w y. f N dtls mid w = Some y \<Longrightarrow>
      \<exists>n. first_end N dtls mid w n \<and> y = py_recv N dtls 1500 (after_recv N dtls n w)"
    and y: "(case py_recv N dtls 1500 w of (Inl e, w) \<Rightarrow> Some (Inl e, w)
      | (Inr dgram, w) \<Rightarrow> if answers mid dgram then Some (Inr dgram, w) else f N dtls mid w) = Some y"
  show "\<exists>n. first_end N dtls mid w n \<and> y = py_recv N dtls 1500 (after_recv N dtls n w)"
  proof (cases "ends_wait N dtls mid w")
    case True
    with y have "first_end N dtls mid w 0 \<and> y = py_recv N dtls 1500 (after_recv N dtls 0 w)"
      by (auto simp: first_end_def ends_wait_def split: prod.splits sum.splits if_splits)
    then show ?thesis ..
  next
    case False
    with y have "f N dtls mid (snd (py_recv N dtls 1500 w)) = Some y"
      by (auto simp: ends_wait_def split: prod.splits sum.splits if_splits)
    from IH [OF this] obtain n where n: "first_end N dtls mid (snd (py_recv N dtls 1500 w)) n"
      "y = py_recv N dtls 1500 (after_recv N dtls (Suc n) w)" by auto
    have "first_end N dtls mid w (Suc n)"
      using n(1) False by (auto simp: first_end_def less_Suc_eq_0_disj)
    with n(2) show ?thesis by blast
  qed
qed

lemma await_least:
  assumes "\<exists>n. ends_wait N dtls mid (after_recv N dtls n w)"
  shows "await N dtls mid w =
    Some (py_recv N dtls 1500 (after_recv N dtls (LEAST n. ends_wait N dtls mid (after_recv N dtls n w)) w))"
  by (rule await_after [OF not_less_Least [where P = "\<lambda>n. ends_wait N dtls mid (after_recv N dtls n w)"]
      LeastI_ex [OF assms]])

text \<open>Waiting for the response with a message ID returns exactly when some receive ends it, by raising
  (the socket's timeout) or by delivering a datagram with that ID; it then returns the first such
  receive. It runs forever only if datagrams with other IDs keep arriving, each within the timeout.\<close>

lemma await_returns_iff:
  "await N dtls mid w =
     (if \<exists>n. ends_wait N dtls mid (after_recv N dtls n w)
      then Some (py_recv N dtls 1500 (after_recv N dtls (LEAST n. ends_wait N dtls mid (after_recv N dtls n w)) w))
      else None)"
proof (cases "\<exists>n. ends_wait N dtls mid (after_recv N dtls n w)")
  case True
  from await_least [OF this] show ?thesis unfolding if_P [OF True] .
next
  case False
  have "await N dtls mid w = None"
    using await_returned [of N dtls mid w] False by (cases "await N dtls mid w") (auto simp: first_end_def)
  with False show ?thesis by simp
qed

lemma await_answer:
  assumes "await N dtls mid w = Some (Inr dgram, w')"
  shows "answers mid dgram" "\<exists>n. py_recv N dtls 1500 (after_recv N dtls n w) = (Inr dgram, w')"
proof -
  obtain n where n: "first_end N dtls mid w n" "py_recv N dtls 1500 (after_recv N dtls n w) = (Inr dgram, w')"
    using await_returned [OF assms] by metis
  then have "ends_wait N dtls mid (after_recv N dtls n w)" by (simp add: first_end_def)
  with n(2) show "answers mid dgram" by (simp add: ends_wait_def)
  show "\<exists>n. py_recv N dtls 1500 (after_recv N dtls n w) = (Inr dgram, w')" using n(2) by blast
qed

subsection \<open>measure\<close>

text \<open>One request of the loop: an \<open>OSError\<close> while sending or waiting is caught and leaves \<open>rtt\<close> at \<open>None\<close>.\<close>

definition caught :: "pyexn \<Rightarrow> pyexn + real option" where
  "caught e = (if is_oserror e then Inr None else Inl e)"

definition timed_request ::
  "'w pynet \<Rightarrow> bool \<Rightarrow> int \<Rightarrow> pystr \<Rightarrow> int \<Rightarrow> u8 list option \<Rightarrow> int \<Rightarrow> 'w \<Rightarrow> ((pyexn + real option) \<times> 'w) option" where
  "timed_request N dtls code uri mtype payload mid w =
     (let (token, w) = urandom N 4 w
      in case build_request code uri mtype mid token payload of
           Inl e \<Rightarrow> Some (Inl e, w)
         | Inr req \<Rightarrow>
             let (t0, w) = perf_counter N w
             in (case py_send N dtls req w of
                  (Some e, w) \<Rightarrow> Some (caught e, w)
                | (None, w) \<Rightarrow>
                    (case await N dtls mid w of
                       None \<Rightarrow> None
                     | Some (Inl e, w) \<Rightarrow> Some (caught e, w)
                     | Some (Inr dgram, w) \<Rightarrow>
                         let (t, w) = perf_counter N w in Some (Inr (Some (elapsed_ms N t0 t)), w))))"

text \<open>The loop over the indices that are left, with \<open>(rtts, losses, mid)\<close>.\<close>

type_synonym measure_state = "real list \<times> int \<times> int"

definition tally :: "int \<Rightarrow> int \<Rightarrow> real option \<Rightarrow> real list \<times> int \<Rightarrow> real list \<times> int" where
  "tally warmup i rtt st =
     (case st of (rtts, losses) \<Rightarrow>
        if i < warmup then (rtts, losses)
        else case rtt of None \<Rightarrow> (rtts, losses + 1) | Some t \<Rightarrow> (rtts @ [t], losses))"

fun measure_loop ::
  "'w pynet \<Rightarrow> bool \<Rightarrow> int \<Rightarrow> pystr \<Rightarrow> int \<Rightarrow> u8 list option \<Rightarrow> int \<Rightarrow> int list \<Rightarrow> real list \<times> int \<Rightarrow> int \<Rightarrow> 'w \<Rightarrow>
   ((pyexn + real list \<times> int) \<times> 'w) option" where
  "measure_loop N dtls code uri mtype payload warmup [] st mid w = Some (Inr st, w)"
| "measure_loop N dtls code uri mtype payload warmup (i # idx) st mid w =
     (let mid = (mid + 1) AND 0xffff
      in case timed_request N dtls code uri mtype payload mid w of
           None \<Rightarrow> None
         | Some (Inl e, w) \<Rightarrow> Some (Inl e, w)
         | Some (Inr rtt, w) \<Rightarrow>
             measure_loop N dtls code uri mtype payload warmup idx (tally warmup i rtt st) mid w)"

definition measure_rtt ::
  "'w pynet \<Rightarrow> bool \<Rightarrow> int \<Rightarrow> pystr \<Rightarrow> int \<Rightarrow> u8 list option \<Rightarrow> int \<Rightarrow> int \<Rightarrow> 'w \<Rightarrow>
   ((pyexn + real list \<times> int) \<times> 'w) option" where
  "measure_rtt N dtls code uri mtype payload count warmup w =
     (let (r, w) = urandom N 2 w
      in measure_loop N dtls code uri mtype payload warmup [0..count + warmup - 1] ([], 0) (unpack_H r) w)"

text \<open>A network on which every wait ends: some receive times out, fails or delivers the response.\<close>

definition waits_end :: "'w pynet \<Rightarrow> bool \<Rightarrow> bool" where
  "waits_end N dtls \<longleftrightarrow> (\<forall>mid w. \<exists>n. ends_wait N dtls mid (after_recv N dtls n w))"

lemma path_options_no_oserror: "path_options lst out segs = Inl e \<Longrightarrow> \<not> is_oserror e"
  by (induction lst out segs rule: path_options.induct)
    (auto simp: and_then_def py_byte_error split: if_splits option.splits sum.splits)

lemma build_request_no_oserror: "build_request code uri mtype mid token payload = Inl e \<Longrightarrow> \<not> is_oserror e"
  by (auto simp: build_request_def Let_def and_then_def py_byte_error pack_H_error path_options_no_oserror
      split: sum.splits)

lemma await_ends: "waits_end N dtls \<Longrightarrow> \<exists>r w'. await N dtls mid w = Some (r, w')"
  using await_least [of N dtls mid w] unfolding waits_end_def by (metis prod.exhaust)

lemma timed_request_ends:
  assumes "waits_end N dtls"
  obtains r w' where "timed_request N dtls code uri mtype payload mid w = Some (r, w')"
    "\<And>e. r = Inl e \<Longrightarrow> \<not> is_oserror e"
proof -
  obtain token w1 where 1: "urandom N 4 w = (token, w1)" by fastforce
  show thesis
  proof (cases "build_request code uri mtype mid token payload")
    case (Inl e)
    with 1 build_request_no_oserror [OF Inl] show thesis by (intro that) (auto simp: timed_request_def)
  next
    case (Inr req)
    obtain t0 w2 x w3 where 2: "perf_counter N w1 = (t0, w2)" "py_send N dtls req w2 = (x, w3)" by fastforce
    obtain y w4 where 3: "await N dtls mid w3 = Some (y, w4)" using await_ends [OF assms] by blast
    obtain t w5 where 4: "perf_counter N w4 = (t, w5)" by fastforce
    show thesis
      by (cases x; cases y) (use 1 2 3 4 Inr in \<open>auto intro!: that simp: timed_request_def caught_def split: if_splits\<close>)
  qed
qed

lemma tally_counts:
  "tally warmup i rtt (rtts, losses) = (rtts', losses') \<Longrightarrow>
   int (length rtts') + losses' = int (length rtts) + losses + (if i < warmup then 0 else 1) \<and> losses \<le> losses'"
  by (auto simp: tally_def split: if_splits option.splits)

definition accounted :: "int \<Rightarrow> int \<Rightarrow> pyexn + real list \<times> int \<Rightarrow> bool" where
  "accounted lost n r \<longleftrightarrow>
     (case r of
        Inl e \<Rightarrow> \<not> is_oserror e
      | Inr (rtts, losses) \<Rightarrow> lost \<le> losses \<and> int (length rtts) + losses = n)"

lemma measure_loop_ends:
  assumes "waits_end N dtls"
  shows "\<exists>r w'. measure_loop N dtls code uri mtype payload warmup idx st mid w = Some (r, w') \<and>
    accounted (snd st) (int (length (fst st)) + snd st + int (length (filter (\<lambda>i. warmup \<le> i) idx))) r"
proof (induction idx arbitrary: st mid w)
  case (Cons i idx)
  let ?mid = "(mid + 1) AND 0xffff"
  obtain r w1 where r: "timed_request N dtls code uri mtype payload ?mid w = Some (r, w1)"
    "\<And>e. r = Inl e \<Longrightarrow> \<not> is_oserror e"
    using timed_request_ends [OF assms] by metis
  show ?case
  proof (cases r)
    case (Inl e)
    with r show ?thesis by (simp add: accounted_def)
  next
    case (Inr rtt)
    obtain rtts1 losses1 where t: "tally warmup i rtt st = (rtts1, losses1)" by fastforce
    obtain r' w' where l: "measure_loop N dtls code uri mtype payload warmup idx (rtts1, losses1) ?mid w1 = Some (r', w')"
      and c: "accounted losses1 (int (length rtts1) + losses1 + int (length (filter (\<lambda>i. warmup \<le> i) idx))) r'"
      using Cons.IH [of "(rtts1, losses1)" ?mid w1] unfolding fst_conv snd_conv by blast
    have "measure_loop N dtls code uri mtype payload warmup (i # idx) st mid w = Some (r', w')"
      using r(1) Inr t l by simp
    moreover have "int (length rtts1) + losses1 = int (length (fst st)) + snd st + (if i < warmup then 0 else 1)"
      "snd st \<le> losses1"
      using tally_counts [of warmup i rtt "fst st" "snd st" rtts1 losses1] t by simp_all
    ultimately show ?thesis using c by (auto simp: accounted_def split: sum.splits)
  qed
qed (simp add: accounted_def case_prod_beta)

text \<open>The indices of \<open>range(count + warmup)\<close> past the warm-up.\<close>

lemma samples_upto: "int (length (filter (\<lambda>i. warmup \<le> i) [0..n - 1])) = max 0 (n - max 0 warmup)"
proof -
  have "int (length (filter (\<lambda>i. warmup \<le> i) [0..n - 1])) = int (card (set (filter (\<lambda>i. warmup \<le> i) [0..n - 1])))"
    by (subst distinct_card) simp_all
  also have "set (filter (\<lambda>i. warmup \<le> i) [0..n - 1]) = {max 0 warmup..n - 1}" by auto
  finally show ?thesis by (auto simp: max_def)
qed

text \<open>Every request after the warm-up is counted once, as a sample or as a loss; a timeout is never an exception.\<close>

lemma measure_accounts:
  assumes "waits_end N dtls"
  shows "\<exists>r w'. measure_rtt N dtls code uri mtype payload count warmup w = Some (r, w') \<and>
    accounted 0 (max 0 (count + min 0 warmup)) r"
proof -
  obtain b w1 where b: "urandom N 2 w = (b, w1)" by fastforce
  have "max 0 (count + warmup - max 0 warmup) = max 0 (count + min 0 warmup)" by (simp add: max_def min_def)
  then show ?thesis
    using measure_loop_ends [OF assms, of code uri mtype payload warmup "[0..count + warmup - 1]" "([], 0)" "unpack_H b" w1]
    by (simp add: measure_rtt_def b samples_upto)
qed

subsection \<open>report\<close>

text \<open>\<open>round\<close> of a float: to the nearest integer, ties to even.\<close>

definition py_round :: "real \<Rightarrow> int" where
  "py_round x =
     (let f = \<lfloor>x\<rfloor>; d = x - of_int f
      in if d < 1 / 2 then f else if 1 / 2 < d then f + 1 else if even f then f else f + 1)"

text \<open>\<open>pct\<close>: the index into the sorted samples.\<close>

definition pct_index :: "(real \<Rightarrow> real) \<Rightarrow> real \<Rightarrow> nat \<Rightarrow> int" where
  "pct_index D p n = min (int n - 1) (py_round (D (D (p / 100) * D (real (n - 1)))))"

record latency_stats =
  ls_n :: nat
  ls_min :: real
  ls_mean :: real
  ls_med :: real
  ls_p95 :: real
  ls_p99 :: real
  ls_max :: real
  ls_sd :: real

text \<open>
  \<open>statistics.fmean\<close> rounds the exact sum and the quotient, \<open>pstdev\<close> the root of the exact variance.
\<close>

definition latency_summary :: "(real \<Rightarrow> real) \<Rightarrow> real list \<Rightarrow> latency_stats" where
  "latency_summary D rtts =
     (let s = sort rtts; n = length s; mean = sum_list s / real n;
          med = (if odd n then s ! (n div 2) else D (D (s ! (n div 2 - 1) + s ! (n div 2)) / 2))
      in \<lparr>ls_n = n, ls_min = s ! 0, ls_mean = D (D (sum_list s) / D (real n)), ls_med = med,
          ls_p95 = s ! nat (pct_index D 95 n), ls_p99 = s ! nat (pct_index D 99 n), ls_max = s ! (n - 1),
          ls_sd = D (sqrt (sum_list (map (\<lambda>x. (x - mean)\<^sup>2) s) / real n))\<rparr>)"

datatype latency_report = Lat_none string int | Lat_line string latency_stats int

definition report :: "(real \<Rightarrow> real) \<Rightarrow> string \<Rightarrow> real list \<Rightarrow> int \<Rightarrow> latency_report" where
  "report D name rtts losses =
     (if rtts = [] then Lat_none name losses else Lat_line name (latency_summary D rtts) losses)"

lemma py_round_mono: "x \<le> y \<Longrightarrow> py_round x \<le> py_round y"
proof -
  assume le: "x \<le> y"
  show ?thesis
  proof (cases "\<lfloor>x\<rfloor> = \<lfloor>y\<rfloor>")
    case True
    with le show ?thesis by (auto simp: py_round_def Let_def)
  next
    case False
    with floor_mono [OF le] have "\<lfloor>x\<rfloor> + 1 \<le> \<lfloor>y\<rfloor>" by simp
    then show ?thesis by (auto simp: py_round_def Let_def)
  qed
qed

lemma py_round_0 [simp]: "py_round 0 = 0"
  by (simp add: py_round_def)

lemma pct_index_bounds:
  assumes "mono D" and "D 0 = 0" and "0 \<le> p" and "0 < n"
  shows "0 \<le> pct_index D p n" "pct_index D p n < int n"
proof -
  have "0 \<le> D (p / 100)" "0 \<le> D (real (n - 1))"
    using monoD [OF assms(1), of 0] assms(2,3) by simp_all
  then have "0 \<le> D (D (p / 100) * D (real (n - 1)))" using monoD [OF assms(1), of 0] assms(2) by simp
  from py_round_mono [OF this] show "0 \<le> pct_index D p n" using assms(4) by (simp add: pct_index_def)
  show "pct_index D p n < int n" by (simp add: pct_index_def)
qed

lemma pct_index_mono:
  assumes "mono D" and "D 0 = 0" and "p \<le> q"
  shows "pct_index D p n \<le> pct_index D q n"
proof -
  have "D (p / 100) \<le> D (q / 100)" "0 \<le> D (real (n - 1))"
    using monoD [OF assms(1)] assms(3) monoD [OF assms(1), of 0 "real (n - 1)"] assms(2) by (simp_all add: divide_right_mono)
  then have "D (D (p / 100) * D (real (n - 1))) \<le> D (D (q / 100) * D (real (n - 1)))"
    using mult_right_mono by (intro monoD [OF assms(1)]) blast
  from py_round_mono [OF this] show ?thesis unfolding pct_index_def by (rule min.mono [OF order_refl])
qed

text \<open>The report of a run with samples never indexes outside them, and is ordered: the minimum is at most
  the 95th percentile, that at most the 99th, that at most the maximum, and each is one of the
  samples. Rounding to floats need only be monotone and keep zero.\<close>

lemma report_ordered:
  assumes "mono D" and "D 0 = 0" and "report D name rtts losses = Lat_line name st losses"
  shows "0 \<le> pct_index D 95 (ls_n st) \<and> pct_index D 99 (ls_n st) < int (ls_n st) \<and>
    ls_min st \<le> ls_p95 st \<and> ls_p95 st \<le> ls_p99 st \<and> ls_p99 st \<le> ls_max st \<and>
    {ls_min st, ls_p95 st, ls_p99 st, ls_max st} \<subseteq> set rtts"
proof -
  let ?s = "sort rtts" and ?n = "length rtts"
  have st: "rtts \<noteq> []" "st = latency_summary D rtts" using assms(3) by (auto simp: report_def split: if_splits)
  define i j where "i = nat (pct_index D 95 ?n)" and "j = nat (pct_index D 99 ?n)"
  have n: "0 < ?n" using st(1) by simp
  note b = pct_index_bounds [OF assms(1,2) _ n]
  have ij: "i \<le> j" "j < ?n" using pct_index_mono [OF assms(1,2), of 95 99 ?n] b [of 95] b [of 99] by (simp_all add: i_def j_def)
  have f: "ls_n st = ?n" "ls_min st = ?s ! 0" "ls_p95 st = ?s ! i" "ls_p99 st = ?s ! j" "ls_max st = ?s ! (?n - 1)"
    by (simp_all add: st(2) latency_summary_def Let_def i_def j_def)
  have m: "?s ! a \<le> ?s ! c" if "a \<le> c" "c < ?n" for a c using sorted_nth_mono [of ?s a c] that by simp
  have e: "?s ! a \<in> set rtts" if "a < ?n" for a using nth_mem [of a ?s] that by simp
  have le: "?s ! 0 \<le> ?s ! i" "?s ! i \<le> ?s ! j" "?s ! j \<le> ?s ! (?n - 1)" using ij n by (auto intro!: m)
  have mem: "?s ! 0 \<in> set rtts" "?s ! i \<in> set rtts" "?s ! j \<in> set rtts" "?s ! (?n - 1) \<in> set rtts"
    using ij n by (auto intro!: e)
  show ?thesis unfolding f using le mem b(1) [of 95] b(2) [of 99] by simp
qed

subsection \<open>main\<close>

record latency_args =
  la_host :: string
  la_port :: "int option"
  la_dtls :: bool
  la_count :: int
  la_warmup :: int
  la_timeout :: real

definition tool_port :: "int option \<Rightarrow> bool \<Rightarrow> int" where
  "tool_port port dtls = (case port of Some p \<Rightarrow> p | None \<Rightarrow> if dtls then 5684 else 5683)"

type_synonym latency_case = "string \<times> int \<times> pystr \<times> u8 list option"

definition cases :: "latency_case list" where
  "cases = [(''GET /hello'', CODE_GET, str ''hello'', None), (''GET /led'', CODE_GET, str ''led'', None),
            (''PUT /led=1'', CODE_PUT, str ''led'', Some (bytes ''1''))]"

text \<open>The two nested loops as one list of measurements; the lines printed so far are kept.\<close>

definition measurements :: "(string \<times> int \<times> latency_case) list" where
  "measurements = concat (map (\<lambda>(mtype, tag). map (\<lambda>c. (tag, mtype, c)) cases) [(TYPE_CON, ''CON''), (TYPE_NON, ''NON'')])"

fun run_measurements ::
  "'w pynet \<Rightarrow> latency_args \<Rightarrow> (string \<times> int \<times> latency_case) list \<Rightarrow> latency_report list \<Rightarrow> 'w \<Rightarrow>
   ((pyexn + latency_report list) \<times> 'w) option" where
  "run_measurements N a [] out w = Some (Inr out, w)"
| "run_measurements N a ((tag, mtype, label, code, uri, payload) # ms) out w =
     (case measure_rtt N (la_dtls a) code uri mtype payload (la_count a) (la_warmup a) w of
        None \<Rightarrow> None
      | Some (Inl e, w) \<Rightarrow> Some (Inl e, w)
      | Some (Inr (rtts, losses), w) \<Rightarrow>
          run_measurements N a ms (out @ [report (py_float N) (tag @ '' '' @ label) rtts losses]) w)"

definition latency_main ::
  "'w pynet \<Rightarrow> latency_args \<Rightarrow> 'w \<Rightarrow> ((pyexn + real option \<times> latency_report list) \<times> 'w) option" where
  "latency_main N a w =
     (let port = tool_port (la_port a) (la_dtls a)
      in case transport_init N (la_dtls a) (la_timeout a) w of
           (Some e, w) \<Rightarrow> Some (Inl e, w)
         | (None, w) \<Rightarrow>
             (case transport_connect N (la_dtls a) (la_host a, port) (la_timeout a) w of
                None \<Rightarrow> None
              | Some (Inl e, w) \<Rightarrow> Some (Inl e, w)
              | Some (Inr hs, w) \<Rightarrow>
                  (case run_measurements N a measurements [] w of
                     None \<Rightarrow> None
                   | Some (Inl e, w) \<Rightarrow> Some (Inl e, w)
                   | Some (Inr out, w) \<Rightarrow> Some (Inr (if la_dtls a then Some hs else None, out), w))))"

text \<open>
  The tools and the device's build agree on the service: the port of each build, and the credentials
  the device registers with \<open>tls_credential_add\<close>.
\<close>

lemma tools_match_service:
  "tool_port None dtls = uint (svc_port (coap_server dtls))"
  "psk_secret dtls_configuration = psk_key"
  "bytes (psk_identity dtls_configuration) = take (length psk_id - 1) psk_id"
  by (simp_all add: tool_port_def coap_server_def coap_port_def dtls_configuration_def psk_key_def psk_id_def)

text \<open>What a report says: its name, and how many requests it accounts for.\<close>

fun report_name :: "latency_report \<Rightarrow> string" where
  "report_name (Lat_none name losses) = name"
| "report_name (Lat_line name st losses) = name"

fun report_total :: "latency_report \<Rightarrow> int" where
  "report_total (Lat_none name losses) = losses"
| "report_total (Lat_line name st losses) = int (ls_n st) + losses"

lemma report_accounts:
  "report_name (report D name rtts losses) = name" "report_total (report D name rtts losses) = int (length rtts) + losses"
  by (simp_all add: report_def latency_summary_def Let_def)

definition case_name :: "string \<times> int \<times> latency_case \<Rightarrow> string" where
  "case_name m = (case m of (tag, mtype, label, _) \<Rightarrow> tag @ '' '' @ label)"

lemma run_measurements_ends:
  assumes "waits_end N (la_dtls a)"
  shows "\<exists>r w'. run_measurements N a ms out w = Some (r, w') \<and>
    (case r of
       Inl e \<Rightarrow> \<not> is_oserror e
     | Inr out' \<Rightarrow> \<exists>new. out' = out @ new \<and> map report_name new = map case_name ms \<and>
         (\<forall>l \<in> set new. report_total l = max 0 (la_count a + min 0 (la_warmup a))))"
proof (induction ms arbitrary: out w)
  case (Cons m ms)
  obtain tag mtype label code uri payload where m: "m = (tag, mtype, label, code, uri, payload)" by (metis prod_cases6)
  obtain r w1 where r: "measure_rtt N (la_dtls a) code uri mtype payload (la_count a) (la_warmup a) w = Some (r, w1)"
    "accounted 0 (max 0 (la_count a + min 0 (la_warmup a))) r"
    using measure_accounts [OF assms] by blast
  show ?case
  proof (cases r)
    case (Inl e)
    with r m show ?thesis by (simp add: accounted_def)
  next
    case (Inr x)
    obtain rtts losses where x: "x = (rtts, losses)" by fastforce
    let ?l = "report (py_float N) (tag @ '' '' @ label) rtts losses"
    obtain r' w' where l: "run_measurements N a ms (out @ [?l]) w1 = Some (r', w')"
      "case r' of Inl e \<Rightarrow> \<not> is_oserror e
        | Inr out' \<Rightarrow> \<exists>new. out' = (out @ [?l]) @ new \<and> map report_name new = map case_name ms \<and>
            (\<forall>l \<in> set new. report_total l = max 0 (la_count a + min 0 (la_warmup a)))"
      using Cons.IH [of "out @ [?l]" w1] by blast
    have "run_measurements N a (m # ms) out w = Some (r', w')" using r(1) Inr x l(1) m by simp
    moreover have "report_total ?l = max 0 (la_count a + min 0 (la_warmup a))" "report_name ?l = case_name m"
      using r(2) Inr x m by (simp_all add: report_accounts case_name_def accounted_def)
    moreover have "\<exists>new. out' = out @ new \<and> map report_name new = map case_name (m # ms) \<and>
        (\<forall>l \<in> set new. report_total l = max 0 (la_count a + min 0 (la_warmup a)))" if "r' = Inr out'" for out'
    proof -
      from l(2) that obtain new where "out' = (out @ [?l]) @ new" "map report_name new = map case_name ms"
        "\<forall>l \<in> set new. report_total l = max 0 (la_count a + min 0 (la_warmup a))" by auto
      with calculation(2,3) show ?thesis by (intro exI [of _ "?l # new"]) simp
    qed
    ultimately show ?thesis using l(2) by (cases r') simp_all
  qed
qed simp

text \<open>
  The requests of the table can all be built, so on a transport that raises only \<open>OSError\<close>s the
  measurements raise nothing.
\<close>

definition oserrors_only :: "'w pynet \<Rightarrow> bool \<Rightarrow> bool" where
  "oserrors_only N dtls \<longleftrightarrow>
     (\<forall>d w e w'. py_send N dtls d w = (Some e, w') \<longrightarrow> is_oserror e) \<and>
     (\<forall>n w e w'. py_recv N dtls n w = (Inl e, w') \<longrightarrow> is_oserror e) \<and>
     (\<forall>n w. length (fst (urandom N n w)) = n)"

definition buildable :: "int \<Rightarrow> pystr \<Rightarrow> int \<Rightarrow> u8 list option \<Rightarrow> bool" where
  "buildable code uri mtype payload \<longleftrightarrow> (\<forall>mid token. 0 \<le> mid \<longrightarrow> mid < 65536 \<longrightarrow> length token = 4 \<longrightarrow>
     (\<exists>bs. build_request code uri mtype mid token payload = Inr bs))"

lemma timed_request_ok:
  assumes "waits_end N dtls" and "oserrors_only N dtls" and "buildable code uri mtype payload"
    and "0 \<le> mid" "mid < 65536"
  shows "\<exists>rtt w'. timed_request N dtls code uri mtype payload mid w = Some (Inr rtt, w')"
proof -
  obtain token w1 where 1: "urandom N 4 w = (token, w1)" by fastforce
  then have "length token = 4" using assms(2) unfolding oserrors_only_def by (metis fst_conv)
  then obtain req where req: "build_request code uri mtype mid token payload = Inr req"
    using assms(3-5) unfolding buildable_def by blast
  obtain t0 w2 x w3 where 2: "perf_counter N w1 = (t0, w2)" "py_send N dtls req w2 = (x, w3)" by fastforce
  obtain y w4 where 3: "await N dtls mid w3 = Some (y, w4)" using await_ends [OF assms(1)] by blast
  obtain t w5 where 4: "perf_counter N w4 = (t, w5)" by fastforce
  have x: "x = Some e \<Longrightarrow> is_oserror e" for e using assms(2) 2(2) unfolding oserrors_only_def by blast
  have y: "y = Inl e \<Longrightarrow> is_oserror e" for e
    using await_returned [OF 3] assms(2) unfolding oserrors_only_def by metis
  show ?thesis
    by (cases x; cases y) (use 1 req 2 3 4 x y in \<open>auto simp: timed_request_def caught_def\<close>)
qed

lemma measure_loop_ok:
  assumes "waits_end N dtls" and "oserrors_only N dtls" and "buildable code uri mtype payload"
  shows "\<exists>st' w'. measure_loop N dtls code uri mtype payload warmup idx st mid w = Some (Inr st', w')"
proof (induction idx arbitrary: st mid w)
  case (Cons i idx)
  have "(mid + 1) AND 0xffff = take_bit 16 (mid + 1)" by (simp add: take_bit_eq_mask mask_eq_exp_minus_1)
  then have "0 \<le> (mid + 1) AND 0xffff" "(mid + 1) AND 0xffff < 65536" by (simp_all add: take_bit_eq_mod)
  from timed_request_ok [OF assms this] obtain rtt w1
    where "timed_request N dtls code uri mtype payload ((mid + 1) AND 0xffff) w = Some (Inr rtt, w1)" by blast
  with Cons.IH [of "tally warmup i rtt st" "(mid + 1) AND 0xffff" w1] show ?case by simp
qed simp

lemma measurements_buildable:
  "(tag, mtype, label, code, uri, payload) \<in> set measurements \<Longrightarrow> buildable code uri mtype payload"
proof -
  have u: "utf8 (str ''hello'') = Some (bytes ''hello'')" "utf8 (str ''led'') = Some (bytes ''led'')"
    by (rule utf8_ascii; simp)+
  have p: "path_segments (str ''hello'') = [str ''hello'']" "path_segments (str ''led'') = [str ''led'']"
    by (simp_all add: path_segments_def)
  have s: "short_path (str ''hello'')" "short_path (str ''led'')" unfolding short_path_def p using u by simp_all
  have ok: "buildable code uri mtype payload" if "0 \<le> mtype" "mtype < 4" "0 \<le> code" "code < 256" "short_path uri"
    for code uri mtype payload
    using that build_request_bytes unfolding buildable_def by (force simp: request_ok_def)
  assume "(tag, mtype, label, code, uri, payload) \<in> set measurements"
  then have "(code, uri, mtype) \<in> {CODE_GET, CODE_PUT} \<times> {str ''hello'', str ''led''} \<times> {TYPE_CON, TYPE_NON}"
    unfolding measurements_def cases_def by auto
  then show ?thesis using s by (intro ok) (auto simp: CODE_GET_def CODE_PUT_def TYPE_CON_def TYPE_NON_def)
qed

lemma run_measurements_ok:
  assumes "waits_end N (la_dtls a)" and "oserrors_only N (la_dtls a)"
    and "\<And>tag mtype label code uri payload. (tag, mtype, label, code, uri, payload) \<in> set ms \<Longrightarrow>
      buildable code uri mtype payload"
  shows "\<exists>out' w'. run_measurements N a ms out w = Some (Inr out', w')"
  using assms(3)
proof (induction ms arbitrary: out w)
  case (Cons m ms)
  obtain tag mtype label code uri payload where m: "m = (tag, mtype, label, code, uri, payload)" by (metis prod_cases6)
  then have b: "buildable code uri mtype payload" using Cons.prems [of tag mtype label code uri payload] by simp
  have ms: "buildable code uri mtype payload" if "(tag, mtype, label, code, uri, payload) \<in> set ms"
    for tag mtype label code uri payload using Cons.prems that by (meson list.set_intros(2))
  obtain x w1 where x: "urandom N 2 w = (x, w1)" by fastforce
  obtain st w2 where "measure_rtt N (la_dtls a) code uri mtype payload (la_count a) (la_warmup a) w = Some (Inr st, w2)"
    using measure_loop_ok [OF assms(1,2) b] by (force simp: measure_rtt_def x)
  with m Cons.IH [OF ms] show ?case by (cases st) simp
qed simp

text \<open>C39: on a network where every wait and every handshake ends, the latency tool ends. When it connects and
  the transport raises nothing but \<open>OSError\<close>s, it raises nothing either, however many requests are
  lost: it prints the six lines of its table in order, and each accounts for exactly the requested
  number of requests, samples and losses together.\<close>

theorem latency_main_accounts:
  assumes "waits_end N (la_dtls a)" and "la_dtls a \<Longrightarrow> \<forall>w. handshake_loop N w \<noteq> None"
    and "oserrors_only N (la_dtls a)"
  shows "\<exists>r w'. latency_main N a w = Some (r, w') \<and>
    (\<forall>w1 hs w2. transport_init N (la_dtls a) (la_timeout a) w = (None, w1) \<longrightarrow>
       transport_connect N (la_dtls a) (la_host a, tool_port (la_port a) (la_dtls a)) (la_timeout a) w1 = Some (Inr hs, w2) \<longrightarrow>
       (\<exists>out. r = Inr (if la_dtls a then Some hs else None, out) \<and>
          map report_name out = [''CON GET /hello'', ''CON GET /led'', ''CON PUT /led=1'',
            ''NON GET /hello'', ''NON GET /led'', ''NON PUT /led=1''] \<and>
          (\<forall>l \<in> set out. report_total l = max 0 (la_count a + min 0 (la_warmup a)))))"
proof -
  have names: "map case_name measurements = [''CON GET /hello'', ''CON GET /led'', ''CON PUT /led=1'',
      ''NON GET /hello'', ''NON GET /led'', ''NON PUT /led=1'']"
    by (simp add: measurements_def cases_def case_name_def)
  obtain x w1 where 1: "transport_init N (la_dtls a) (la_timeout a) w = (x, w1)" by fastforce
  let ?port = "tool_port (la_port a) (la_dtls a)"
  obtain y w2 where 2: "transport_connect N (la_dtls a) (la_host a, ?port) (la_timeout a) w1 = Some (y, w2)"
    using transport_connect_ends [OF assms(2)] by metis
  have "\<exists>out w3. run_measurements N a measurements [] w2 = Some (Inr out, w3)"
    by (rule run_measurements_ok [OF assms(1,3)]) (erule measurements_buildable)
  then obtain out w3 where 3: "run_measurements N a measurements [] w2 = Some (Inr out, w3)" by blast
  have "map report_name out = map case_name measurements \<and>
      (\<forall>l \<in> set out. report_total l = max 0 (la_count a + min 0 (la_warmup a)))"
    using run_measurements_ends [OF assms(1), of measurements "[]" w2] 3 by simp
  with 1 2 3 show ?thesis
    by (cases x; cases y) (simp_all add: latency_main_def Let_def names)
qed

text \<open>A network on which nothing ever arrives.\<close>

definition silent_net :: "unit pynet" where
  "silent_net = \<lparr>py_socket = (\<lambda>w. (None, w)), py_settimeout = (\<lambda>t w. w), py_wrap_dtls = (\<lambda>c w. (None, w)),
     py_connect = (\<lambda>d a w. (None, w)), py_handshake = (\<lambda>w. (Hs_done, w)), py_send = (\<lambda>d bs w. (None, w)),
     py_recv = (\<lambda>d n w. (Inl (OSError ''timed out''), w)), py_close = (\<lambda>d w. (None, w)),
     perf_counter = (\<lambda>w. (0, w)), urandom = (\<lambda>n w. (replicate n 7, w)), py_sleep = (\<lambda>t w. w), py_float = id\<rparr>"

theorem latency_main_accounts_witness:
  "\<exists>out. latency_main silent_net \<lparr>la_host = ''192.0.2.1'', la_port = None, la_dtls = False, la_count = 3,
       la_warmup = 1, la_timeout = 2\<rparr> () = Some (Inr (None, out), ()) \<and>
     length out = 6 \<and> (\<forall>l \<in> set out. report_total l = 3)"
proof -
  let ?a = "\<lparr>la_host = ''192.0.2.1'', la_port = None, la_dtls = False, la_count = 3, la_warmup = 1, la_timeout = 2\<rparr>"
  have "waits_end silent_net False" by (simp add: waits_end_def ends_wait_def silent_net_def)
  moreover have "oserrors_only silent_net False" by (auto simp: oserrors_only_def silent_net_def)
  moreover have "transport_init silent_net False 2 () = (None, ())"
    "transport_connect silent_net False (''192.0.2.1'', tool_port None False) 2 () = Some (Inr 0, ())"
    by (simp_all add: transport_init_def transport_connect_def silent_net_def)
  ultimately obtain out where "latency_main silent_net ?a () = Some (Inr (None, out), ())"
    "map report_name out = [''CON GET /hello'', ''CON GET /led'', ''CON PUT /led=1'',
       ''NON GET /hello'', ''NON GET /led'', ''NON PUT /led=1'']" "\<forall>l \<in> set out. report_total l = 3"
    using latency_main_accounts [of silent_net ?a "()"] by auto
  moreover from this(2) have "length out = 6" by (auto dest: arg_cong [where f = length])
  ultimately show ?thesis by blast
qed

end
