(* ===== verification/Coap_Cli.thy ===== *)
theory Coap_Cli
  imports Coap_Latency
begin

text \<open>
  scripts/coap_cli.py: one request from the command line over either transport, with the retries of
  the connection, the wait for the response and its reading; and the whole way of a plaintext request
  through the device's server and back.
\<close>

subsection \<open>Tables and the response\<close>

definition METHODS :: "(string \<times> int) list" where
  "METHODS = [(''get'', 1), (''post'', 2), (''put'', 3), (''delete'', 4)]"

definition TYPES :: "(string \<times> int) list" where
  "TYPES = [(''con'', 0), (''non'', 1)]"

definition CODE_NAMES :: "(string \<times> string) list" where
  "CODE_NAMES = [(''2.01'', ''Created''), (''2.02'', ''Deleted''), (''2.03'', ''Valid''), (''2.04'', ''Changed''),
     (''2.05'', ''Content''), (''4.00'', ''Bad Request''), (''4.01'', ''Unauthorized''), (''4.04'', ''Not Found''),
     (''4.05'', ''Method Not Allowed''), (''5.00'', ''Internal Server Error'')]"

text \<open>\<open>d[key]\<close> and \<open>d.get(key, "")\<close>.\<close>

definition lookup :: "(string \<times> int) list \<Rightarrow> string \<Rightarrow> pyexn + int" where
  "lookup d key = (case map_of d key of None \<Rightarrow> Inl KeyError | Some v \<Rightarrow> Inr v)"

definition code_name :: "string \<Rightarrow> string" where
  "code_name s = (case map_of CODE_NAMES s of None \<Rightarrow> '''' | Some n \<Rightarrow> n)"

text \<open>\<open>f"{code >> 5}.{code & 0x1f:02d}"\<close>.\<close>

definition code_text :: "u8 \<Rightarrow> string" where
  "code_text code = digit (unat (drop_bit 5 code)) # CHR ''.'' # fmt_02d (unat (code AND 0x1f))"

definition parse_response :: "u8 list \<Rightarrow> string \<times> string \<times> u8 list" where
  "parse_response dgram =
     (if length dgram < 4 then (''(short)'', '''', [])
      else
        let code_str = code_text (dgram ! 1);
            marker = find_from 0xff (4 + unat (dgram ! 0 AND 0x0f)) dgram;
            payload = (case marker of None \<Rightarrow> [] | Some i \<Rightarrow> drop (i + 1) dgram)
        in (code_str, code_name code_str, payload))"

definition reading :: "coap_msg \<Rightarrow> string \<times> string \<times> u8 list" where
  "reading m = (code_text (m_code m), code_name (code_text (m_code m)),
                case m_payload m of None \<Rightarrow> [] | Some bs \<Rightarrow> bs)"

lemma unat_low_nibble: "unat ((x :: u8) AND 0x0f) = unat x mod 16"
proof -
  have "(0x0f :: u8) = mask 4" by (simp add: mask_eq_exp_minus_1)
  then have "x AND 0x0f = take_bit 4 x" by (simp only: take_bit_eq_mask)
  then show ?thesis by (simp add: unsigned_take_bit_eq take_bit_eq_mod unat_mod)
qed

text \<open>Every response without options is read correctly, whatever bytes its token and payload hold (0xff included).\<close>

lemma parse_response_reading:
  assumes "rfc_decode dgram = Some (m, [])"
  shows "parse_response dgram = reading m"
proof -
  let ?k = "4 + unat (dgram ! 0) mod 16"
  from assms obtain pl where d: "4 \<le> length dgram" "?k \<le> length dgram"
    "rfc_options (length dgram) 0 (drop ?k dgram) = Some ([], pl)" "m_code m = dgram ! 1" "m_payload m = pl"
    by (rule rfc_decode_fields) simp
  from rfc_options_none [OF d(3)] show ?thesis
  proof
    assume "drop ?k dgram = [] \<and> pl = None"
    with d show ?thesis
      by (simp add: parse_response_def reading_def find_from_def unat_low_nibble Let_def)
  next
    assume "\<exists>q. q \<noteq> [] \<and> drop ?k dgram = 0xff # q \<and> pl = Some q"
    then obtain q where q: "drop ?k dgram = 0xff # q" "pl = Some q" by blast
    have "drop (?k + 1) dgram = drop 1 (drop ?k dgram)" by (simp add: add.commute)
    with q have "drop (?k + 1) dgram = q" by simp
    with d q show ?thesis
      by (simp add: parse_response_def reading_def find_from_def unat_low_nibble Let_def)
  qed
qed

subsection \<open>Connecting\<close>

definition close_quietly :: "'w pynet \<Rightarrow> bool \<Rightarrow> 'w \<Rightarrow> 'w" where
  "close_quietly N dtls w = snd (py_close N dtls w)"

record cli_args =
  ca_method :: string
  ca_path :: pystr
  ca_payload :: "pystr option"
  ca_dtls :: bool
  ca_host :: string
  ca_port :: "int option"
  ca_type :: string
  ca_timeout :: real
  ca_retries :: int

text \<open>The attempts that are left; \<open>lst\<close> is the exception of the last one.\<close>

fun open_attempts ::
  "'w pynet \<Rightarrow> cli_args \<Rightarrow> int \<Rightarrow> int list \<Rightarrow> pyexn option \<Rightarrow> 'w \<Rightarrow> ((pyexn + real) \<times> 'w) option" where
  "open_attempts N a port [] lst w = Some (Inl (Connect_failed (ca_host a) port (ca_retries a) lst), w)"
| "open_attempts N a port (attempt # attempts) lst w =
     (case transport_init N (ca_dtls a) (ca_timeout a) w of
        (Some e, w) \<Rightarrow> Some (Inl e, w)
      | (None, w) \<Rightarrow>
          (case transport_connect N (ca_dtls a) (ca_host a, port) (ca_timeout a) w of
             None \<Rightarrow> None
           | Some (Inr hs, w) \<Rightarrow> Some (Inr hs, w)
           | Some (Inl e, w) \<Rightarrow>
               if is_oserror e
               then let w = close_quietly N (ca_dtls a) w;
                        w = (if attempt < ca_retries a then py_sleep N (3 / 10) w else w)
                    in open_attempts N a port attempts (Some e) w
               else Some (Inl e, w)))"

definition open_transport :: "'w pynet \<Rightarrow> cli_args \<Rightarrow> int \<Rightarrow> 'w \<Rightarrow> ((pyexn + real) \<times> 'w) option" where
  "open_transport N a port w = open_attempts N a port [1..ca_retries a] None w"

subsection \<open>main\<close>

text \<open>The body of the \<open>try\<close> after connecting: what it raises or reads from the response.\<close>

definition cli_exchange ::
  "'w pynet \<Rightarrow> cli_args \<Rightarrow> int \<Rightarrow> u8 list option \<Rightarrow> 'w \<Rightarrow> ((pyexn + string \<times> string \<times> u8 list) \<times> 'w) option" where
  "cli_exchange N a port payload w =
     (let (m, w) = urandom N 2 w; mid = unpack_H m
      in case (lookup METHODS (ca_method a), lookup TYPES (ca_type a)) of
           (Inl e, _) \<Rightarrow> Some (Inl e, w)
         | (_, Inl e) \<Rightarrow> Some (Inl e, w)
         | (Inr code, Inr mtype) \<Rightarrow>
             (let (token, w) = urandom N 4 w
              in case build_request code (ca_path a) mtype mid token payload of
                   Inl e \<Rightarrow> Some (Inl e, w)
                 | Inr req \<Rightarrow>
                     (case py_send N (ca_dtls a) req w of
                        (Some e, w) \<Rightarrow> Some (Inl e, w)
                      | (None, w) \<Rightarrow>
                          (case await N (ca_dtls a) mid w of
                             None \<Rightarrow> None
                           | Some (Inl e, w) \<Rightarrow>
                               Some (Inl (if is_oserror e then No_response (ca_host a) port e else e), w)
                           | Some (Inr dgram, w) \<Rightarrow> Some (Inr (parse_response dgram), w)))))"

text \<open>The result of a run: an exception, or the handshake time (over DTLS) and what it prints of the response.\<close>

definition coap_cli_main ::
  "'w pynet \<Rightarrow> cli_args \<Rightarrow> 'w \<Rightarrow> ((pyexn + real option \<times> string \<times> string \<times> u8 list) \<times> 'w) option" where
  "coap_cli_main N a w =
     (let port = tool_port (ca_port a) (ca_dtls a)
      in case (case ca_payload a of None \<Rightarrow> Some None | Some t \<Rightarrow> map_option Some (utf8 t)) of
           None \<Rightarrow> Some (Inl UnicodeEncodeError, w)
         | Some payload \<Rightarrow>
             (case open_transport N a port w of
                None \<Rightarrow> None
              | Some (Inl e, w) \<Rightarrow> Some (Inl e, w)
              | Some (Inr hs, w) \<Rightarrow>
                  (case cli_exchange N a port payload w of
                     None \<Rightarrow> None
                   | Some (r, w) \<Rightarrow>
                       Some (map_sum id (\<lambda>rsp. (if ca_dtls a then Some hs else None, rsp)) r,
                             close_quietly N (ca_dtls a) w))))"

subsection \<open>Ending and closing\<close>

lemma open_attempts_ends:
  assumes "ca_dtls a \<Longrightarrow> \<forall>w. handshake_loop N w \<noteq> None"
  shows "\<exists>r w'. open_attempts N a port attempts lst w = Some (r, w')"
proof (induction attempts arbitrary: lst w)
  case (Cons attempt attempts)
  obtain x w1 where 1: "transport_init N (ca_dtls a) (ca_timeout a) w = (x, w1)" by fastforce
  obtain y w2 where 2: "transport_connect N (ca_dtls a) (ca_host a, port) (ca_timeout a) w1 = Some (y, w2)"
    using transport_connect_ends [OF assms] by metis
  show ?case using 1 2 Cons.IH by (cases x; cases y) (simp_all add: Let_def)
qed simp

lemma cli_exchange_ends:
  assumes "waits_end N (ca_dtls a)"
  shows "\<exists>r w'. cli_exchange N a port payload w = Some (r, w')"
proof -
  have h: "await N (ca_dtls a) mid v = None \<Longrightarrow> False" for mid v
    using await_ends [OF assms, of mid v] by auto
  show ?thesis
    by (auto dest: h simp: cli_exchange_def Let_def split: prod.splits sum.splits option.splits)
qed

definition cli_payload :: "cli_args \<Rightarrow> u8 list option option" where
  "cli_payload a = (case ca_payload a of None \<Rightarrow> Some None | Some t \<Rightarrow> map_option Some (utf8 t))"

lemma coap_cli_main_payload:
  "coap_cli_main N a w =
     (case cli_payload a of
        None \<Rightarrow> Some (Inl UnicodeEncodeError, w)
      | Some payload \<Rightarrow>
          (case open_transport N a (tool_port (ca_port a) (ca_dtls a)) w of
             None \<Rightarrow> None
           | Some (Inl e, w) \<Rightarrow> Some (Inl e, w)
           | Some (Inr hs, w) \<Rightarrow>
               map_option (\<lambda>(r, w). (map_sum id (\<lambda>rsp. (if ca_dtls a then Some hs else None, rsp)) r,
                                     close_quietly N (ca_dtls a) w))
                 (cli_exchange N a (tool_port (ca_port a) (ca_dtls a)) payload w)))"
  unfolding coap_cli_main_def cli_payload_def Let_def
  by (simp add: map_option_case case_prod_beta cong: option.case_cong sum.case_cong)

text \<open>On a network where every wait and every handshake ends, the command-line client ends, and whatever
  happens after it has connected, a response, no response, a malformed request or any other
  exception, the last thing it does is close the transport.\<close>

lemma cli_ends_closed:
  assumes "waits_end N (ca_dtls a)" and "ca_dtls a \<Longrightarrow> \<forall>w. handshake_loop N w \<noteq> None"
  shows "\<exists>r w'. coap_cli_main N a w = Some (r, w') \<and>
    (\<forall>hs w1. cli_payload a \<noteq> None \<longrightarrow> open_transport N a (tool_port (ca_port a) (ca_dtls a)) w = Some (Inr hs, w1) \<longrightarrow>
       (\<exists>w2. w' = close_quietly N (ca_dtls a) w2))"
proof (cases "cli_payload a")
  case None
  then show ?thesis by (simp add: coap_cli_main_payload)
next
  case (Some payload)
  let ?port = "tool_port (ca_port a) (ca_dtls a)"
  obtain x w1 where 1: "open_transport N a ?port w = Some (x, w1)"
    using open_attempts_ends [OF assms(2)] unfolding open_transport_def by metis
  obtain r w2 where 2: "cli_exchange N a ?port payload w1 = Some (r, w2)" using cli_exchange_ends [OF assms(1)] by blast
  show ?thesis using 1 2 Some by (cases x) (auto simp: coap_cli_main_payload)
qed

subsection \<open>A plaintext request through the device\<close>

text \<open>The resource table routes a request to \<open>app_request\<close> by its path and method.\<close>

definition routed :: "coap_resource \<Rightarrow> coap_msg \<Rightarrow> bool" where
  "routed res m \<longleftrightarrow> path res = m_path m \<and>
     (m_code m = COAP_METHOD_GET \<and> get_method res = Some App_request \<or>
      m_code m = COAP_METHOD_PUT \<and> put_method res = Some App_request)"

text \<open>
  The link: a plaintext datagram is lost or parsed by the device's CoAP server, which calls the handler
  of the resource it is routed to; what is received at \<open>addr\<close> are packets the device sent there;
  nothing else on the host touches the device. Random bytes come in the number asked for.
\<close>

definition cli_link ::
  "'w pynet \<Rightarrow> ('m, 'o) coap_lib \<Rightarrow> ('v, 'm, 'a) platform \<Rightarrow> ('m coap_packet_scheme \<Rightarrow> coap_msg) \<Rightarrow> u16 \<Rightarrow> 'a \<Rightarrow>
   ('w \<Rightarrow> ('v, 'm, 'a, 'z) server_state_scheme) \<Rightarrow> bool" where
  "cli_link N C P V msg_size addr dev \<longleftrightarrow>
     (\<forall>bs w e w'. py_send N False bs w = (e, w') \<longrightarrow> dev w' = dev w \<or>
        length bs < 65536 \<and> (\<exists>k p. coap_packet_parse C bs (of_nat (length bs)) = (k, p) \<and> 0 \<le> k \<and>
          (\<forall>res \<in> {hello_resource, led_resource}. routed res (V p) \<longrightarrow>
             dev w' = snd (app_request C P msg_size (dev w) res p addr)))) \<and>
     (\<forall>n w x w'. py_recv N False n w = (x, w') \<longrightarrow> dev w' = dev w \<and>
        (\<forall>d. x = Inr d \<longrightarrow> (\<exists>q. (q, addr) \<in> set (sent (dev w)) \<and> d = wire q)))"

definition cli_quiet :: "'w pynet \<Rightarrow> ('w \<Rightarrow> 'v) \<Rightarrow> bool" where
  "cli_quiet N dev \<longleftrightarrow>
     (\<forall>w. dev (snd (py_socket N w)) = dev w) \<and> (\<forall>t w. dev (py_settimeout N t w) = dev w) \<and>
     (\<forall>a w x w'. py_connect N False a w = (x, w') \<longrightarrow> dev w' = dev w) \<and>
     (\<forall>w x w'. py_close N False w = (x, w') \<longrightarrow> dev w' = dev w) \<and>
     (\<forall>n w x w'. urandom N n w = (x, w') \<longrightarrow> dev w' = dev w \<and> length x = n) \<and>
     (\<forall>t w. dev (py_sleep N t w) = dev w)"

lemma cli_quiet_open:
  assumes "cli_quiet N dev" and "\<not> ca_dtls a"
    and "open_attempts N a port attempts lst w = Some (r, w')"
  shows "dev w' = dev w"
  using assms(3)
proof (induction attempts arbitrary: lst w)
  case (Cons attempt attempts)
  have c: "dev (close_quietly N False v) = dev v" "dev (py_sleep N t v) = dev v" for v t
    using assms(1) by (simp_all add: cli_quiet_def close_quietly_def) (metis prod.collapse)
  obtain e w0 where 0: "py_socket N w = (e, w0)" by fastforce
  then have w0: "dev w0 = dev w" using assms(1) unfolding cli_quiet_def by (metis snd_conv)
  obtain x w1 where x: "py_connect N False (ca_host a, port) (py_settimeout N (ca_timeout a) w0) = (x, w1)"
    by fastforce
  then have w1: "dev w1 = dev w" using assms(1) w0 by (simp add: cli_quiet_def)
  from Cons.prems assms(2) 0 w0 x w1 Cons.IH c show ?case
    by (cases e; cases x) (auto simp: transport_init_def transport_connect_def Let_def split: if_splits)
qed simp

lemma after_recv_link: "cli_link N C P V msg_size addr dev \<Longrightarrow> dev (after_recv N False n w) = dev w"
proof (induction n arbitrary: w)
  case (Suc n)
  have "dev (snd (py_recv N False 1500 w)) = dev w" using Suc.prems unfolding cli_link_def by (metis prod.collapse)
  with Suc show ?case by simp
qed simp

text \<open>A packet the plaintext handler adds to those sent is the specified response, laid out as its message.\<close>

lemma app_request_sent:
  assumes "coap_laws C V W" and "layout_law C V" and "uri_ok C req"
    and "s' = snd (app_request C P msg_size s res req addr)"
    and "(q, addr) \<in> set (sent s')" and "(q, addr) \<notin> set (sent s)"
  shows "(V q, led_state s') = server_spec (led_state s) (V req)" "rfc_decode (wire q) = Some (V q, [])"
proof -
  obtain r p s0 where d: "coap_server_dispatch_inner C P s req msg_size = (r, p, s0)"
    by (cases "coap_server_dispatch_inner C P s req msg_size")
  have s0: "sent s0 = sent s" by (rule dispatch_silent [OF assms(1) d])
  with assms(4-6) d have "0 \<le> r" "q = p" "led_state s' = led_state s0"
    by (auto simp: app_request_def resource_send_def split: prod.splits if_splits)
  with dispatch_spec [OF assms(1,3) d] dispatch_wire [OF assms(1,2) d]
  show "(V q, led_state s') = server_spec (led_state s) (V req)" "rfc_decode (wire q) = Some (V q, [])" by auto
qed

lemma cli_exchange_run:
  assumes "cli_exchange N a port payload w = Some (Inr rsp, w')"
  obtains m w1 code mtype token w2 req w3 dgram where
    "urandom N 2 w = (m, w1)" "map_of METHODS (ca_method a) = Some code" "map_of TYPES (ca_type a) = Some mtype"
    "urandom N 4 w1 = (token, w2)" "build_request code (ca_path a) mtype (unpack_H m) token payload = Inr req"
    "py_send N (ca_dtls a) req w2 = (None, w3)" "await N (ca_dtls a) (unpack_H m) w3 = Some (Inr dgram, w')"
    "rsp = parse_response dgram"
  using assms
  by (auto simp: cli_exchange_def lookup_def Let_def split: prod.splits sum.splits option.splits if_splits)

lemma map_sum_Inr: "map_sum f g x = Inr b \<longleftrightarrow> (\<exists>a. x = Inr a \<and> b = g a)"
  by (cases x) auto

lemma unpack_H_range: "0 \<le> unpack_H bs" "unpack_H bs < 65536"
proof -
  have "uint (bs ! 0) < 256" "uint (bs ! 1) < 256" using unsigned_less [of "bs ! 0"] unsigned_less [of "bs ! 1"] by simp_all
  then show "0 \<le> unpack_H bs" "unpack_H bs < 65536" unfolding unpack_H_def by simp_all
qed

definition served_request :: "cli_args \<Rightarrow> bool" where
  "served_request a \<longleftrightarrow> short_path (ca_path a) \<and> ca_payload a \<noteq> Some [] \<and>
     (ca_method a, path_text (ca_path a)) \<in> {(''get'', [''hello'']), (''get'', [''led'']), (''put'', [''led''])}"

lemma served_request_routed:
  assumes "served_request a" and "map_of METHODS (ca_method a) = Some code"
  shows "0 \<le> code" "code < 256"
    "\<exists>res \<in> {hello_resource, led_resource}. routed res (request_of code (ca_path a) mtype mid token payload)"
  using assms
  by (auto simp: served_request_def METHODS_def routed_def request_of_def hello_resource_def led_resource_def
      hello_path_def led_path_def coap_consts split: if_splits)

text \<open>The exchange itself: what the client reads is the specified answer, and the device did what is specified.\<close>

lemma cli_exchange_served:
  assumes laws: "coap_laws C V W" "layout_law C V" "parse_rfc_law C V"
    and link: "cli_link N C P V msg_size addr dev" "cli_quiet N dev"
    and fresh: "\<And>q. (q, addr) \<notin> set (sent (dev w))"
    and req: "\<not> ca_dtls a" "served_request a" "cli_payload a = Some payload"
    and run: "cli_exchange N a port payload w = Some (Inr rsp, w')"
  shows "\<exists>code mtype mid token. map_of METHODS (ca_method a) = Some code \<and>
    (\<exists>q. rsp = reading q \<and> (q, led_state (dev w')) =
       server_spec (led_state (dev w)) (request_of code (ca_path a) mtype mid token payload))"
proof -
  obtain m w1 code mtype token w2 bs w3 dgram where r: "urandom N 2 w = (m, w1)"
    "map_of METHODS (ca_method a) = Some code" "map_of TYPES (ca_type a) = Some mtype"
    "urandom N 4 w1 = (token, w2)" "build_request code (ca_path a) mtype (unpack_H m) token payload = Inr bs"
    "py_send N (ca_dtls a) bs w2 = (None, w3)" "await N (ca_dtls a) (unpack_H m) w3 = Some (Inr dgram, w')"
    "rsp = parse_response dgram" using run by (rule cli_exchange_run)
  let ?req = "request_of code (ca_path a) mtype (unpack_H m) token payload"
  have w2: "dev w2 = dev w" "length token = 4" using link(2) r(1,4) unfolding cli_quiet_def by metis+
  have "0 \<le> mtype" "mtype < 4" using r(3) by (auto simp: TYPES_def split: if_splits)
  with served_request_routed(1,2) [OF req(2) r(2)] w2(2) unpack_H_range [of m] req(2)
  have ok: "request_ok code (ca_path a) mtype (unpack_H m) token" by (simp add: request_ok_def served_request_def)
  have "payload \<noteq> Some []" using req(2,3) utf8_nonempty
    by (auto simp: cli_payload_def served_request_def split: option.splits)
  with build_request_decodes [OF ok r(5)]
  have dec: "rfc_decode bs = Some (?req, map (Pair 11) (encoded_segments (ca_path a)))" by simp
  obtain n where n: "py_recv N False 1500 (after_recv N False n w3) = (Inr dgram, w')"
    using await_answer(2) [OF r(7)] req(1) by auto
  then obtain q where q: "(q, addr) \<in> set (sent (dev w3))" "dgram = wire q" and w': "dev w' = dev w3"
    using link(1) after_recv_link [OF link(1), of n w3] unfolding cli_link_def by metis
  have "dev w3 \<noteq> dev w2" using fresh q(1) w2(1) by metis
  then obtain k p where p: "coap_packet_parse C bs (of_nat (length bs)) = (k, p)" "0 \<le> k" "length bs < 65536"
    "\<forall>res \<in> {hello_resource, led_resource}. routed res (V p) \<longrightarrow>
       dev w3 = snd (app_request C P msg_size (dev w2) res p addr)"
    using link(1) r(6) req(1) unfolding cli_link_def by metis
  have V: "V p = ?req" "uri_ok C p" using laws(3) dec p unfolding parse_rfc_law_def by blast+
  then obtain res where res: "dev w3 = snd (app_request C P msg_size (dev w2) res p addr)"
    using served_request_routed(3) [OF req(2) r(2)] p(4) by metis
  note sent = app_request_sent [OF laws(1,2) V(2) res q(1)]
  have "(V q, led_state (dev w3)) = server_spec (led_state (dev w)) ?req" "rfc_decode (wire q) = Some (V q, [])"
    using sent fresh w2(1) V(1) by metis+
  with parse_response_reading [of "wire q"] r(2,8) q(2) w' show ?thesis by metis
qed

text \<open>C13: a plaintext request of the command-line client that the device serves (GET /hello, GET /led,
  PUT /led, each path segment of at most twelve bytes, no empty payload) end to end, to a device that
  has sent nothing to the client's address before: if the client prints a response at all, it is the response the server
  specification gives to exactly that request, with its code, its name and its payload, and the
  device's LED is where the specification puts it. It holds for every loss of datagrams, every other
  traffic that is not addressed to the client, and any number of connection attempts.\<close>

theorem cli_end_to_end:
  assumes laws: "coap_laws C V W" "layout_law C V" "parse_rfc_law C V"
    and link: "cli_link N C P V msg_size addr dev" "cli_quiet N dev"
    and fresh: "\<And>q. (q, addr) \<notin> set (sent (dev w))"
    and req: "\<not> ca_dtls a" "served_request a"
    and run: "coap_cli_main N a w = Some (Inr (hs, rsp), w')"
  shows "\<exists>code mtype mid token payload q. map_of METHODS (ca_method a) = Some code \<and> cli_payload a = Some payload \<and>
    (q, led_state (dev w')) = server_spec (led_state (dev w)) (request_of code (ca_path a) mtype mid token payload) \<and>
    rsp = (code_text (m_code q), code_name (code_text (m_code q)), case m_payload q of None \<Rightarrow> [] | Some bs \<Rightarrow> bs)"
proof -
  let ?port = "tool_port (ca_port a) False"
  obtain payload hs' w1 w2 where 1: "cli_payload a = Some payload" "open_transport N a ?port w = Some (Inr hs', w1)"
    "cli_exchange N a ?port payload w1 = Some (Inr rsp, w2)" "w' = close_quietly N False w2"
    using run req(1) by (auto simp: coap_cli_main_payload split: option.splits sum.splits simp: map_sum_Inr)
  have "dev w1 = dev w" using cli_quiet_open [OF link(2) req(1)] 1(2) by (simp add: open_transport_def)
  moreover have "dev w' = dev w2" using 1(4) link(2) unfolding cli_quiet_def close_quietly_def by (metis prod.collapse)
  ultimately show ?thesis
    using cli_exchange_served [OF laws link _ req 1(1,3)] fresh 1(1) unfolding reading_def by metis
qed

subsection \<open>A request on the concrete device\<close>

text \<open>The world is the device; a datagram it can route is served at once, and its last answer is received.\<close>

type_synonym cli_device = "(bool, coap_msg, unit) server_state"

definition deliver :: "cli_device \<Rightarrow> u8 list \<Rightarrow> cli_device" where
  "deliver d bs =
     (let (k, p) = rfc_parse bs (of_nat (length bs))
      in if k < 0 \<or> 65536 \<le> length bs then d
         else if routed hello_resource (ref_view p) then snd (app_request rfc_lib ref_platform 64 d hello_resource p ())
         else if routed led_resource (ref_view p) then snd (app_request rfc_lib ref_platform 64 d led_resource p ())
         else d)"

definition cli_net :: "cli_device pynet" where
  "cli_net = \<lparr>py_socket = (\<lambda>w. (None, w)), py_settimeout = (\<lambda>t w. w), py_wrap_dtls = (\<lambda>c w. (None, w)),
     py_connect = (\<lambda>d a w. (None, w)), py_handshake = (\<lambda>w. (Hs_done, w)), py_send = (\<lambda>d bs w. (None, deliver w bs)),
     py_recv = (\<lambda>d n w. (if sent w = [] then Inl (OSError ''timed out'') else Inr (wire (fst (last (sent w)))), w)),
     py_close = (\<lambda>d w. (None, w)), perf_counter = (\<lambda>w. (0, w)), urandom = (\<lambda>n w. (replicate n 7, w)),
     py_sleep = (\<lambda>t w. w), py_float = id\<rparr>"

lemma routed_disjoint: "routed hello_resource m \<Longrightarrow> \<not> routed led_resource m"
proof -
  have "hello_path \<noteq> led_path" by (simp add: hello_path_def led_path_def)
  then show "routed hello_resource m \<Longrightarrow> \<not> routed led_resource m"
    by (auto simp: routed_def hello_resource_def led_resource_def)
qed

lemma cli_net_link: "cli_link cli_net rfc_lib ref_platform ref_view 64 () id"
proof -
  have "last xs = (fst (last xs), ())" for xs :: "(coap_msg coap_packet_scheme \<times> unit) list" by (metis prod.collapse unit_eq)
  then have "xs \<noteq> [] \<Longrightarrow> (fst (last xs), ()) \<in> set xs" for xs :: "(coap_msg coap_packet_scheme \<times> unit) list"
    by (metis last_in_set)
  then have "(\<forall>n w x w'. py_recv cli_net False n w = (x, w') \<longrightarrow> id w' = id w \<and>
      (\<forall>d. x = Inr d \<longrightarrow> (\<exists>q. (q, ()) \<in> set (sent (id w)) \<and> d = wire q)))"
    by (auto simp: cli_net_def split: if_splits)
  moreover have "deliver w bs = w \<or> length bs < 65536 \<and> (\<exists>k p. rfc_parse bs (of_nat (length bs)) = (k, p) \<and> 0 \<le> k \<and>
      (\<forall>res \<in> {hello_resource, led_resource}. routed res (ref_view p) \<longrightarrow>
        deliver w bs = snd (app_request rfc_lib ref_platform 64 w res p ())))" for w bs
    using routed_disjoint by (auto simp: deliver_def Let_def split: prod.splits if_splits)
  ultimately show ?thesis by (simp add: cli_link_def cli_net_def)
qed

lemma cli_net_quiet: "cli_quiet cli_net id"
  by (simp add: cli_quiet_def cli_net_def)

lemma decode_answers:
  assumes "rfc_decode dgram = Some (m, os)"
  shows "answers (uint (m_id m)) dgram"
proof -
  from assms have l: "4 \<le> length dgram" and i: "m_id m = of_nat (256 * unat (dgram ! 2) + unat (dgram ! 3))"
    by (auto elim!: rfc_decode_fields)
  have b: "unat (dgram ! 2) < 256" "unat (dgram ! 3) < 256" by (rule unat_u8_lt)+
  then have "unat (m_id m) = 256 * unat (dgram ! 2) + unat (dgram ! 3)"
    unfolding i by (intro unat_of_nat_u16) linarith
  then have "int (unat (m_id m)) = 256 * int (unat (dgram ! 2)) + int (unat (dgram ! 3))" by simp
  then have "uint (m_id m) = 256 * uint (dgram ! 2) + uint (dgram ! 3)" by simp
  with l show ?thesis by (simp add: answers_def unpack_H_def)
qed

definition put_led_args :: cli_args where
  "put_led_args = \<lparr>ca_method = ''put'', ca_path = str ''led'', ca_payload = Some (str ''on''), ca_dtls = False,
     ca_host = ''192.0.2.1'', ca_port = None, ca_type = ''con'', ca_timeout = 2, ca_retries = 3\<rparr>"

lemma put_led_path: "short_path (str ''led'')" "path_text (str ''led'') = [''led'']"
proof -
  have u: "utf8 (str ''led'') = Some (bytes ''led'')" by (rule utf8_ascii) simp
  have p: "path_segments (str ''led'') = [str ''led'']" by (simp add: path_segments_def)
  show "short_path (str ''led'')" unfolding short_path_def p using u by simp
  show "path_text (str ''led'') = [''led'']" unfolding path_text_def p list.map u option.sel chars_bytes by simp
qed

lemma put_led_payload: "cli_payload put_led_args = Some (Some (bytes ''on''))"
proof -
  have "utf8 (str ''on'') = Some (bytes ''on'')" by (rule utf8_ascii) simp
  then show ?thesis unfolding cli_payload_def put_led_args_def by simp
qed

lemma put_led_delivered:
  assumes "build_request 3 (str ''led'') 0 1799 (replicate 4 7) (Some (bytes ''on'')) = Inr bs"
  obtains q where "sent (deliver boot_state bs) = [(q, ())]" "answers 1799 (wire q)"
proof -
  let ?req = "request_of 3 (str ''led'') 0 1799 (replicate 4 7) (Some (bytes ''on''))"
  have ok: "request_ok 3 (str ''led'') 0 1799 (replicate 4 7)" using put_led_path(1) by (simp add: request_ok_def)
  have dec: "rfc_decode bs = Some (?req, map (Pair 11) (encoded_segments (str ''led'')))"
    using build_request_decodes [OF ok assms] by simp
  have e: "encoded_segments (str ''led'') = [bytes ''led'']"
  proof -
    have "utf8 (str ''led'') = Some (bytes ''led'')" by (rule utf8_ascii) simp
    moreover have "path_segments (str ''led'') = [str ''led'']" by (simp add: path_segments_def)
    ultimately show ?thesis by (simp only: encoded_segments_def list.map o_def option.sel)
  qed
  have n: "length bs < 65536" using assms unfolding build_request_bytes [OF ok] e by auto
  obtain k p where p: "rfc_parse bs (of_nat (length bs)) = (k, p)" by fastforce
  have k: "k = 0" using p dec n by (simp add: rfc_parse_def unat_of_nat_u16)
  have V: "ref_view p = ?req"
    using rfc_parse_rfc_law dec n p k unfolding parse_rfc_law_def rfc_lib_sel by blast
  have "routed led_resource (ref_view p)"
    unfolding V routed_def request_of_def put_led_path(2)
    by (simp add: led_resource_def led_path_def coap_consts)
  with routed_disjoint have "deliver boot_state bs = snd (app_request rfc_lib ref_platform 64 boot_state led_resource p ())"
    using p k n by (auto simp: deliver_def)
  moreover obtain r q s0 where d: "coap_server_dispatch_inner rfc_lib ref_platform boot_state p 64 = (r, q, s0)"
    by (cases "coap_server_dispatch_inner rfc_lib ref_platform boot_state p 64")
  have r: "0 \<le> r" by (rule dispatch_fits [OF rfc_coap_laws rfc_space_laws _ d]) simp
  moreover have "sent s0 = []" using dispatch_silent [OF rfc_coap_laws d] by (simp add: boot_state_def)
  ultimately have "sent (deliver boot_state bs) = [(q, ())]"
    by (simp add: app_request_def d resource_send_def split: prod.splits)
  moreover have "m_id (ref_view q) = 1799" using dispatch_echo [OF rfc_coap_laws d r] by (simp add: V request_of_def)
  then have "answers 1799 (wire q)" using decode_answers [OF dispatch_wire [OF rfc_coap_laws rfc_layout_law d r]] by simp
  ultimately show thesis by (rule that)
qed

lemma put_led_run: "\<exists>rsp w'. coap_cli_main cli_net put_led_args boot_state = Some (Inr (None, rsp), w')"
proof -
  obtain bs where b: "build_request 3 (str ''led'') 0 1799 (replicate 4 7) (Some (bytes ''on'')) = Inr bs"
    using build_request_bytes [of 3 "str ''led''" 0 1799 "replicate 4 7"] put_led_path(1) by (simp add: request_ok_def)
  then obtain q where q: "sent (deliver boot_state bs) = [(q, ())]" "answers 1799 (wire q)" by (rule put_led_delivered)
  have a: "ca_method put_led_args = ''put''" "ca_path put_led_args = str ''led''" "ca_type put_led_args = ''con''"
    "ca_dtls put_led_args = False" "ca_retries put_led_args = 3"
    by (simp_all add: put_led_args_def)
  have net: "urandom cli_net n w = (replicate n 7, w)" "py_send cli_net False x w = (None, deliver w x)"
    "py_recv cli_net False n w =
       (if sent w = [] then Inl (OSError ''timed out'') else Inr (wire (fst (last (sent w)))), w)"
    "py_connect cli_net False ad w = (None, w)" "py_socket cli_net w = (None, w)" "py_settimeout cli_net t w = w"
    for n w x ad t by (simp_all add: cli_net_def)
  have "ends_wait cli_net False 1799 (deliver boot_state bs)" using q by (simp add: ends_wait_def net)
  then have w: "await cli_net False 1799 (deliver boot_state bs) = Some (Inr (wire q), deliver boot_state bs)"
    using q(1) by (simp add: await_unfold net)
  have m: "unpack_H (replicate 2 7) = 1799" by (simp add: unpack_H_def)
  have l: "lookup METHODS ''put'' = Inr 3" "lookup TYPES ''con'' = Inr 0" by (simp_all add: lookup_def METHODS_def TYPES_def)
  have "cli_exchange cli_net put_led_args port (Some (bytes ''on'')) boot_state =
      Some (Inr (parse_response (wire q)), deliver boot_state bs)" for port
    unfolding cli_exchange_def Let_def net prod.case m a l sum.case b option.case w ..
  moreover have "open_transport cli_net put_led_args port boot_state = Some (Inr 0, boot_state)" for port
    unfolding open_transport_def a
    by (simp add: upto.simps a transport_init_def transport_connect_def net)
  ultimately show ?thesis
    by (cases "parse_response (wire q)") (simp add: coap_cli_main_payload put_led_payload a)
qed

theorem cli_end_to_end_witness:
  "\<exists>rsp w'. coap_cli_main cli_net put_led_args boot_state = Some (Inr (None, rsp), w') \<and>
     led_state w' \<and> rsp = (''2.04'', ''Changed'', [])"
proof -
  obtain rsp w' where r: "coap_cli_main cli_net put_led_args boot_state = Some (Inr (None, rsp), w')"
    using put_led_run by blast
  have "served_request put_led_args" "\<not> ca_dtls put_led_args"
    using put_led_path by (simp_all add: served_request_def put_led_args_def str_def)
  from cli_end_to_end [OF rfc_coap_laws rfc_layout_law rfc_parse_rfc_law cli_net_link cli_net_quiet _ this(2,1) r]
  obtain code mtype mid token q where q: "map_of METHODS ''put'' = Some code"
    "(q, led_state w') = server_spec False (request_of code (str ''led'') mtype mid token (Some (bytes ''on'')))"
    "rsp = (code_text (m_code q), code_name (code_text (m_code q)), case m_payload q of None \<Rightarrow> [] | Some bs \<Rightarrow> bs)"
    by (auto simp: put_led_payload boot_state_def) (auto simp: put_led_args_def)
  then have "code = 3" by (simp add: METHODS_def)
  with q(2) have "m_code q = 0x44 \<and> m_payload q = None \<and> led_state w'"
    by (simp add: server_spec_def request_of_def put_led_path(2) [simplified] coap_consts ack_def onoff_spec_def)
  with q(3) r show ?thesis
    by (simp add: code_text_def code_name_def CODE_NAMES_def fmt_02d_def digit_def char_of_def bit_0)
qed

end
