(* ===== verification/Edhoc_Keys.thy ===== *)
theory Edhoc_Keys
  imports Client_Main Python_Lib
begin

text \<open>
  scripts/edhoc_keys.py: the generator of the credentials the device and the host client are built
  with. The X25519 keys of the cryptography package and the CBOR encoder are library code and
  parameters; the generation of a key pair, the credential values, the C initialisers they are written as, the two headers and the JSON file are modelled.
\<close>

subsection \<open>CBOR values and their canonical encoding\<close>

definition SUITE :: int where "SUITE = 0"
definition METHOD :: int where "METHOD = 3"

datatype pyval = PInt int | PBytes "u8 list" | PText pystr | PMap "(pyval \<times> pyval) list"

text \<open>
  The reference: RFC 8949's deterministic encoding with length-first key order, for maps whose keys
  stand in that order already.
\<close>

function canon :: "pyval \<Rightarrow> u8 list" and canon_pairs :: "(pyval \<times> pyval) list \<Rightarrow> u8 list" where
  "canon (PInt i) = cbor_enc (CInt i)"
| "canon (PBytes bs) = cbor_enc (CBytes bs)"
| "canon (PText t) = (case utf8 t of None \<Rightarrow> [] | Some bs \<Rightarrow> cbor_enc (CText bs))"
| "canon (PMap kvs) = cbor_head 5 (length kvs) @ canon_pairs kvs"
| "canon_pairs [] = []"
| "canon_pairs (kv # kvs) = canon (fst kv) @ canon (snd kv) @ canon_pairs kvs"
  by pat_completeness auto

termination
  by (relation "measure (case_sum size (size_list (\<lambda>x. Suc (size (fst x) + size (snd x)))))") (auto simp: size_prod_simp)

fun lex_less :: "u8 list \<Rightarrow> u8 list \<Rightarrow> bool" where
  "lex_less (x # xs) (y # ys) = (x < y \<or> x = y \<and> lex_less xs ys)"
| "lex_less xs ys = (xs = [] \<and> ys \<noteq> [])"

definition key_less :: "u8 list \<Rightarrow> u8 list \<Rightarrow> bool" where
  "key_less a b \<longleftrightarrow> length a < length b \<or> length a = length b \<and> lex_less a b"

fun ordered_keys :: "u8 list list \<Rightarrow> bool" where
  "ordered_keys (a # b # ks) = (key_less a b \<and> ordered_keys (b # ks))"
| "ordered_keys ks = True"

function canonical :: "pyval \<Rightarrow> bool" and canonical_pairs :: "(pyval \<times> pyval) list \<Rightarrow> bool" where
  "canonical (PInt i) = (- (2 ^ 64) \<le> i \<and> i < 2 ^ 64)"
| "canonical (PBytes bs) = (length bs < 2 ^ 64)"
| "canonical (PText t) = (\<exists>bs. utf8 t = Some bs \<and> length bs < 2 ^ 64)"
| "canonical (PMap kvs) = (length kvs < 2 ^ 64 \<and> ordered_keys (map (canon \<circ> fst) kvs) \<and> canonical_pairs kvs)"
| "canonical_pairs [] = True"
| "canonical_pairs (kv # kvs) = (canonical (fst kv) \<and> canonical (snd kv) \<and> canonical_pairs kvs)"
  by pat_completeness auto

termination
  by (relation "measure (case_sum size (size_list (\<lambda>x. Suc (size (fst x) + size (snd x)))))") (auto simp: size_prod_simp)

text \<open>
  The libraries: \<open>X25519PrivateKey.generate\<close> on a source of randomness, the serialisations of its keys,
  and \<open>cbor2.dumps(v, canonical=True)\<close>.
\<close>

datatype key_encoding = Encoding_Raw | Encoding_PEM | Encoding_DER
datatype private_format = Private_Raw | Private_PKCS8
datatype public_format = Public_Raw | Public_SubjectPublicKeyInfo
datatype key_encryption = NoEncryption | BestAvailableEncryption "u8 list"

record ('w, 'k, 'p) key_lib =
  generate :: "'w \<Rightarrow> 'k \<times> 'w"
  private_bytes :: "'k \<Rightarrow> key_encoding \<Rightarrow> private_format \<Rightarrow> key_encryption \<Rightarrow> u8 list"
  public_key :: "'k \<Rightarrow> 'p"
  public_bytes :: "'p \<Rightarrow> key_encoding \<Rightarrow> public_format \<Rightarrow> u8 list"
  dumps :: "pyval \<Rightarrow> u8 list"

definition dumps_law :: "('w, 'k, 'p) key_lib \<Rightarrow> bool" where
  "dumps_law L \<longleftrightarrow> (\<forall>v. canonical v \<longrightarrow> dumps L v = canon v)"

text \<open>
  Raw X25519 keys are 32 bytes, and the raw public key is a function of the raw private one
  (multiplication of the base point).
\<close>

definition x25519_law :: "('w, 'k, 'p) key_lib \<Rightarrow> (u8 list \<Rightarrow> u8 list) \<Rightarrow> bool" where
  "x25519_law L public \<longleftrightarrow> (\<forall>sk.
     length (private_bytes L sk Encoding_Raw Private_Raw NoEncryption) = 32 \<and>
     length (public_bytes L (public_key L sk) Encoding_Raw Public_Raw) = 32 \<and>
     public_bytes L (public_key L sk) Encoding_Raw Public_Raw =
       public (private_bytes L sk Encoding_Raw Private_Raw NoEncryption))"

definition gen_x25519 :: "('w, 'k, 'p) key_lib \<Rightarrow> 'w \<Rightarrow> (u8 list \<times> u8 list) \<times> 'w" where
  "gen_x25519 L w =
     (let (sk, w) = generate L w;
          priv = private_bytes L sk Encoding_Raw Private_Raw NoEncryption;
          pub = public_bytes L (public_key L sk) Encoding_Raw Public_Raw
      in ((priv, pub), w))"

lemma gen_x25519_pair:
  "x25519_law L public \<Longrightarrow> gen_x25519 L w = ((priv, pub), w') \<Longrightarrow>
   length priv = 32 \<and> length pub = 32 \<and> pub = public priv"
  unfolding gen_x25519_def x25519_law_def Let_def split_beta by (metis prod.inject)

subsection \<open>Credentials\<close>

definition ccs :: "('w, 'k, 'p) key_lib \<Rightarrow> pystr \<Rightarrow> u8 list \<Rightarrow> u8 list \<Rightarrow> u8 list" where
  "ccs L subject kid pub =
     (let cose_key = PMap [(PInt 1, PInt 1), (PInt 2, PBytes kid), (PInt (-1), PInt 4), (PInt (-2), PBytes pub)]
      in dumps L (PMap [(PInt 2, PText subject), (PInt 8, PMap [(PInt 1, cose_key)])]))"

definition id_cred :: "('w, 'k, 'p) key_lib \<Rightarrow> u8 list \<Rightarrow> u8 list" where
  "id_cred L kid = dumps L (PMap [(PInt 4, PBytes kid)])"

text \<open>The bytes of a CCS with a one-byte kid and a 32-byte key, and of its identifier.\<close>

lemma ccs_bytes:
  assumes "dumps_law L" and "utf8 subject = Some t" and "length t < 24" and "length pub = 32"
  shows "ccs L subject [kid] pub =
    [0xa2, 0x02, of_nat (0x60 + length t)] @ t @ [0x08, 0xa1, 0x01, 0xa4, 0x01, 0x01, 0x02, 0x41, kid, 0x20, 0x04,
      0x21, 0x58, 0x20] @ pub"
proof -
  let ?cose = "PMap [(PInt 1, PInt 1), (PInt 2, PBytes [kid]), (PInt (-1), PInt 4), (PInt (-2), PBytes pub)]"
  let ?v = "PMap [(PInt 2, PText subject), (PInt 8, PMap [(PInt 1, ?cose)])]"
  have "canonical ?v" using assms(2-4) by (simp add: key_less_def cbor_head_def)
  then have "ccs L subject [kid] pub = canon ?v" using assms(1) by (simp add: ccs_def dumps_law_def Let_def)
  also have "\<dots> = [0xa2, 0x02, of_nat (0x60 + length t)] @ t @ [0x08, 0xa1, 0x01, 0xa4, 0x01, 0x01, 0x02, 0x41, kid,
      0x20, 0x04, 0x21, 0x58, 0x20] @ pub"
    using assms(2-4) by (simp add: cbor_head_def be_bytes_def)
  finally show ?thesis .
qed

lemma id_cred_bytes: "dumps_law L \<Longrightarrow> id_cred L [kid] = [0xa1, 0x04, 0x41, kid]"
  by (simp add: id_cred_def dumps_law_def cbor_head_def)

subsection \<open>C text\<close>

definition hexd :: "nat \<Rightarrow> char" where
  "hexd n = ''0123456789abcdef'' ! n"

text \<open>\<open>f"0x{b:02x}"\<close> (and \<open>{b:#04x}\<close>, the same text), and \<open>sep.join(xs)\<close>.\<close>

definition hex2 :: "u8 \<Rightarrow> string" where
  "hex2 b = [hexd (unat b div 16), hexd (unat b mod 16)]"

definition fmt_0x :: "u8 \<Rightarrow> string" where
  "fmt_0x b = ''0x'' @ hex2 b"

fun join :: "string \<Rightarrow> string list \<Rightarrow> string" where
  "join sep [] = []"
| "join sep [x] = x"
| "join sep (x # y # xs) = x @ sep @ join sep (y # xs)"

definition c_array :: "string \<Rightarrow> u8 list \<Rightarrow> string option \<Rightarrow> string" where
  "c_array name bs comment =
     (let body = join '', '' (map fmt_0x bs);
          line = ''static const uint8_t '' @ name @ ''[] = {'' @ body @ ''};''
      in case comment of
           Some c \<Rightarrow> if c \<noteq> [] then [CHR 0x09] @ ''/* '' @ c @ '' */'' @ [CHR 0x0a, CHR 0x09] @ line else CHR 0x09 # line
         | None \<Rightarrow> CHR 0x09 # line)"

text \<open>
  How a C compiler reads it: the text between the braces is a list of two-digit hexadecimal
  constants; an object-like macro is a decimal or such a hexadecimal constant, in parentheses or not.
\<close>

definition hex_value :: "char \<Rightarrow> nat option" where
  "hex_value c = index_of c ''0123456789abcdef''"

fun hex_const :: "string \<Rightarrow> u8 option" where
  "hex_const [z, x, a, b] =
     (case (hex_value a, hex_value b) of
        (Some h, Some l) \<Rightarrow> if z = CHR ''0'' \<and> x = CHR ''x'' then Some (of_nat (16 * h + l)) else None
      | _ \<Rightarrow> None)"
| "hex_const _ = None"

fun read_bytes :: "string \<Rightarrow> u8 list option" where
  "read_bytes [] = Some []"
| "read_bytes (z # x # a # b # cs) =
     (case hex_const [z, x, a, b] of
        None \<Rightarrow> None
      | Some v \<Rightarrow>
          (case cs of
             [] \<Rightarrow> Some [v]
           | c # d # cs \<Rightarrow> if c = CHR '','' \<and> d = CHR '' '' \<and> cs \<noteq> [] then map_option ((#) v) (read_bytes cs) else None
           | _ \<Rightarrow> None))"
| "read_bytes _ = None"

definition initializer :: "string \<Rightarrow> string" where
  "initializer text = takeWhile (\<lambda>c. c \<noteq> CHR ''}'') (tl (dropWhile (\<lambda>c. c \<noteq> CHR ''{'') text))"

definition c_int :: "string \<Rightarrow> int option" where
  "c_int s =
     (case s of
        [] \<Rightarrow> None
      | c # cs \<Rightarrow>
          if c = CHR ''-'' then (if cs \<noteq> [] \<and> list_all isdigit cs then Some (- digits_value cs) else None)
          else if list_all isdigit s then Some (digits_value s) else map_option uint (hex_const s))"

definition paren :: "string \<Rightarrow> string" where
  "paren s = ''('' @ s @ '')''"

definition c_expr :: "string \<Rightarrow> int option" where
  "c_expr s = (if s \<noteq> [] \<and> hd s = CHR ''('' \<and> last s = CHR '')'' then c_int (butlast (tl s)) else c_int s)"

lemma c_expr_paren [simp]: "c_expr (paren s) = c_int s"
  by (simp add: c_expr_def paren_def)

lemma hex_value_hexd: "n < 16 \<Longrightarrow> hex_value (hexd n) = Some n"
proof -
  assume "n < 16"
  moreover have "[0..<16] = [0, 1, 2, 3, 4, 5, 6, 7, 8, 9, 10, 11, 12, 13, 14, 15]" by (simp add: upt_rec)
  ultimately have "n \<in> set [0, 1, 2, 3, 4, 5, 6, 7, 8, 9, 10, 11, 12, 13, 14, 15]" by (metis atLeastLessThan_iff set_upt zero_le)
  moreover have "list_all (\<lambda>n. hex_value (hexd n) = Some n) [0, 1, 2, 3, 4, 5, 6, 7, 8, 9, 10, 11, 12, 13, 14, 15]"
    by (simp add: hex_value_def hexd_def)
  ultimately show ?thesis unfolding list_all_iff by blast
qed

lemma hex_const_fmt: "hex_const (fmt_0x b) = Some b"
proof -
  have "unat b div 16 < 16" "unat b mod 16 < 16" using unat_u8_lt [of b] by (simp_all add: less_mult_imp_div_less)
  then show ?thesis by (simp add: fmt_0x_def hex2_def hex_value_hexd)
qed

lemma read_bytes_fmt:
  "read_bytes (fmt_0x b) = Some [b]"
  "t \<noteq> [] \<Longrightarrow> read_bytes (fmt_0x b @ '', '' @ t) = map_option ((#) b) (read_bytes t)"
proof -
  obtain c d where f: "fmt_0x b = [CHR ''0'', CHR ''x'', c, d]" by (simp add: fmt_0x_def hex2_def)
  then show "read_bytes (fmt_0x b) = Some [b]"
    "t \<noteq> [] \<Longrightarrow> read_bytes (fmt_0x b @ '', '' @ t) = map_option ((#) b) (read_bytes t)"
    using hex_const_fmt [of b] by (simp_all del: hex_const.simps)
qed

lemma read_bytes_join: "read_bytes (join '', '' (map fmt_0x bs)) = Some bs"
proof (induction bs rule: induct_list012)
  case (3 b c bs)
  have "join '', '' (map fmt_0x (c # bs)) \<noteq> []" by (cases bs) (simp_all add: fmt_0x_def)
  from read_bytes_fmt(2) [OF this, of b] 3 show ?case by simp
qed (simp_all add: read_bytes_fmt)

lemma fmt_0x_not_brace: "CHR ''}'' \<notin> set (fmt_0x b)"
proof -
  have "unat b div 16 < 16" "unat b mod 16 < 16" using unat_u8_lt [of b] by (simp_all add: less_mult_imp_div_less)
  moreover have "hex_value CHR ''}'' = None" by (simp add: hex_value_def)
  ultimately have "hexd (unat b div 16) \<noteq> CHR ''}''" "hexd (unat b mod 16) \<noteq> CHR ''}''"
    by (metis hex_value_hexd option.distinct(1))+
  then show ?thesis by (auto simp: fmt_0x_def hex2_def)
qed

lemma join_not_brace: "CHR ''}'' \<notin> set (join '', '' (map fmt_0x bs))"
  using fmt_0x_not_brace by (induction bs rule: induct_list012) simp_all

lemma initializer_c_array:
  assumes "CHR ''{'' \<notin> set name" and "\<And>c. comment = Some c \<Longrightarrow> CHR ''{'' \<notin> set c"
  shows "initializer (c_array name bs comment) = join '', '' (map fmt_0x bs)"
proof -
  let ?b = "join '', '' (map fmt_0x bs)"
  have i: "initializer (pre @ CHR ''{'' # ?b @ ''};'') = ?b" if "CHR ''{'' \<notin> set pre" for pre
  proof -
    have "dropWhile (\<lambda>c. c \<noteq> CHR ''{'') (pre @ CHR ''{'' # ?b @ ''};'') = CHR ''{'' # ?b @ ''};''"
      using that by (subst dropWhile_append2) auto
    moreover have "takeWhile (\<lambda>c. c \<noteq> CHR ''}'') (?b @ ''};'') = ?b"
      using join_not_brace [of bs] by (subst takeWhile_append2) auto
    ultimately show ?thesis by (simp add: initializer_def)
  qed
  have "\<exists>pre. c_array name bs comment = pre @ CHR ''{'' # ?b @ ''};'' \<and> CHR ''{'' \<notin> set pre"
  proof (cases "\<exists>c. comment = Some c \<and> c \<noteq> []")
    case True
    then obtain c where c: "comment = Some c" "c \<noteq> []" by blast
    with assms show ?thesis
      by (intro exI [of _ "[CHR 0x09] @ ''/* '' @ c @ '' */'' @ [CHR 0x0a, CHR 0x09] @ ''static const uint8_t '' @ name @ ''[] = ''"])
        (simp add: c_array_def Let_def)
  next
    case False
    with assms(1) show ?thesis
      by (intro exI [of _ "[CHR 0x09] @ ''static const uint8_t '' @ name @ ''[] = ''"])
        (auto simp: c_array_def Let_def split: option.splits)
  qed
  then show ?thesis using i by metis
qed

text \<open>The C array the generator writes for a byte string is read back as exactly those bytes, whatever the
  bytes, the name and the comment (a comment or name with an opening brace apart).\<close>

lemma c_array_roundtrip:
  assumes "CHR ''{'' \<notin> set name" and "\<And>c. comment = Some c \<Longrightarrow> CHR ''{'' \<notin> set c"
  shows "read_bytes (initializer (c_array name bs comment)) = Some bs"
  using initializer_c_array [of name comment bs] assms by (simp add: read_bytes_join)

subsection \<open>The generated files\<close>

text \<open>
  A header is its macros and arrays, in the order of the file; the comments and the include guard are
  left out. \<open>str(None)\<close> is what becomes of a kid that does not compress.
\<close>

datatype c_decl = Define string string | Byte_array string string

definition py_str :: "int option \<Rightarrow> string" where
  "py_str v = (case v of None \<Rightarrow> ''None'' | Some i \<Rightarrow> show_int i)"

definition PRIV_NOTE :: string where "PRIV_NOTE = ''static DH private key, X25519 (32B, imported for key agreement)''"
definition PUB_NOTE :: string where "PUB_NOTE = ''peer static DH public key, X25519 u-coordinate (32B)''"
definition CRED_I_NOTE :: string where "CRED_I_NOTE = ''CRED_I (CCS/COSE_Key), used verbatim in the transcript''"
definition CRED_R_NOTE :: string where "CRED_R_NOTE = ''CRED_R (CCS/COSE_Key), used verbatim in the transcript''"

definition array_decl :: "string \<Rightarrow> u8 list \<Rightarrow> string \<Rightarrow> c_decl" where
  "array_decl name bs note = Byte_array name (c_array name bs (Some note))"

definition device_decls :: "u8 list \<Rightarrow> u8 list \<Rightarrow> u8 list \<Rightarrow> u8 list \<Rightarrow> c_decl list" where
  "device_decls dr cred_r p_i cred_i =
     [Define ''ED_C_R_INT'' (paren (show_int C_R_INT)), Define ''ED_KID_R'' (paren (fmt_0x KID_R)), Define ''ED_KID_I'' (paren (fmt_0x KID_I)),
      Define ''ED_KID_I_INT'' (paren (py_str (kid_wire_int KID_I))),
      array_decl ''ED_R_PRIV'' dr PRIV_NOTE, array_decl ''ED_CRED_R'' cred_r CRED_R_NOTE,
      array_decl ''ED_G_I'' p_i PUB_NOTE, array_decl ''ED_CRED_I'' cred_i CRED_I_NOTE]"

definition client_decls :: "u8 list \<Rightarrow> u8 list \<Rightarrow> u8 list \<Rightarrow> u8 list \<Rightarrow> c_decl list" where
  "client_decls di cred_i pr cred_r =
     [Define ''ED_C_I_INT'' (paren (show_int C_I_INT)), Define ''ED_C_R_INT'' (paren (show_int C_R_INT)),
      Define ''ED_KID_I'' (paren (fmt_0x KID_I)), Define ''ED_KID_R'' (paren (fmt_0x KID_R)),
      Define ''ED_KID_R_INT'' (paren (py_str (kid_wire_int KID_R))),
      array_decl ''ED_I_PRIV'' di PRIV_NOTE, array_decl ''ED_CRED_I'' cred_i CRED_I_NOTE,
      array_decl ''ED_G_R'' pr PUB_NOTE, array_decl ''ED_CRED_R'' cred_r CRED_R_NOTE]"

text \<open>The value of a name in a header, as the C sources that include it see it.\<close>

fun macro :: "c_decl list \<Rightarrow> string \<Rightarrow> int option" where
  "macro [] name = None"
| "macro (Define n v # ds) name = (if n = name then c_expr v else macro ds name)"
| "macro (d # ds) name = macro ds name"

fun array :: "c_decl list \<Rightarrow> string \<Rightarrow> u8 list option" where
  "array [] name = None"
| "array (Byte_array n text # ds) name = (if n = name then read_bytes (initializer text) else array ds name)"
| "array (d # ds) name = array ds name"

definition read_device :: "c_decl list \<Rightarrow> edhoc_creds_h option" where
  "read_device ds =
     (case (macro ds ''ED_C_R_INT'', macro ds ''ED_KID_R'', macro ds ''ED_KID_I'', macro ds ''ED_KID_I_INT'',
            array ds ''ED_R_PRIV'', array ds ''ED_CRED_R'', array ds ''ED_G_I'', array ds ''ED_CRED_I'') of
        (Some cr, Some kr, Some ki, Some kii, Some priv, Some credr, Some gi, Some credi) \<Rightarrow>
          Some \<lparr>ED_C_R_INT = cr, ED_KID_R = of_int kr, ED_KID_I = of_int ki, ED_KID_I_INT = kii, ED_R_PRIV = priv,
                ED_CRED_R = credr, ED_G_I = gi, ED_CRED_I = credi\<rparr>
      | _ \<Rightarrow> None)"

definition read_client :: "c_decl list \<Rightarrow> edhoc_creds_client_h option" where
  "read_client ds =
     (case (macro ds ''ED_C_I_INT'', macro ds ''ED_C_R_INT'', macro ds ''ED_KID_I'', macro ds ''ED_KID_R'',
            macro ds ''ED_KID_R_INT'', array ds ''ED_I_PRIV'', array ds ''ED_CRED_I'', array ds ''ED_G_R'',
            array ds ''ED_CRED_R'') of
        (Some ci, Some cr, Some ki, Some kr, Some kri, Some priv, Some credi, Some gr, Some credr) \<Rightarrow>
          Some \<lparr>CL_C_I_INT = ci, CL_C_R_INT = cr, CL_KID_I = of_int ki, CL_KID_R = of_int kr, CL_KID_R_INT = kri,
                CL_I_PRIV = priv, CL_CRED_I = credi, CL_G_R = gr, CL_CRED_R = credr\<rparr>
      | _ \<Rightarrow> None)"

lemma notes_no_brace:
  "CHR ''{'' \<notin> set PRIV_NOTE" "CHR ''{'' \<notin> set PUB_NOTE" "CHR ''{'' \<notin> set CRED_I_NOTE" "CHR ''{'' \<notin> set CRED_R_NOTE"
  by (simp_all add: PRIV_NOTE_def PUB_NOTE_def CRED_I_NOTE_def CRED_R_NOTE_def)

lemma read_array:
  "CHR ''{'' \<notin> set name \<Longrightarrow> CHR ''{'' \<notin> set note \<Longrightarrow> read_bytes (initializer (c_array name bs (Some note))) = Some bs"
  using initializer_c_array [of name "Some note" bs] by (simp add: read_bytes_join)

lemma c_int_show: "c_int (show_int i) = Some i"
proof -
  have d: "decimal n \<noteq> []" "list_all isdigit (decimal n)" "digits_value (decimal n) = int n" for n
    using decimal_digits [of n] decimal_value [of n] by (auto simp: list_all_iff)
  show ?thesis
  proof (cases "i < 0")
    case True
    with d [of "nat (- i)"] show ?thesis by (simp add: c_int_def show_int_def)
  next
    case False
    obtain c cs where c: "decimal (nat i) = c # cs" using d(1) by (cases "decimal (nat i)") auto
    with d(2) [of "nat i"] have "c \<noteq> CHR ''-''" by (auto simp: isdigit_def)
    with c d(2,3) [of "nat i"] False show ?thesis by (simp add: c_int_def show_int_def)
  qed
qed

lemma c_int_fmt_0x: "c_int (fmt_0x b) = Some (uint b)"
  using hex_const_fmt [of b] by (simp add: c_int_def fmt_0x_def isdigit_def)

lemma read_device_header: "read_device (device_decls dr cred_r p_i cred_i) = device_header dr cred_r p_i cred_i"
  by (simp add: read_device_def device_decls_def device_header_def array_decl_def read_array notes_no_brace c_int_show
      c_int_fmt_0x py_str_def kid_wire_int_def KID_I_def)

lemma read_client_header: "read_client (client_decls di cred_i pr cred_r) = client_header di cred_i pr cred_r"
  by (simp add: read_client_def client_decls_def client_header_def array_decl_def read_array notes_no_brace c_int_show
      c_int_fmt_0x py_str_def kid_wire_int_def KID_R_def)

text \<open>\<open>bytes.hex()\<close>, and the JSON value written for the host client.\<close>

definition py_hex :: "u8 list \<Rightarrow> string" where
  "py_hex bs = concat (map hex2 bs)"

datatype json = JInt int | JStr string | JObj "(string \<times> json) list"

definition host_json ::
  "u8 list \<Rightarrow> u8 list \<Rightarrow> u8 list \<Rightarrow> u8 list \<Rightarrow> u8 list \<Rightarrow> u8 list \<Rightarrow> u8 list \<Rightarrow> json" where
  "host_json di p_i cred_i idc_i pr cred_r idc_r =
     JObj [(''suite'', JInt SUITE), (''method'', JInt METHOD), (''c_i_int'', JInt C_I_INT), (''c_r_int'', JInt C_R_INT),
       (''initiator'', JObj [(''kid'', JStr (py_hex [KID_I])), (''priv'', JStr (py_hex di)), (''pub'', JStr (py_hex p_i)),
          (''ccs'', JStr (py_hex cred_i)), (''id_cred'', JStr (py_hex idc_i))]),
       (''responder'', JObj [(''kid'', JStr (py_hex [KID_R])), (''pub'', JStr (py_hex pr)), (''ccs'', JStr (py_hex cred_r)),
          (''id_cred'', JStr (py_hex idc_r))])]"

record key_files =
  device_h :: "c_decl list"
  client_h :: "c_decl list"
  creds_json :: json

definition keys_main :: "('w, 'k, 'p) key_lib \<Rightarrow> 'w \<Rightarrow> key_files \<times> 'w" where
  "keys_main L w =
     (let ((di, p_i), w) = gen_x25519 L w;
          ((dr, pr), w) = gen_x25519 L w;
          cred_i = ccs L (str ''usb-ncm-initiator'') [KID_I] p_i;
          cred_r = ccs L (str ''usb-ncm-responder'') [KID_R] pr;
          idc_i = id_cred L [KID_I];
          idc_r = id_cred L [KID_R]
      in (\<lparr>device_h = device_decls dr cred_r p_i cred_i, client_h = client_decls di cred_i pr cred_r,
           creds_json = host_json di p_i cred_i idc_i pr cred_r idc_r\<rparr>, w))"

text \<open>A CCS as the two ends use it: subject, one-byte kid and public key, in canonical CBOR.\<close>

definition ccs_ref :: "u8 list \<Rightarrow> u8 \<Rightarrow> u8 list \<Rightarrow> u8 list" where
  "ccs_ref subject kid pub = [0xa2, 0x02, of_nat (0x60 + length subject)] @ subject @
     [0x08, 0xa1, 0x01, 0xa4, 0x01, 0x01, 0x02, 0x41, kid, 0x20, 0x04, 0x21, 0x58, 0x20] @ pub"

lemma ccs_generated:
  assumes "dumps_law L" and "length pub = 32"
  shows "ccs L (str ''usb-ncm-initiator'') [kid] pub = ccs_ref (bytes ''usb-ncm-initiator'') kid pub"
    "ccs L (str ''usb-ncm-responder'') [kid] pub = ccs_ref (bytes ''usb-ncm-responder'') kid pub"
proof -
  have "utf8 (str ''usb-ncm-initiator'') = Some (bytes ''usb-ncm-initiator'')"
    "utf8 (str ''usb-ncm-responder'') = Some (bytes ''usb-ncm-responder'')" by (rule utf8_ascii; simp)+
  moreover have "length (bytes ''usb-ncm-initiator'') < 24" "length (bytes ''usb-ncm-responder'') < 24"
    unfolding length_bytes by simp_all
  ultimately show "ccs L (str ''usb-ncm-initiator'') [kid] pub = ccs_ref (bytes ''usb-ncm-initiator'') kid pub"
    "ccs L (str ''usb-ncm-responder'') [kid] pub = ccs_ref (bytes ''usb-ncm-responder'') kid pub"
    using ccs_bytes [OF assms(1) _ _ assms(2)] unfolding ccs_ref_def by blast+
qed

text \<open>One run writes both headers from the same two key pairs.\<close>

lemma keys_main_headers:
  assumes "dumps_law L" and "x25519_law L public" and "keys_main L w = (f, w')"
  obtains di dr where "length (public di) = 32" "length (public dr) = 32"
    "read_device (device_h f) = device_header dr (ccs_ref (bytes ''usb-ncm-responder'') KID_R (public dr)) (public di)
       (ccs_ref (bytes ''usb-ncm-initiator'') KID_I (public di))"
    "read_client (client_h f) = client_header di (ccs_ref (bytes ''usb-ncm-initiator'') KID_I (public di)) (public dr)
       (ccs_ref (bytes ''usb-ncm-responder'') KID_R (public dr))"
proof -
  obtain di p_i w1 dr pr w2 where g: "gen_x25519 L w = ((di, p_i), w1)" "gen_x25519 L w1 = ((dr, pr), w2)"
    by (metis prod.collapse)
  have k: "length p_i = 32" "length pr = 32" "p_i = public di" "pr = public dr"
    using gen_x25519_pair [OF assms(2)] g by blast+
  have c: "ccs L (str ''usb-ncm-initiator'') [KID_I] p_i = ccs_ref (bytes ''usb-ncm-initiator'') KID_I p_i"
    "ccs L (str ''usb-ncm-responder'') [KID_R] pr = ccs_ref (bytes ''usb-ncm-responder'') KID_R pr"
    using ccs_generated [OF assms(1)] k by blast+
  have "device_h f = device_decls dr (ccs_ref (bytes ''usb-ncm-responder'') KID_R pr) p_i (ccs_ref (bytes ''usb-ncm-initiator'') KID_I p_i)"
    "client_h f = client_decls di (ccs_ref (bytes ''usb-ncm-initiator'') KID_I p_i) pr (ccs_ref (bytes ''usb-ncm-responder'') KID_R pr)"
    using assms(3) unfolding keys_main_def g Let_def prod.case c by auto
  with k show thesis by (intro that [of di dr]) (simp_all add: read_device_header read_client_header)
qed

lemma generated_wire_ints: "kid_wire_int KID_I = Some (-11)" "kid_wire_int KID_R = Some (-12)"
  by (simp_all add: kid_wire_int_def KID_I_def KID_R_def)

text \<open>C37: the two headers of one run of the generator are a matched pair: compiled in, they give the device and
  the client the same credentials byte for byte, the same kids and the same C_R; the public key each
  end authenticates its peer with belongs to the peer's private key and is the one inside the peer's
  credential, next to the peer's kid.\<close>

theorem generated_headers_match:
  assumes "dumps_law L" and "x25519_law L public" and "keys_main L w = (f, w')"
  shows "\<exists>D K. read_device (device_h f) = Some D \<and> read_client (client_h f) = Some K \<and>
    ED_CRED_I D = CL_CRED_I K \<and> ED_CRED_R D = CL_CRED_R K \<and> ED_C_R_INT D = CL_C_R_INT K \<and>
    ED_KID_I D = CL_KID_I K \<and> ED_KID_R D = CL_KID_R K \<and>
    kid_wire_int (ED_KID_I D) = Some (ED_KID_I_INT D) \<and> kid_wire_int (CL_KID_R K) = Some (CL_KID_R_INT K) \<and>
    ED_G_I D = public (CL_I_PRIV K) \<and> CL_G_R K = public (ED_R_PRIV D) \<and>
    ED_CRED_I D = ccs_ref (bytes ''usb-ncm-initiator'') (ED_KID_I D) (ED_G_I D) \<and>
    ED_CRED_R D = ccs_ref (bytes ''usb-ncm-responder'') (ED_KID_R D) (CL_G_R K)"
  using assms
  by (rule keys_main_headers) (simp add: device_header_def client_header_def generated_wire_ints)

text \<open>A generator whose private keys are constant and whose public ones are their reversal.\<close>

definition ref_key_lib :: "(nat, nat, u8 list) key_lib" where
  "ref_key_lib = \<lparr>generate = (\<lambda>n. (n, n + 1)), private_bytes = (\<lambda>n e f c. of_nat n # replicate 31 7),
     public_key = (\<lambda>n. rev (of_nat n # replicate 31 7)), public_bytes = (\<lambda>p e f. p), dumps = canon\<rparr>"

theorem generated_headers_match_witness:
  "\<exists>f w' D K. keys_main ref_key_lib 1 = (f, w') \<and> read_device (device_h f) = Some D \<and> read_client (client_h f) = Some K \<and>
     ED_CRED_I D = CL_CRED_I K \<and> ED_G_I D = rev (CL_I_PRIV K)"
proof -
  obtain f w' where f: "keys_main ref_key_lib 1 = (f, w')" by fastforce
  have "dumps_law ref_key_lib" "x25519_law ref_key_lib rev"
    by (auto simp: dumps_law_def x25519_law_def ref_key_lib_def Let_def)
  from generated_headers_match [OF this f] f show ?thesis by blast
qed

subsection \<open>The two ends authenticate each other\<close>

text \<open>
  What the verifier of one end receives of the credential the other end fetched: a kid, as a byte
  string or compressed to an integer, that denotes the same bytes.
\<close>

definition presents :: "edhoc_auth_creds \<Rightarrow> edhoc_auth_creds \<Rightarrow> bool" where
  "presents own received \<longleftrightarrow> label received = label own \<and> well_formed_key_id (key_id received) \<and>
     denoted_kid (key_id received) = denoted_kid (key_id own)"

lemma client_fetch_own:
  assumes "client_cred_fetch L K w c0 = (r, c, w')" and "key_id_bstr (key_id c0) \<noteq> []"
  shows "label c = EDHOC_COSE_HEADER_KID" "denoted_kid (key_id c) = [CL_KID_I K]" "cred (key_id c) = CL_CRED_I K"
proof -
  have "label c = EDHOC_COSE_HEADER_KID \<and> denoted_kid (key_id c) = [CL_KID_I K] \<and> cred (key_id c) = CL_CRED_I K"
    using assms by (cases "key_id_bstr (key_id c0)")
      (auto simp: client_cred_fetch_def denoted_kid_def Let_def split: prod.splits if_splits)
  then show "label c = EDHOC_COSE_HEADER_KID" "denoted_kid (key_id c) = [CL_KID_I K]" "cred (key_id c) = CL_CRED_I K" by simp_all
qed

lemma device_fetch_own:
  assumes "cred_fetch L D w c0 = (r, c, w')" and "key_id_bstr (key_id c0) \<noteq> []"
  shows "label c = EDHOC_COSE_HEADER_KID" "denoted_kid (key_id c) = [ED_KID_R D]" "cred (key_id c) = ED_CRED_R D"
proof -
  have "label c = EDHOC_COSE_HEADER_KID \<and> denoted_kid (key_id c) = [ED_KID_R D] \<and> cred (key_id c) = ED_CRED_R D"
    using assms by (cases "key_id_bstr (key_id c0)")
      (auto simp: cred_fetch_def denoted_kid_def Let_def split: prod.splits if_splits)
  then show "label c = EDHOC_COSE_HEADER_KID" "denoted_kid (key_id c) = [ED_KID_R D]" "cred (key_id c) = ED_CRED_R D" by simp_all
qed

text \<open>C14: built from one run of the generator, the two ends recognise each other: what the client's
  \<open>cred_fetch\<close> presents, in either encoding of the kid, the device's \<open>cred_verify\<close> accepts, and it
  yields the public key of the client's private key and exactly the credential bytes the client uses
  in its transcript; and the same the other way round.\<close>

theorem credentials_interoperate:
  assumes gen: "dumps_law L" "x25519_law L public" "keys_main L w = (f, w')"
    and built: "read_device (device_h f) = Some D" "read_client (client_h f) = Some K"
    and client: "client_cred_fetch Lc K wc c0 = (rc, ci, wc')" "key_id_bstr (key_id c0) \<noteq> []" "presents ci c"
    and device: "cred_fetch Ld D wd d0 = (rd, cr, wd')" "key_id_bstr (key_id d0) \<noteq> []" "presents cr d"
  shows "cred_verify Ld D c =
      (EDHOC_SUCCESS Ld, byte_string_form KID_I (cred (key_id ci)) c, Some (public (CL_I_PRIV K), 32)) \<and>
    client_cred_verify Lc K d =
      (EDHOC_SUCCESS Lc, byte_string_form KID_R (cred (key_id cr)) d, Some (public (ED_R_PRIV D), 32))"
proof -
  obtain di dr where k: "length (public di) = 32" "length (public dr) = 32"
    "read_device (device_h f) = device_header dr (ccs_ref (bytes ''usb-ncm-responder'') KID_R (public dr)) (public di)
       (ccs_ref (bytes ''usb-ncm-initiator'') KID_I (public di))"
    "read_client (client_h f) = client_header di (ccs_ref (bytes ''usb-ncm-initiator'') KID_I (public di)) (public dr)
       (ccs_ref (bytes ''usb-ncm-responder'') KID_R (public dr))"
    using gen by (rule keys_main_headers)
  have D: "ED_KID_I D = KID_I" "ED_KID_I_INT D = -11" "ED_KID_R D = KID_R" "ED_R_PRIV D = dr" "ED_G_I D = public di"
    "ED_CRED_I D = CL_CRED_I K" "ED_CRED_R D = CL_CRED_R K" "CL_KID_I K = KID_I" "CL_KID_R K = KID_R"
    "CL_KID_R_INT K = -12" "CL_I_PRIV K = di" "CL_G_R K = public dr"
    using built k(3,4) by (auto simp: device_header_def client_header_def generated_wire_ints)
  have n: "names_peer (ED_KID_I D) (ED_KID_I_INT D) c"
    using responder.names_peer_denoted [of D c] client_fetch_own [OF client(1,2)] client(3) D
    by (simp add: presents_def generated_wire_ints)
  have m: "names_peer (CL_KID_R K) (CL_KID_R_INT K) d"
    using initiator.names_peer_denoted [of K d] device_fetch_own [OF device(1,2)] device(3) D
    by (simp add: presents_def generated_wire_ints)
  show ?thesis
    using responder.accepts [OF n, of Ld] initiator.accepts [OF m, of Lc] client_fetch_own(3) [OF client(1,2)]
      device_fetch_own(3) [OF device(1,2)] D k(1,2) by (simp add: size_of_def)
qed

text \<open>The kid travels compressed: the device receives -11, the client -12.\<close>

theorem credentials_interoperate_witness:
  "\<exists>f w' D K. keys_main ref_key_lib 1 = (f, w') \<and> read_device (device_h f) = Some D \<and> read_client (client_h f) = Some K \<and>
     fst (cred_verify board_edhoc D (ref_received [0x2a])) = EDHOC_SUCCESS board_edhoc \<and>
     snd (snd (cred_verify board_edhoc D (ref_received [0x2a]))) = Some (rev (CL_I_PRIV K), 32) \<and>
     fst (client_cred_verify board_edhoc K (ref_received [0x2b])) = EDHOC_SUCCESS board_edhoc"
proof -
  obtain f w' where f: "keys_main ref_key_lib 1 = (f, w')" by fastforce
  have laws: "dumps_law ref_key_lib" "x25519_law ref_key_lib rev"
    by (auto simp: dumps_law_def x25519_law_def ref_key_lib_def Let_def)
  obtain D K where b: "read_device (device_h f) = Some D" "read_client (client_h f) = Some K"
    "CL_KID_I K = KID_I" "ED_KID_R D = KID_R"
    by (rule keys_main_headers [OF laws f]) (simp add: device_header_def client_header_def generated_wire_ints)
  obtain rc ci wc' where c: "client_cred_fetch board_edhoc K False (ref_received [0]) = (rc, ci, wc')" by (metis prod_cases3)
  obtain rd cr wd' where d: "cred_fetch board_edhoc D False (ref_received [0]) = (rd, cr, wd')" by (metis prod_cases3)
  have ne: "key_id_bstr (key_id (ref_received [0])) \<noteq> []" using ref_received_2a(1) [of 0] by (simp add: well_formed_key_id_def)
  have "denoted_kid (key_id (ref_received [0x2a])) = [0x2a]" "denoted_kid (key_id (ref_received [0x2b])) = [0x2b]"
    using ref_received_2a(3) [of "0x2a" "-11"] ref_received_2a(3) [of "0x2b" "-12"] by simp_all
  then have "presents ci (ref_received [0x2a])" "presents cr (ref_received [0x2b])"
    using client_fetch_own [OF c ne] device_fetch_own [OF d ne] ref_received_2a(1,2) b(3,4)
    by (simp_all add: presents_def KID_I_def KID_R_def)
  from credentials_interoperate [OF laws f b(1,2) c ne this(1) d ne this(2)] f b(1,2) show ?thesis by auto
qed

end
