(* ===== verification/Spec2Isabelle.thy ===== *)
theory Spec2Isabelle
  imports End_To_End Main_Boot Coap_Cli Edhoc_Keys
begin

text \<open>
  \<^bold>\<open>Verification of usb_ncm_net.\<close> The program is Zephyr firmware for an RP2350 board that presents
  itself as a USB CDC-NCM network adapter and serves CoAP, in three builds: plaintext, DTLS with a
  pre-shared key, and EDHOC/OSCORE. A host tool is the peer of the last one. The parts are

  \<^item> src/coap_server.c: the resources \<open>hello\<close> and \<open>led\<close>, their shared dispatcher, the plaintext
    handler, the LED and the start of the service;
  \<^item> src/edhoc_oscore.c: the EDHOC Responder behind POST /.well-known/edhoc, and the OSCORE resource at
    the root path, which unprotects a request, hands it to the dispatcher of coap_server.c, and
    protects the answer;
  \<^item> src/usbd_setup.c and src/main.c: USB bring-up, the IPv4 address, PSA, and the start of the server;
  \<^item> host_client/src/client.cpp: the EDHOC Initiator and OSCORE client;
  \<^item> scripts/edhoc_keys.py: the generator of the credentials both ends are compiled with;
  \<^item> scripts/coap_cli.py and scripts/coap_latency.py: a command-line client and a latency probe for the
    plaintext and the DTLS build.

  \<^bold>\<open>How the code is modelled.\<close> Handlers are functions from state to a return code and state, each
  early return and error code a branch of its own. Static variables are record fields: \<open>server_state\<close>
  (\<open>led_state\<close>, the world, the packets handed to \<open>coap_resource_send\<close>) and its extension \<open>edhoc_state\<close>
  (the statics of edhoc_oscore.c, the mutex as its lock count). Integers keep their width (\<open>u8\<close>,
  \<open>u16\<close>, \<open>u32\<close>), with the conversions the C code makes written as \<open>ucast\<close>. Zephyr, libedhoc, uoscore,
  cantcoap, PSA and the socket layer are not in the repository: their functions are fields of records
  passed as arguments, with an opaque world, and what the sources rely on is stated as named laws.
  Each set of laws is satisfied by a concrete instance, on which every witness runs. Python exceptions
  are values of a sum type, Python integers are unbounded and text is a list of code points; the
  sockets, mbedtls, the X25519 keys and the CBOR encoder of the scripts are parameters with laws
  like the C libraries. The functions of the C and C++ code are total and need no fuel; the client's latency loop has a termination proof.
  The two loops of the Python tools that wait on the network may run forever and are partial
  functions in the option monad, with the exact condition under which they return. The fuel of the
  reference datagram decoder is the length of the datagram, and an option takes at least one byte.
  The client's \<open>size_t\<close> lengths, none above 512, are kept as \<open>u32\<close>. Doubles are exact reals followed by a
  rounding function, a parameter of which only monotonicity and a few exact values are assumed.

  \<^bold>\<open>The theories.\<close>

  \<^item> \<open>Prelude\<close>: integers, errno, strings, the early-return idioms \<open>chk\<close> and \<open>seq_ok\<close>, runs of a machine,
    and the locales \<open>invariant_step\<close>, \<open>simulation_step\<close> and \<open>refinement_step\<close> that lift a step property
    to runs.
  \<^item> \<open>Coap_Lib\<close>, \<open>Coap_Ref\<close>: the CoAP library of Zephyr as an interface with laws over messages and
    buffer space; a byte-level instance.
  \<^item> \<open>Coap_Wire\<close>: the datagram format of RFC 7252 as a reference decoder, and the law that ties the
    library's packets to it.
  \<^item> \<open>Coap_Server\<close>: coap_server.c (all of it). The builders share the contract \<open>response_builder\<close>. The
    dispatcher implements \<open>server_spec\<close>, an abstract server over messages, and answers 4.04 when the
    path cannot be read (\<open>server_answer\<close>); it answers within the buffers used, changes the LED only for an accepted PUT, and the LED state mirrors the pin.
  \<^item> \<open>Cbor\<close>: \<open>cbor_item_len\<close>, \<open>cid_to_cbor\<close> and \<open>kid_wire_int\<close> against an encoder of CBOR integers and
    strings.
  \<^item> \<open>Edhoc_Lib\<close>, \<open>Edhoc_Ref\<close>: libedhoc, uoscore and the SHA-256 device as interfaces with laws; an
    instance on which handshakes run.
  \<^item> \<open>Edhoc_Creds\<close>: the credential callbacks of both ends, one contract \<open>peer_verifier\<close>, and the hash
    callback. Each end accepts exactly the other's kid, in both encodings.
  \<^item> \<open>Edhoc_Oscore\<close>: \<open>edhoc_setup\<close>, \<open>derive_and_init_oscore\<close>, \<open>edhoc_post\<close> and \<open>oscore_post\<close>. The framing
    is undone exactly, a successful set-up configures the context completely, the mutex is released on
    every path, and the reply carries the composed message or nothing is sent.
  \<^item> \<open>Service\<close>: all handlers together as one machine with reachable states. The session refines a
    three-phase machine; a ready OSCORE context means a completed and authenticated handshake and is
    backed by the key material in the static buffers; OSCORE requests are answered as the same
    requests in plaintext, and are refused outside a session; whatever path a request takes, the LED
    state is the level of the pin, and at most one packet is sent, within the handler's buffer.
  \<^item> \<open>Usbd_Setup\<close>, \<open>Main_Boot\<close>: the boot against a plan of ordered steps, logged for the arguments the
    code is meant to pass, and the VBUS callback against a machine that follows the last message whose
    call succeeded.
  \<^item> \<open>Host_Client\<close>: the client's requests, set-up and handshake; its datagrams carry its counters and are
    understood by the device's framing, its buffers are respected, its message IDs do not repeat, and
    a handshake that succeeds is a chain of exchanges each of which processed what was received.
  \<^item> \<open>Client_Bench\<close>: \<open>bench_endpoint\<close>, its loop and its statistics. Every request is accounted for, and
    the figures are in order however doubles round.
  \<^item> \<open>Client_Main\<close>: the command line and \<open>main\<close>. Every documented command line is parsed to its meaning;
    each way the program ends is tied to what it has sent.
  \<^item> \<open>Agreement\<close>, \<open>End_To_End\<close>: client and device on one link. The client's handshake completes only if
    the device's did; a protected request that succeeds was served as the server specification says,
    and the client reads exactly that response.
  \<^item> \<open>Edhoc_Keys\<close>: edhoc_keys.py, down to the text of the C arrays and macros it writes. The two headers
    of one run are a matched pair, and the two ends built from them accept each other's credentials.
  \<^item> \<open>Python_Lib\<close>: what the tools use of Python: exceptions, UTF-8, \<open>struct\<close>, \<open>split\<close>, \<open>find\<close>.
  \<^item> \<open>Coap_Request\<close>: \<open>build_request\<close> of coap_latency.py. Its bytes decode to the request asked for, and
    which requests it gets wrong without saying so.
  \<^item> \<open>Coap_Latency\<close>: the transports, \<open>measure\<close>, \<open>report\<close> and \<open>main\<close> of coap_latency.py. When a wait returns,
    how every request is accounted for, and that the figures are in order.
  \<^item> \<open>Coap_Cli\<close>: coap_cli.py. It reads responses correctly, closes its transport on every path, and what
    it prints of a plaintext request is what the server specification answers.

  \<^bold>\<open>Interleaving.\<close> Zephyr's CoAP server calls handlers from one thread, so the steps of \<open>Service\<close> are
  whole handler calls, in any order and with any packets. That \<open>oscore_post\<close> does not take the mutex
  \<open>edhoc_post\<close> takes matters only if that changed.

  \<^bold>\<open>Not modelled.\<close> Logging and the layout of printed lines; the socket loop of Zephyr that parses
  datagrams and selects the handler; the cryptography; overflow to infinity and NaN of doubles, and
  failure of memory allocation, in the client; the option parser of the Python tools (argparse) and
  the comments of the generated headers; build files, devicetree and linker scripts.
\<close>

end
